theory Spec2Isabelle
  imports Main "HOL-Library.AList" "HOL-Library.Sublist"
begin

section \<open>Text primitives\<close>

text \<open>
  A JavaScript string is a sequence of code units. The development covers the code units
  0 to 255 (ASCII and Latin-1), one \<^typ>\<open>char\<close> each. Within that range the
  built-ins used by the bot behave as defined here; the en dash of \<open>dashRegex\<close>, the
  separators U+2028 and U+2029 and the wider Unicode blanks lie outside it and cannot occur
  in a modelled text.
\<close>

definition isWhiteSpace :: "char \<Rightarrow> bool" where
  \<comment> \<open>what \<open>\s\<close> and \<open>trim\<close> treat as blank: TAB, LF, VT, FF, CR, SP, NBSP\<close>
  "isWhiteSpace c \<longleftrightarrow>
     c \<in> set [CHR 0x09, CHR 0x0A, CHR 0x0B, CHR 0x0C, CHR 0x0D, CHR 0x20, CHR 0xA0]"

definition isLineTerminator :: "char \<Rightarrow> bool" where
  "isLineTerminator c \<longleftrightarrow> c = CHR 0x0A \<or> c = CHR 0x0D"

definition isDot :: "char \<Rightarrow> bool" where
  \<comment> \<open>the regular-expression atom \<open>.\<close>, also the class \<open>[^\n\r]\<close>\<close>
  "isDot c \<longleftrightarrow> \<not> isLineTerminator c"

definition isDigit :: "char \<Rightarrow> bool" where
  \<comment> \<open>the class \<open>\d\<close>\<close>
  "isDigit c \<longleftrightarrow> c \<in> set ''0123456789''"

definition trim :: "string \<Rightarrow> string" where
  "trim s = rev (dropWhile isWhiteSpace (rev (dropWhile isWhiteSpace s)))"

definition toLowerChar :: "char \<Rightarrow> char" where
  \<comment> \<open>A to Z, and the Latin-1 capitals 0xC0 to 0xDE without the multiplication sign\<close>
  "toLowerChar c =
     (let n = (of_char c :: nat)
      in if (65 \<le> n \<and> n \<le> 90) \<or> (192 \<le> n \<and> n \<le> 222 \<and> n \<noteq> 215)
         then char_of (n + 32) else c)"

definition toLowerCase :: "string \<Rightarrow> string" where
  "toLowerCase s = map toLowerChar s"

fun str_includes :: "string \<Rightarrow> string \<Rightarrow> bool" where
  \<comment> \<open>\<open>s.includes(t)\<close> on strings: does \<open>t\<close> occur in \<open>s\<close>\<close>
  "str_includes [] t = (t = [])"
| "str_includes (c # s) t = (prefix t (c # s) \<or> str_includes s t)"

fun split_sp :: "string \<Rightarrow> string list" where
  \<comment> \<open>\<open>s.split(' ')\<close>\<close>
  "split_sp [] = [[]]"
| "split_sp (c # cs) =
     (if c = CHR '' '' then [] # split_sp cs
      else (case split_sp cs of [] \<Rightarrow> [[c]] | p # ps \<Rightarrow> (c # p) # ps))"

fun join_sp :: "string list \<Rightarrow> string" where
  \<comment> \<open>\<open>parts.join(' ')\<close>\<close>
  "join_sp [] = []"
| "join_sp [p] = p"
| "join_sp (p # q # ps) = p @ CHR '' '' # join_sp (q # ps)"

function collapse_ws :: "string \<Rightarrow> string" where
  \<comment> \<open>\<open>s.replace(/\s+/g, ' ')\<close>: every maximal run of blanks becomes one space\<close>
  "collapse_ws [] = []"
| "collapse_ws (c # cs) =
     (if isWhiteSpace c then CHR '' '' # collapse_ws (dropWhile isWhiteSpace cs)
      else c # collapse_ws cs)"
  by pat_completeness auto
termination
  by (relation "measure length") (auto simp: length_dropWhile_le less_Suc_eq_le)

section \<open>Backtracking matchers\<close>

text \<open>
  The regular expressions of \<open>index.js\<close> are written with the matchers below, each taking
  the continuation that matches the rest of the pattern. A matcher returns the first
  success in the priority order of the backtracking search: a greedy quantifier tries the
  longest repetition first, a lazy one the shortest.
\<close>

fun greedy_plus :: "(char \<Rightarrow> bool) \<Rightarrow> (string \<Rightarrow> string \<Rightarrow> 'a option) \<Rightarrow> string \<Rightarrow> string \<Rightarrow> 'a option" where
  \<comment> \<open>\<open>P+\<close>; \<open>acc\<close> is the text consumed so far, handed to the continuation with the rest\<close>
  "greedy_plus P k acc [] = None"
| "greedy_plus P k acc (c # cs) =
     (if P c
      then (case greedy_plus P k (acc @ [c]) cs of
              Some r \<Rightarrow> Some r
            | None \<Rightarrow> k (acc @ [c]) cs)
      else None)"

definition greedy_star :: "(char \<Rightarrow> bool) \<Rightarrow> (string \<Rightarrow> string \<Rightarrow> 'a option) \<Rightarrow> string \<Rightarrow> 'a option" where
  \<comment> \<open>\<open>P*\<close>\<close>
  "greedy_star P k s = (case greedy_plus P k [] s of Some r \<Rightarrow> Some r | None \<Rightarrow> k [] s)"

fun lazy_plus :: "(char \<Rightarrow> bool) \<Rightarrow> (string \<Rightarrow> string \<Rightarrow> 'a option) \<Rightarrow> string \<Rightarrow> string \<Rightarrow> 'a option" where
  \<comment> \<open>\<open>P+?\<close>\<close>
  "lazy_plus P k acc [] = None"
| "lazy_plus P k acc (c # cs) =
     (if P c
      then (case k (acc @ [c]) cs of
              Some r \<Rightarrow> Some r
            | None \<Rightarrow> lazy_plus P k (acc @ [c]) cs)
      else None)"

definition orelse :: "'a option \<Rightarrow> 'a option \<Rightarrow> 'a option" where
  \<comment> \<open>alternation: the left branch first\<close>
  "orelse a b = (case a of Some r \<Rightarrow> Some r | None \<Rightarrow> b)"

fun lit :: "(char \<Rightarrow> bool) \<Rightarrow> (string \<Rightarrow> 'a option) \<Rightarrow> string \<Rightarrow> 'a option" where
  \<comment> \<open>one character of the given class\<close>
  "lit P k [] = None"
| "lit P k (c # cs) = (if P c then k cs else None)"

fun search :: "(string \<Rightarrow> 'a option) \<Rightarrow> string \<Rightarrow> 'a option" where
  \<comment> \<open>\<open>String.prototype.match\<close> without the g flag: the leftmost start position that matches\<close>
  "search f [] = f []"
| "search f (c # cs) = (case f (c # cs) of Some r \<Rightarrow> Some r | None \<Rightarrow> search f cs)"

definition ci :: "char \<Rightarrow> char \<Rightarrow> bool" where
  \<comment> \<open>a lower-case ASCII letter of a pattern under the i flag\<close>
  "ci p c \<longleftrightarrow> c = p \<or> (of_char c :: nat) + 32 = of_char p"

fun ci_word :: "string \<Rightarrow> (string \<Rightarrow> 'a option) \<Rightarrow> string \<Rightarrow> 'a option" where
  \<comment> \<open>a literal word under the i flag\<close>
  "ci_word [] k s = k s"
| "ci_word (p # ps) k s = lit (ci p) (ci_word ps k) s"

fun word :: "string \<Rightarrow> (string \<Rightarrow> 'a option) \<Rightarrow> string \<Rightarrow> 'a option" where
  \<comment> \<open>a literal word, case-sensitive\<close>
  "word [] k s = k s"
| "word (p # ps) k s = lit (\<lambda>c. c = p) (word ps k) s"

section \<open>The extractor of index.js\<close>

definition idRegex :: "string \<Rightarrow> string option" where
  \<comment> \<open>\<open>href.match(/\/matches\/(\d+)\//)\<close>, group 1\<close>
  "idRegex h =
     search (word ''/matches/''
       (greedy_plus isDigit (\<lambda>g r. lit (\<lambda>c. c = CHR ''/'') (\<lambda>_. Some g) r) [])) h"

definition team_tail :: "string \<Rightarrow> string option" where
  \<comment> \<open>the common end \<open>\s+(.+?)(?:\s|$)\<close> of vsRegex and dashRegex, group 2\<close>
  "team_tail s =
     greedy_plus isWhiteSpace
       (\<lambda>_ r. lazy_plus isDot
          (\<lambda>g r'. orelse (lit isWhiteSpace (\<lambda>_. Some g) r') (if r' = [] then Some g else None))
          [] r)
       [] s"

definition vs_sep :: "string \<Rightarrow> string option" where
  \<comment> \<open>\<open>v(?:s|\.?)\<close> under the i flag, then the common end\<close>
  "vs_sep s =
     lit (ci CHR ''v'')
       (\<lambda>r. orelse (lit (ci CHR ''s'') team_tail r)
              (orelse (lit (\<lambda>c. c = CHR ''.'') team_tail r) (team_tail r))) s"

definition dash_sep :: "string \<Rightarrow> string option" where
  \<comment> \<open>the class of the hyphen and the en dash (only the hyphen is a code unit below 256), then the common end\<close>
  "dash_sep s = lit (\<lambda>c. c = CHR ''-'') team_tail s"

definition pair_at :: "(string \<Rightarrow> string option) \<Rightarrow> string \<Rightarrow> (string \<times> string) option" where
  \<comment> \<open>\<open>(.+?)\s+\<close> and a separator, at one start position; groups 1 and 2\<close>
  "pair_at sep s =
     lazy_plus isDot
       (\<lambda>g1 r. map_option (Pair g1) (greedy_plus isWhiteSpace (\<lambda>_ r'. sep r') [] r))
       [] s"

definition vsRegex :: "string \<Rightarrow> (string \<times> string) option" where
  \<comment> \<open>\<open>context.match(/(.+?)\s+v(?:s|\.?)\s+(.+?)(?:\s|$)/i)\<close>\<close>
  "vsRegex s = search (pair_at vs_sep) s"

definition dashRegex :: "string \<Rightarrow> (string \<times> string) option" where
  \<comment> \<open>line 52: \<open>(.+?)\s+D\s+(.+?)(?:\s|$)\<close>, where \<open>D\<close> is the class of the hyphen and the en dash\<close>
  "dashRegex s = search (pair_at dash_sep) s"

definition clean :: "string \<Rightarrow> string" where
  \<comment> \<open>line 46: \<open>context.replace(/\s+/g, ' ').trim()\<close>\<close>
  "clean s = trim (collapse_ws s)"

definition teams :: "string \<Rightarrow> string \<times> string" where
  \<comment> \<open>lines 49 to 62: team1 and team2 from the context\<close>
  "teams context =
     (case orelse (vsRegex context) (dashRegex context) of
        Some (g1, g2) \<Rightarrow> (trim g1, trim g2)
      | None \<Rightarrow>
          (let parts = join_sp (take 6 (split_sp context))
           in (trim (take 20 parts), [])))"

definition evtRegex :: "string \<Rightarrow> string option" where
  \<comment> \<open>\<open>/(?:Event|Tournament|Liga|League|Stage):?\s*([^\n\r]+)/i\<close>, group 1\<close>
  "evtRegex s =
     search (\<lambda>s0.
       let val = (\<lambda>r. greedy_star isWhiteSpace (\<lambda>_ r'. greedy_plus isDot (\<lambda>g _. Some g) [] r') r);
           colon = (\<lambda>r. orelse (lit (\<lambda>c. c = CHR '':'') val r) (val r))
       in orelse (ci_word ''event'' colon s0)
         (orelse (ci_word ''tournament'' colon s0)
         (orelse (ci_word ''liga'' colon s0)
         (orelse (ci_word ''league'' colon s0)
                 (ci_word ''stage'' colon s0))))) s"

record anchor =
  href :: "string option"  \<comment> \<open>\<open>$(el).attr('href')\<close>\<close>
  div_text :: string  \<comment> \<open>\<open>$(el).closest('div').text()\<close>, empty without an enclosing div\<close>
  own_text :: string  \<comment> \<open>\<open>$(el).text()\<close>\<close>
  parent_text :: string  \<comment> \<open>\<open>$(el).closest('div').parent().text()\<close>\<close>

text \<open>
  The parsed page is the list of its \<open>a\<close> elements in document order, each with the
  four readings the callback takes from the HTML library.
\<close>

type_synonym document = "anchor list"

record candidate =
  cid :: string
  team1 :: string
  team2 :: string
  event :: string
  link :: string
  raw :: string

definition anchor_id :: "anchor \<Rightarrow> string option" where
  \<comment> \<open>the selector \<open>a[href*="/matches/"]\<close> and lines 37 to 41\<close>
  "anchor_id el =
     (case href el of
        None \<Rightarrow> None
      | Some h \<Rightarrow> if str_includes h ''/matches/'' then idRegex h else None)"

definition href_text :: "anchor \<Rightarrow> string" where
  \<comment> \<open>the href of an element that has one\<close>
  "href_text el = (case href el of None \<Rightarrow> [] | Some h \<Rightarrow> h)"

definition build :: "anchor \<Rightarrow> string \<Rightarrow> candidate" where
  \<comment> \<open>lines 45 to 71 for an element whose id is \<open>i\<close>\<close>
  "build el i =
     (let context = clean (if div_text el \<noteq> [] then div_text el else own_text el);
          (t1, t2) = teams context;
          ev = (case evtRegex (parent_text el) of None \<Rightarrow> [] | Some g \<Rightarrow> trim g)
      in \<lparr>cid = i, team1 = t1, team2 = t2, event = ev,
          link = ''https://www.hltv.org'' @ href_text el, raw = context\<rparr>)"

definition visit :: "candidate list \<Rightarrow> anchor \<Rightarrow> candidate list" where
  \<comment> \<open>one call of the \<open>each\<close> callback, lines 36 to 72\<close>
  "visit found el =
     (case anchor_id el of
        None \<Rightarrow> found
      | Some i \<Rightarrow> if list_ex (\<lambda>m. cid m = i) found then found else found @ [build el i])"

definition extractMatchesFromHtml :: "document \<Rightarrow> candidate list" where
  "extractMatchesFromHtml html = foldl visit [] html"

section \<open>The stored state\<close>

text \<open>
  Both files keep one module variable \<open>db\<close> with the subscriptions and, per normalized
  team name, the list of match ids already handled, and write the whole of it to
  \<open>esports_subscriptions.json\<close> with \<open>saveDB\<close>. The two files differ in the shape of the
  subscriptions, which is the type parameter. Writing the file is taken to succeed, and
  reading back what \<open>JSON.stringify\<close> wrote gives the value written.
\<close>

record 's db =
  subscriptions :: 's
  seenMatches :: "string \<rightharpoonup> string list"

datatype 's jsonfile = Absent | Corrupt | Stored "'s db"

record 's world =
  mem :: "'s db"  \<comment> \<open>the variable \<open>db\<close>\<close>
  disk :: "'s jsonfile"  \<comment> \<open>the JSON file\<close>
  sent :: nat  \<comment> \<open>how many deliveries have been attempted; indexes the outcomes\<close>

datatype logline =
    Notified string string
  | Sending string
  | SendFailed string
  | FetchFailed
  | NoSubscriptions
  | PollingFor "string list"
  | PollingTeam string
  | CycleFailed

datatype 'm event =
    Commit string string  \<comment> \<open>the id is pushed on the team's list and \<open>saveDB\<close> runs\<close>
  | Post string string 'm  \<comment> \<open>a delivery attempt: webhook, team of the subscription, match\<close>
  | Log logline

datatype reply = Status400 | Status200 | Status500

datatype error = TypeError

text \<open>
  What a piece of the program does: the events in order, the state it leaves, and the
  exception that leaves it, if any. The changes made before an exception stay.
\<close>

record ('m, 's) result =
  trace :: "'m event list"
  after :: "'s world"
  thrown :: "error option"

text \<open>
  \<open>db.seenMatches\<close> and, in \<open>index.js\<close>, \<open>db.subscriptions\<close> are plain objects. Reading
  a key gives the stored value, or else, for one of the names below, the value every
  object inherits (a function or an object: truthy, without \<open>includes\<close> or \<open>filter\<close>, not
  iterable), or else \<open>undefined\<close>.
\<close>

definition inherited :: "string \<Rightarrow> bool" where
  \<comment> \<open>the property names of \<open>Object.prototype\<close>\<close>
  "inherited k \<longleftrightarrow>
     k \<in> set [''constructor'', ''__defineGetter__'', ''__defineSetter__'', ''hasOwnProperty'',
       ''__lookupGetter__'', ''__lookupSetter__'', ''isPrototypeOf'', ''propertyIsEnumerable'',
       ''toString'', ''valueOf'', ''__proto__'', ''toLocaleString'']"

datatype 'a looked = Undefined | Inherited | Own 'a

definition lookup :: "(string \<rightharpoonup> 'a) \<Rightarrow> string \<Rightarrow> 'a looked" where
  \<comment> \<open>\<open>obj[key]\<close>\<close>
  "lookup obj k =
     (case obj k of
        Some v \<Rightarrow> Own v
      | None \<Rightarrow> if inherited k then Inherited else Undefined)"

definition load_db :: "'s \<Rightarrow> 's jsonfile \<Rightarrow> 's db" where
  \<comment> \<open>start-up: the file's content, or the initial value when it is absent or unreadable\<close>
  "load_db e f =
     (case f of Stored d \<Rightarrow> d | _ \<Rightarrow> \<lparr>subscriptions = e, seenMatches = Map.empty\<rparr>)"

definition saveDB :: "'s world \<Rightarrow> 's world" where
  "saveDB w = w\<lparr>disk := Stored (mem w)\<rparr>"

definition seen_of :: "'s db \<Rightarrow> string \<Rightarrow> string list" where
  \<comment> \<open>the ids stored for a key; none for a key not stored\<close>
  "seen_of d k = (case seenMatches d k of None \<Rightarrow> [] | Some ids \<Rightarrow> ids)"

definition ensure_seen :: "string \<Rightarrow> 's db \<Rightarrow> 's db" where
  \<comment> \<open>\<open>if (!db.seenMatches[teamKey]) db.seenMatches[teamKey] = []\<close>: a stored list and an
      inherited value are truthy\<close>
  "ensure_seen k d =
     (case lookup (seenMatches d) k of
        Undefined \<Rightarrow> d\<lparr>seenMatches := (seenMatches d)(k \<mapsto> [])\<rparr>
      | _ \<Rightarrow> d)"

definition isNew :: "'s db \<Rightarrow> string \<Rightarrow> string \<Rightarrow> bool" where
  \<comment> \<open>\<open>!db.seenMatches[teamKey].includes(id)\<close>, for a key that has its list\<close>
  "isNew d k i \<longleftrightarrow> i \<notin> set (seen_of d k)"

definition commit :: "string \<Rightarrow> string \<Rightarrow> 's world \<Rightarrow> 's world" where
  \<comment> \<open>\<open>db.seenMatches[teamKey].push(id); saveDB()\<close>\<close>
  "commit k i w =
     saveDB (w\<lparr>mem := (mem w)\<lparr>seenMatches := (seenMatches (mem w))(k \<mapsto> seen_of (mem w) k @ [i])\<rparr>\<rparr>)"

definition restart :: "'s \<Rightarrow> 's world \<Rightarrow> 's world" where
  \<comment> \<open>the process stops and starts again: \<open>db\<close> is read from the file\<close>
  "restart e w = w\<lparr>mem := load_db e (disk w)\<rparr>"

definition normalizeTeamName :: "string \<Rightarrow> string" where
  \<comment> \<open>on a string, \<open>String(name || '')\<close> is the string itself; the same function in both files\<close>
  "normalizeTeamName name = toLowerCase (trim name)"

section \<open>index.js: polling and the subscription endpoints\<close>

type_synonym idb = "(string \<times> string list) list db"
type_synonym iworld = "(string \<times> string list) list world"
type_synonym iresult = "(candidate, (string \<times> string list) list) result"

datatype fetched = FetchError | Html document

definition matches_team :: "string \<Rightarrow> candidate \<Rightarrow> bool" where
  \<comment> \<open>the filter predicate of lines 82 to 85; an empty field is falsy\<close>
  "matches_team t m \<longleftrightarrow>
     (team1 m \<noteq> [] \<and> str_includes (normalizeTeamName (team1 m)) t) \<or>
     (team2 m \<noteq> [] \<and> str_includes (normalizeTeamName (team2 m)) t)"

definition getMatchesForTeam :: "fetched \<Rightarrow> string \<Rightarrow> candidate list \<times> candidate event list" where
  \<comment> \<open>the request of \<open>fetchHLTVMatchesHtml\<close> rejects on a network failure or a status that is not 2xx\<close>
  "getMatchesForTeam up teamName =
     (case up of
        FetchError \<Rightarrow> ([], [Log FetchFailed])
      | Html html \<Rightarrow>
          (filter (matches_team (normalizeTeamName teamName)) (extractMatchesFromHtml html), []))"

definition subs_for :: "idb \<Rightarrow> string \<Rightarrow> string list" where
  \<comment> \<open>the webhooks stored for a team; none for a team not stored\<close>
  "subs_for d team = (case map_of (subscriptions d) team of None \<Rightarrow> [] | Some ws \<Rightarrow> ws)"

definition subs_iter :: "idb \<Rightarrow> string \<Rightarrow> string list option" where
  \<comment> \<open>\<open>db.subscriptions[team] || []\<close> as the subject of \<open>for ... of\<close>: an inherited value
      is truthy and not iterable\<close>
  "subs_iter d team =
     (case lookup (map_of (subscriptions d)) team of
        Own ws \<Rightarrow> Some ws
      | Undefined \<Rightarrow> Some []
      | Inherited \<Rightarrow> None)"

fun post_all :: "(nat \<Rightarrow> bool) \<Rightarrow> string \<Rightarrow> 'm \<Rightarrow> string list \<Rightarrow> nat \<Rightarrow> 'm event list \<times> nat" where
  \<comment> \<open>lines 101 to 113; \<open>net n\<close> tells whether attempt number \<open>n\<close> succeeds\<close>
  "post_all net team m [] n = ([], n)"
| "post_all net team m (webhook # subs) n =
     (let (evs, n') = post_all net team m subs (Suc n)
      in (Post webhook team m #
          Log (if net n then Notified webhook team else SendFailed webhook) # evs, n'))"

fun notify_loop :: "(nat \<Rightarrow> bool) \<Rightarrow> string \<Rightarrow> string \<Rightarrow> candidate list \<Rightarrow> iworld \<Rightarrow> iresult" where
  \<comment> \<open>lines 96 to 115; \<open>includes\<close> at line 97 and \<open>for ... of\<close> at line 101 raise a
      TypeError on a value that is not an array\<close>
  "notify_loop net team teamKey [] w = \<lparr>trace = [], after = w, thrown = None\<rparr>"
| "notify_loop net team teamKey (m # ms) w =
     (case lookup (seenMatches (mem w)) teamKey of
        Own ids \<Rightarrow>
          (if isNew (mem w) teamKey (cid m)
           then
             (let w1 = commit teamKey (cid m) w
              in case subs_iter (mem w1) team of
                   None \<Rightarrow>
                     \<lparr>trace = [Commit teamKey (cid m)], after = w1, thrown = Some TypeError\<rparr>
                 | Some subs \<Rightarrow>
                     (let (evs, n) = post_all net team m subs (sent w1);
                          r = notify_loop net team teamKey ms (w1\<lparr>sent := n\<rparr>)
                      in \<lparr>trace = Commit teamKey (cid m) # evs @ trace r, after = after r,
                          thrown = thrown r\<rparr>))
           else notify_loop net team teamKey ms w)
      | _ \<Rightarrow> \<lparr>trace = [], after = w, thrown = Some TypeError\<rparr>)"

definition notifyNewMatchesForTeam :: "(nat \<Rightarrow> bool) \<Rightarrow> fetched \<Rightarrow> string \<Rightarrow> iworld \<Rightarrow> iresult" where
  \<comment> \<open>lines 92 to 116; \<open>up\<close> is what the request made in this call returns\<close>
  "notifyNewMatchesForTeam net up team w =
     (let teamKey = normalizeTeamName team;
          w0 = w\<lparr>mem := ensure_seen teamKey (mem w)\<rparr>;
          (matches, evs0) = getMatchesForTeam up team;
          r = notify_loop net team teamKey matches w0
      in \<lparr>trace = evs0 @ trace r, after = after r, thrown = thrown r\<rparr>)"

definition index_value :: "string \<Rightarrow> nat" where
  "index_value s = foldl (\<lambda>a c. 10 * a + (of_char c - 48)) 0 s"

definition isArrayIndex :: "string \<Rightarrow> bool" where
  \<comment> \<open>a key that is the decimal text of an integer below \<open>2^32 - 1\<close>\<close>
  "isArrayIndex s \<longleftrightarrow>
     s \<noteq> [] \<and> list_all isDigit s \<and> (s = ''0'' \<or> hd s \<noteq> CHR ''0'') \<and>
     index_value s < 4294967295"

definition object_keys :: "(string \<times> 'v) list \<Rightarrow> string list" where
  \<comment> \<open>\<open>Object.keys\<close>: integer keys ascending, then the other keys as inserted\<close>
  "object_keys al =
     (let ks = map fst al
      in sort_key index_value (filter isArrayIndex ks) @ filter (\<lambda>k. \<not> isArrayIndex k) ks)"

fun cron_each :: "(nat \<Rightarrow> bool) \<Rightarrow> (string \<Rightarrow> fetched) \<Rightarrow> string list \<Rightarrow> iworld \<Rightarrow> iresult" where
  \<comment> \<open>lines 126 to 129: an exception of a team's cycle is caught and logged; \<open>up t\<close> is
      what the request made for \<open>t\<close> returns\<close>
  "cron_each net up [] w = \<lparr>trace = [], after = w, thrown = None\<rparr>"
| "cron_each net up (t # ts) w =
     (let r = notifyNewMatchesForTeam net (up t) t w;
          r' = cron_each net up ts (after r)
      in \<lparr>trace = trace r @ (case thrown r of None \<Rightarrow> [] | Some e \<Rightarrow> [Log CycleFailed]) @ trace r',
          after = after r', thrown = None\<rparr>)"

fun poll_each :: "(nat \<Rightarrow> bool) \<Rightarrow> (string \<Rightarrow> fetched) \<Rightarrow> string list \<Rightarrow> iworld \<Rightarrow> iresult" where
  \<comment> \<open>line 157: an exception of a team's cycle ends the loop and leaves the handler\<close>
  "poll_each net up [] w = \<lparr>trace = [], after = w, thrown = None\<rparr>"
| "poll_each net up (t # ts) w =
     (let r = notifyNewMatchesForTeam net (up t) t w
      in case thrown r of
           Some e \<Rightarrow> r
         | None \<Rightarrow>
             (let r' = poll_each net up ts (after r)
              in \<lparr>trace = trace r @ trace r', after = after r', thrown = thrown r'\<rparr>))"

definition cron_tick :: "(nat \<Rightarrow> bool) \<Rightarrow> (string \<Rightarrow> fetched) \<Rightarrow> iworld \<Rightarrow> iresult" where
  \<comment> \<open>lines 119 to 130\<close>
  "cron_tick net up w =
     (let teams = object_keys (subscriptions (mem w))
      in if teams = [] then \<lparr>trace = [Log NoSubscriptions], after = w, thrown = None\<rparr>
         else (let r = cron_each net up teams w
               in \<lparr>trace = Log (PollingFor teams) # trace r, after = after r, thrown = None\<rparr>))"

definition poll_now :: "(nat \<Rightarrow> bool) \<Rightarrow> (string \<Rightarrow> fetched) \<Rightarrow> iworld \<Rightarrow> iresult" where
  \<comment> \<open>lines 155 to 159\<close>
  "poll_now net up w = poll_each net up (object_keys (subscriptions (mem w))) w"

definition subscribe :: "string \<Rightarrow> string \<Rightarrow> iworld \<Rightarrow> reply \<times> iworld" where
  \<comment> \<open>lines 136 to 143; for an inherited team name line 139 assigns nothing and \<open>includes\<close>
      at line 140 raises a TypeError, which the server answers with status 500\<close>
  "subscribe team webhook w =
     (if team = [] \<or> webhook = [] then (Status400, w)
      else
        (let subs = subscriptions (mem w)
         in case lookup (map_of subs) team of
              Inherited \<Rightarrow> (Status500, w)
            | Undefined \<Rightarrow>
                (Status200,
                 saveDB (w\<lparr>mem := (mem w)\<lparr>subscriptions :=
                   AList.update team [webhook] (AList.update team [] subs)\<rparr>\<rparr>))
            | Own ws \<Rightarrow>
                (Status200,
                 saveDB (w\<lparr>mem := (mem w)\<lparr>subscriptions :=
                   (if webhook \<notin> set ws then AList.update team (ws @ [webhook]) subs
                    else subs)\<rparr>\<rparr>))))"

definition unsubscribe :: "string \<Rightarrow> string \<Rightarrow> iworld \<Rightarrow> reply \<times> iworld" where
  \<comment> \<open>lines 145 to 151; for an inherited team name \<open>filter\<close> raises a TypeError\<close>
  "unsubscribe team webhook w =
     (if team = [] \<or> webhook = [] then (Status400, w)
      else
        (let subs = subscriptions (mem w)
         in case lookup (map_of subs) team of
              Inherited \<Rightarrow> (Status500, w)
            | Undefined \<Rightarrow>
                (Status200,
                 saveDB (w\<lparr>mem := (mem w)\<lparr>subscriptions := AList.update team [] subs\<rparr>\<rparr>))
            | Own ws \<Rightarrow>
                (Status200,
                 saveDB (w\<lparr>mem := (mem w)\<lparr>subscriptions :=
                   AList.update team (filter (\<lambda>x. x \<noteq> webhook) ws) subs\<rparr>\<rparr>))))"

datatype request =
    Subscribe string string
  | Unsubscribe string string
  | CronTick "string \<Rightarrow> fetched"
  | PollNow "string \<Rightarrow> fetched"
  | Restart

fun exec :: "(nat \<Rightarrow> bool) \<Rightarrow> request \<Rightarrow> iworld \<Rightarrow> iresult" where
  "exec net (Subscribe team webhook) w =
     \<lparr>trace = [], after = snd (subscribe team webhook w), thrown = None\<rparr>"
| "exec net (Unsubscribe team webhook) w =
     \<lparr>trace = [], after = snd (unsubscribe team webhook w), thrown = None\<rparr>"
| "exec net (CronTick up) w = cron_tick net up w"
| "exec net (PollNow up) w = poll_now net up w"
| "exec net Restart w = \<lparr>trace = [], after = restart [] w, thrown = None\<rparr>"

text \<open>
  A run takes the requests and timer ticks one after the other. An exception that leaves
  the poll-now handler is not handled by the program; the run goes on with the next
  request in the state the handler left. Where the runtime ends the process on such an
  exception, the next request of the run is a restart.
\<close>

fun run :: "(nat \<Rightarrow> bool) \<Rightarrow> request list \<Rightarrow> iworld \<Rightarrow> iresult" where
  "run net [] w = \<lparr>trace = [], after = w, thrown = None\<rparr>"
| "run net (r # rs) w =
     (let a = exec net r w;
          b = run net rs (after a)
      in \<lparr>trace = trace a @ trace b, after = after b, thrown = None\<rparr>)"

section \<open>discord_esports_bot_api.js: polling and the subscription endpoints\<close>

text \<open>
  This file keeps the subscriptions as one array of records and reads the matches from the
  HLTV client as records. Of a match record the program reads the id, only through the
  text that a template literal gives for it, the names of the two teams, the name of the
  event and the date; each team and the event may be missing from a record.

  \<open>sendDiscordWebhook\<close> is started for each subscription in turn and not awaited. The
  attempt is made when it is started; a failure is caught inside it and logged when the
  outcome arrives, after the program has gone on. A result therefore keeps those lines
  apart, as the lines still to come.
\<close>

record subscription =
  s_team :: string
  s_webhook :: string
  createdAt :: string

type_synonym adb = "subscription list db"
type_synonym aworld = "subscription list world"

record api_match =
  m_id :: string  \<comment> \<open>the text of \<open>m.id\<close>, as the template literals of lines 94 and 103 give it\<close>
  m_team1 :: "string option"  \<comment> \<open>\<open>m.team1.name\<close>, when \<open>m.team1\<close> is there\<close>
  m_team2 :: "string option"
  m_event :: "string option"  \<comment> \<open>\<open>m.event.name\<close>, when \<open>m.event\<close> is there\<close>
  m_date :: nat

record ('m, 's) late_result = "('m, 's) result" +
  late :: "logline list"  \<comment> \<open>the lines that the sends started here log afterwards\<close>

type_synonym aresult = "(api_match, subscription list) late_result"

datatype api_fetched = ApiError | Matches "api_match list"

definition findSubscriptionsForTeam :: "adb \<Rightarrow> string \<Rightarrow> subscription list" where
  "findSubscriptionsForTeam d team =
     filter (\<lambda>s. normalizeTeamName (s_team s) = normalizeTeamName team) (subscriptions d)"

definition api_matches_team :: "string \<Rightarrow> api_match \<Rightarrow> bool" where
  \<comment> \<open>the filter predicate of lines 73 to 79\<close>
  "api_matches_team teamName m =
     (case m_team1 m of
        None \<Rightarrow> False
      | Some n1 \<Rightarrow>
          (case m_team2 m of
             None \<Rightarrow> False
           | Some n2 \<Rightarrow>
               str_includes (normalizeTeamName n1) (normalizeTeamName teamName) \<or>
               str_includes (normalizeTeamName n2) (normalizeTeamName teamName)))"

definition fetchUpcomingMatches :: "api_fetched \<Rightarrow> string \<Rightarrow> api_match list \<times> api_match event list" where
  "fetchUpcomingMatches up teamName =
     (case up of
        ApiError \<Rightarrow> ([], [Log FetchFailed])
      | Matches ms \<Rightarrow> (filter (api_matches_team teamName) ms, []))"

fun send_all :: "(nat \<Rightarrow> bool) \<Rightarrow> api_match \<Rightarrow> subscription list \<Rightarrow> aworld \<Rightarrow> aresult" where
  \<comment> \<open>lines 100 to 106 with \<open>sendDiscordWebhook\<close>, lines 55 to 67; line 102 reads
      \<open>m.event.name\<close> and raises a TypeError for a match without event\<close>
  "send_all net m [] w = \<lparr>trace = [], after = w, thrown = None, late = []\<rparr>"
| "send_all net m (s # subs) w =
     (case m_event m of
        None \<Rightarrow> \<lparr>trace = [], after = w, thrown = Some TypeError, late = []\<rparr>
      | Some ev \<Rightarrow>
          (let r = send_all net m subs (w\<lparr>sent := Suc (sent w)\<rparr>)
           in \<lparr>trace = Log (Sending (s_webhook s)) # Post (s_webhook s) (s_team s) m # trace r,
               after = after r, thrown = thrown r,
               late = (if net (sent w) then [] else [SendFailed (s_webhook s)]) @ late r\<rparr>))"

fun pollTeam_loop :: "(nat \<Rightarrow> bool) \<Rightarrow> string \<Rightarrow> string \<Rightarrow> api_match list \<Rightarrow> aworld \<Rightarrow> aresult" where
  \<comment> \<open>lines 93 to 108\<close>
  "pollTeam_loop net team teamKey [] w = \<lparr>trace = [], after = w, thrown = None, late = []\<rparr>"
| "pollTeam_loop net team teamKey (m # ms) w =
     (case lookup (seenMatches (mem w)) teamKey of
        Own ids \<Rightarrow>
          (if isNew (mem w) teamKey (m_id m)
           then
             (let w1 = commit teamKey (m_id m) w;
                  r = send_all net m (findSubscriptionsForTeam (mem w1) team) w1
              in case thrown r of
                   Some e \<Rightarrow>
                     \<lparr>trace = Commit teamKey (m_id m) # trace r, after = after r,
                      thrown = Some e, late = late r\<rparr>
                 | None \<Rightarrow>
                     (let r' = pollTeam_loop net team teamKey ms (after r)
                      in \<lparr>trace = Commit teamKey (m_id m) # trace r @ trace r', after = after r',
                          thrown = thrown r', late = late r @ late r'\<rparr>))
           else pollTeam_loop net team teamKey ms w)
      | _ \<Rightarrow> \<lparr>trace = [], after = w, thrown = Some TypeError, late = []\<rparr>)"

definition pollTeam :: "(nat \<Rightarrow> bool) \<Rightarrow> api_fetched \<Rightarrow> string \<Rightarrow> aworld \<Rightarrow> aresult" where
  \<comment> \<open>lines 87 to 109\<close>
  "pollTeam net up team w =
     (let teamKey = normalizeTeamName team;
          (matches, evs0) = fetchUpcomingMatches up team;
          w0 = w\<lparr>mem := ensure_seen teamKey (mem w)\<rparr>;
          r = pollTeam_loop net team teamKey matches w0
      in \<lparr>trace = Log (PollingTeam team) # evs0 @ trace r, after = after r,
          thrown = thrown r, late = late r\<rparr>)"

definition uniq :: "'a list \<Rightarrow> 'a list" where
  \<comment> \<open>\<open>Array.from(new Set(xs))\<close>: the first occurrence of each element, in order\<close>
  "uniq xs = foldl (\<lambda>acc x. if x \<in> set acc then acc else acc @ [x]) [] xs"

fun job_each :: "(nat \<Rightarrow> bool) \<Rightarrow> (string \<Rightarrow> api_fetched) \<Rightarrow> string list \<Rightarrow> aworld \<Rightarrow> aresult" where
  \<comment> \<open>lines 116 to 118: an exception of a team's cycle is caught and logged\<close>
  "job_each net up [] w = \<lparr>trace = [], after = w, thrown = None, late = []\<rparr>"
| "job_each net up (t # ts) w =
     (let r = pollTeam net (up t) t w;
          r' = job_each net up ts (after r)
      in \<lparr>trace = trace r @ (case thrown r of None \<Rightarrow> [] | Some e \<Rightarrow> [Log CycleFailed]) @ trace r',
          after = after r', thrown = None, late = late r @ late r'\<rparr>)"

fun api_poll_each :: "(nat \<Rightarrow> bool) \<Rightarrow> (string \<Rightarrow> api_fetched) \<Rightarrow> string list \<Rightarrow> aworld \<Rightarrow> aresult" where
  \<comment> \<open>line 147: an exception of a team's cycle ends the loop and leaves the handler\<close>
  "api_poll_each net up [] w = \<lparr>trace = [], after = w, thrown = None, late = []\<rparr>"
| "api_poll_each net up (t # ts) w =
     (let r = pollTeam net (up t) t w
      in case thrown r of
           Some e \<Rightarrow> r
         | None \<Rightarrow>
             (let r' = api_poll_each net up ts (after r)
              in \<lparr>trace = trace r @ trace r', after = after r', thrown = thrown r',
                  late = late r @ late r'\<rparr>))"

definition api_job :: "(nat \<Rightarrow> bool) \<Rightarrow> (string \<Rightarrow> api_fetched) \<Rightarrow> aworld \<Rightarrow> aresult" where
  \<comment> \<open>the scheduled job, lines 114 to 119\<close>
  "api_job net up w = job_each net up (uniq (map s_team (subscriptions (mem w)))) w"

definition api_poll_now :: "(nat \<Rightarrow> bool) \<Rightarrow> (string \<Rightarrow> api_fetched) \<Rightarrow> aworld \<Rightarrow> aresult" where
  \<comment> \<open>lines 145 to 149\<close>
  "api_poll_now net up w = api_poll_each net up (uniq (map s_team (subscriptions (mem w)))) w"

definition api_subscribe :: "string \<Rightarrow> string \<Rightarrow> string \<Rightarrow> aworld \<Rightarrow> reply \<times> aworld" where
  \<comment> \<open>lines 123 to 130; \<open>now\<close> is the time stamp taken at line 127\<close>
  "api_subscribe team webhook now w =
     (if team = [] \<or> webhook = [] then (Status400, w)
      else
        (let s = \<lparr>s_team = trim team, s_webhook = trim webhook, createdAt = now\<rparr>
         in (Status200,
             saveDB (w\<lparr>mem := (mem w)\<lparr>subscriptions := subscriptions (mem w) @ [s]\<rparr>\<rparr>))))"

definition api_unsubscribe :: "string \<Rightarrow> string \<Rightarrow> aworld \<Rightarrow> reply \<times> aworld" where
  \<comment> \<open>lines 132 to 139\<close>
  "api_unsubscribe team webhook w =
     (if team = [] \<or> webhook = [] then (Status400, w)
      else
        (let subs = filter (\<lambda>s. \<not> (normalizeTeamName (s_team s) = normalizeTeamName team \<and>
                                    s_webhook s = webhook)) (subscriptions (mem w))
         in (Status200, saveDB (w\<lparr>mem := (mem w)\<lparr>subscriptions := subs\<rparr>\<rparr>))))"

datatype api_request =
    ASubscribe string string string
  | AUnsubscribe string string
  | AJob "string \<Rightarrow> api_fetched"
  | APollNow "string \<Rightarrow> api_fetched"
  | ARestart

fun api_exec :: "(nat \<Rightarrow> bool) \<Rightarrow> api_request \<Rightarrow> aworld \<Rightarrow> aresult" where
  "api_exec net (ASubscribe team webhook now) w =
     \<lparr>trace = [], after = snd (api_subscribe team webhook now w), thrown = None, late = []\<rparr>"
| "api_exec net (AUnsubscribe team webhook) w =
     \<lparr>trace = [], after = snd (api_unsubscribe team webhook w), thrown = None, late = []\<rparr>"
| "api_exec net (AJob up) w = api_job net up w"
| "api_exec net (APollNow up) w = api_poll_now net up w"
| "api_exec net ARestart w = \<lparr>trace = [], after = restart [] w, thrown = None, late = []\<rparr>"

fun api_run :: "(nat \<Rightarrow> bool) \<Rightarrow> api_request list \<Rightarrow> aworld \<Rightarrow> aresult" where
  "api_run net [] w = \<lparr>trace = [], after = w, thrown = None, late = []\<rparr>"
| "api_run net (r # rs) w =
     (let a = api_exec net r w;
          b = api_run net rs (after a)
      in \<lparr>trace = trace a @ trace b, after = after b, thrown = None, late = late a @ late b\<rparr>)"

section \<open>Notions used in the statements\<close>

definition spec_normalize :: "string \<Rightarrow> string" where
  \<comment> \<open>the specification's canonical key: trim the surrounding blanks, then lowercase\<close>
  "spec_normalize name = toLowerCase (trim name)"

definition spec_matches :: "string \<Rightarrow> candidate \<Rightarrow> bool" where
  \<comment> \<open>the specification's matcher: the watched team's key occurs in the key of either field\<close>
  "spec_matches watched m \<longleftrightarrow>
     sublist (spec_normalize watched) (spec_normalize (team1 m)) \<or>
     sublist (spec_normalize watched) (spec_normalize (team2 m))"

fun posts :: "'m event list \<Rightarrow> (string \<times> string \<times> 'm) list" where
  \<comment> \<open>the delivery attempts of a trace, in order\<close>
  "posts [] = []"
| "posts (Post webhook team m # es) = (webhook, team, m) # posts es"
| "posts (Commit k i # es) = posts es"
| "posts (Log l # es) = posts es"

fun effects :: "'m event list \<Rightarrow> 'm event list" where
  \<comment> \<open>a trace without its log lines\<close>
  "effects [] = []"
| "effects (Log l # es) = effects es"
| "effects (e # es) = e # effects es"

fun commits_first :: "('m \<Rightarrow> string) \<Rightarrow> (string \<times> string) list \<Rightarrow> 'm event list \<Rightarrow> bool" where
  \<comment> \<open>every delivery attempt comes after the commit of its match id under its team's key;
      \<open>idf\<close> reads the id of a match, \<open>done\<close> are the commits so far\<close>
  "commits_first idf done [] = True"
| "commits_first idf done (Commit k i # es) = commits_first idf ((k, i) # done) es"
| "commits_first idf done (Post webhook team m # es) =
     ((normalizeTeamName team, idf m) \<in> set done \<and> commits_first idf done es)"
| "commits_first idf done (Log l # es) = commits_first idf done es"

definition disk_seen :: "'s jsonfile \<Rightarrow> string \<Rightarrow> string list" where
  \<comment> \<open>the ids a start-up would read for a key\<close>
  "disk_seen f k = (case f of Stored d \<Rightarrow> seen_of d k | _ \<Rightarrow> [])"

fun store_after :: "'s world \<Rightarrow> 'm event list \<Rightarrow> 's world" where
  \<comment> \<open>the variable and the file after the events of a trace: its commits, applied in order\<close>
  "store_after w [] = w"
| "store_after w (Commit k i # es) = store_after (commit k i w) es"
| "store_after w (Post webhook team m # es) = store_after w es"
| "store_after w (Log l # es) = store_after w es"

fun committed_at_posts :: "('m \<Rightarrow> string) \<Rightarrow> 's world \<Rightarrow> 'm event list \<Rightarrow> bool" where
  \<comment> \<open>at every delivery attempt of the trace, the list of the team's key holds the id of
      the match, in the variable and in the file; \<open>w\<close> is the state before the trace\<close>
  "committed_at_posts idf w [] = True"
| "committed_at_posts idf w (Commit k i # es) = committed_at_posts idf (commit k i w) es"
| "committed_at_posts idf w (Post webhook team m # es) =
     (idf m \<in> set (seen_of (mem w) (normalizeTeamName team)) \<and>
      idf m \<in> set (disk_seen (disk w) (normalizeTeamName team)) \<and>
      committed_at_posts idf w es)"
| "committed_at_posts idf w (Log l # es) = committed_at_posts idf w es"

definition consistent :: "'s world \<Rightarrow> bool" where
  \<comment> \<open>the file holds the ids that the variable holds\<close>
  "consistent w \<longleftrightarrow> (\<forall>k. seen_of (mem w) k = disk_seen (disk w) k)"

definition same_store :: "'s db \<Rightarrow> 's db \<Rightarrow> bool" where
  \<comment> \<open>equal subscriptions and, for every key, equal ids: a key stored with no id counts as
      a key not stored, except under an inherited name, where reading the two differs\<close>
  "same_store d d' \<longleftrightarrow>
     subscriptions d = subscriptions d' \<and> (\<forall>k. seen_of d k = seen_of d' k) \<and>
     (\<forall>k. inherited k \<longrightarrow> seenMatches d k = seenMatches d' k)"

definition same_world :: "'s world \<Rightarrow> 's world \<Rightarrow> bool" where
  "same_world w w' \<longleftrightarrow>
     same_store (mem w) (mem w') \<and> sent w = sent w' \<and>
     (case disk w of
        Stored d \<Rightarrow> (case disk w' of Stored d' \<Rightarrow> same_store d d' | _ \<Rightarrow> False)
      | Absent \<Rightarrow> disk w' = Absent
      | Corrupt \<Rightarrow> disk w' = Corrupt)"

definition deliveries :: "candidate event list \<Rightarrow> (string \<times> string \<times> string) list" where
  \<comment> \<open>the delivery attempts of a trace as recipient, team and match id\<close>
  "deliveries es = map (\<lambda>(webhook, team, m). (webhook, team, cid m)) (posts es)"

definition well_kept :: "iworld \<Rightarrow> bool" where
  \<comment> \<open>a state of index.js as its own requests leave it: the file holds the ids and the
      subscriptions of the variable, and no team's list names a webhook twice\<close>
  "well_kept w \<longleftrightarrow>
     consistent w \<and> subscriptions (load_db [] (disk w)) = subscriptions (mem w) \<and>
     (\<forall>t. distinct (subs_for (mem w) t))"

definition other_lines :: "'m event list \<Rightarrow> 'm event list" where
  \<comment> \<open>a trace without the lines logged for failed requests to the match source\<close>
  "other_lines es = filter (\<lambda>e. e \<noteq> Log FetchFailed) es"

definition fresh :: "'s \<Rightarrow> 's world" where
  \<comment> \<open>the process started without a file\<close>
  "fresh e = \<lparr>mem = load_db e Absent, disk = Absent, sent = 0\<rparr>"

definition delivered :: "nat \<Rightarrow> bool" where
  \<comment> \<open>every delivery succeeds\<close>
  "delivered n = True"

definition refused :: "nat \<Rightarrow> bool" where
  \<comment> \<open>every delivery fails\<close>
  "refused n = False"

definition first_fails :: "nat \<Rightarrow> bool" where
  \<comment> \<open>the first delivery fails, every later one succeeds\<close>
  "first_fails n \<longleftrightarrow> n \<noteq> 0"

definition furia_link :: anchor where
  "furia_link =
     \<lparr>href = Some ''/matches/12345/furia-vs-imperial'', div_text = ''FURIA vs Imperial'',
      own_text = ''FURIA vs Imperial'', parent_text = ''Event: Major''\<rparr>"

definition twice_page :: document where
  \<comment> \<open>the same id on two links with different texts\<close>
  "twice_page = [furia_link, furia_link\<lparr>div_text := ''NAVI vs Vitality''\<rparr>]"

definition furia_candidate :: candidate where
  "furia_candidate =
     \<lparr>cid = ''12345'', team1 = ''FURIA'', team2 = ''Imperial'', event = ''Major'',
      link = ''https://www.hltv.org/matches/12345/furia-vs-imperial'',
      raw = ''FURIA vs Imperial''\<rparr>"

definition furia_page :: "string \<Rightarrow> fetched" where
  \<comment> \<open>every request of a poll returns the page with the one link\<close>
  "furia_page t = Html [furia_link]"

definition navi_link :: anchor where
  "navi_link =
     \<lparr>href = Some ''/matches/67890/furia-vs-navi'', div_text = ''FURIA vs NAVI'',
      own_text = ''FURIA vs NAVI'', parent_text = ''Event: Major''\<rparr>"

definition navi_candidate :: candidate where
  "navi_candidate =
     \<lparr>cid = ''67890'', team1 = ''FURIA'', team2 = ''NAVI'', event = ''Major'',
      link = ''https://www.hltv.org/matches/67890/furia-vs-navi'',
      raw = ''FURIA vs NAVI''\<rparr>"

definition two_page :: "string \<Rightarrow> fetched" where
  \<comment> \<open>every request of a poll returns the page with the two links\<close>
  "two_page t = Html [furia_link, navi_link]"

definition unreachable :: "string \<Rightarrow> fetched" where
  \<comment> \<open>the request made for the team FURIA fails, the others return the page\<close>
  "unreachable t = (if t = ''FURIA'' then FetchError else Html [furia_link])"

definition furia_match :: api_match where
  "furia_match =
     \<lparr>m_id = ''12345'', m_team1 = Some ''FURIA'', m_team2 = Some ''Imperial'',
      m_event = Some ''Major'', m_date = 0\<rparr>"

definition navi_match :: api_match where
  "navi_match =
     \<lparr>m_id = ''67890'', m_team1 = Some ''FURIA'', m_team2 = Some ''NAVI'',
      m_event = Some ''Major'', m_date = 0\<rparr>"

definition two_list :: "string \<Rightarrow> api_fetched" where
  "two_list t = Matches [furia_match, navi_match]"

definition bare_list :: "string \<Rightarrow> api_fetched" where
  \<comment> \<open>the first match comes without its event\<close>
  "bare_list t = Matches [furia_match\<lparr>m_event := None\<rparr>, navi_match]"

definition furia_list :: "string \<Rightarrow> api_fetched" where
  "furia_list t = Matches [furia_match]"

definition furia_world :: iworld where
  \<comment> \<open>index.js after its first request, a subscription of R1 to FURIA\<close>
  "furia_world = snd (subscribe ''FURIA'' ''R1'' (fresh []))"

definition both_world :: iworld where
  \<comment> \<open>then R2 subscribes to the same team written in lower case\<close>
  "both_world = snd (subscribe ''furia'' ''R2'' furia_world)"

definition api_world :: aworld where
  \<comment> \<open>the other file after its first request, the same subscription\<close>
  "api_world = snd (api_subscribe ''FURIA'' ''R1'' ''2025-01-01T10:00:00.000Z'' (fresh []))"

definition api_world_twice :: aworld where
  \<comment> \<open>and after the same request once more\<close>
  "api_world_twice = snd (api_subscribe ''FURIA'' ''R1'' ''2025-01-01T10:05:00.000Z'' api_world)"

definition pair_world :: iworld where
  \<comment> \<open>index.js with R1 and R2 subscribed to FURIA\<close>
  "pair_world = snd (subscribe ''FURIA'' ''R2'' furia_world)"

definition api_pair_world :: aworld where
  \<comment> \<open>the other file with R1 and R2 subscribed to FURIA\<close>
  "api_pair_world = snd (api_subscribe ''FURIA'' ''R2'' ''2025-01-01T10:05:00.000Z'' api_world)"

definition shadow_world :: iworld where
  \<comment> \<open>index.js with R1 subscribed to a team whose key is an inherited name\<close>
  "shadow_world = snd (subscribe ''Constructor'' ''R1'' (fresh []))"

definition ready_world :: iworld where
  \<comment> \<open>\<open>pair_world\<close> once a cycle for FURIA has made the list of its key\<close>
  "ready_world = pair_world\<lparr>mem := ensure_seen ''furia'' (mem pair_world)\<rparr>"

definition api_ready_world :: aworld where
  "api_ready_world = api_pair_world\<lparr>mem := ensure_seen ''furia'' (mem api_pair_world)\<rparr>"

section \<open>Properties of the text primitives\<close>

lemma str_includes_sublist: "str_includes s t = sublist t s"
  by (induction s) (auto simp: sublist_Cons_right)








lemmas regex_defs =
  teams_def vsRegex_def dashRegex_def pair_at_def vs_sep_def dash_sep_def team_tail_def
  evtRegex_def idRegex_def greedy_star_def orelse_def isDot_def isLineTerminator_def
  isWhiteSpace_def isDigit_def ci_def trim_def clean_def

section \<open>The extractor\<close>

lemma anchor_id_furia: "anchor_id furia_link = Some ''12345''"
  by (simp add: anchor_id_def furia_link_def regex_defs)

lemma build_furia: "build furia_link ''12345'' = furia_candidate"
  by (simp add: build_def furia_link_def furia_candidate_def href_text_def regex_defs Let_def)

lemma extract_furia: "extractMatchesFromHtml [furia_link] = [furia_candidate]"
  by (simp add: extractMatchesFromHtml_def visit_def anchor_id_furia build_furia)

lemma find_snoc:
  "find P (xs @ [x]) =
     (case find P xs of Some y \<Rightarrow> Some y | None \<Rightarrow> if P x then Some x else None)"
  by (induction xs) auto

lemma extract_snoc:
  "extractMatchesFromHtml (html @ [el]) = visit (extractMatchesFromHtml html) el"
  by (simp add: extractMatchesFromHtml_def)

lemma cid_build: "cid (build el i) = i"
  by (simp add: build_def Let_def split: prod.splits)

lemma extract_ids:
  "cid ` set (extractMatchesFromHtml html) = {i. \<exists>el \<in> set html. anchor_id el = Some i}"
proof (induction html rule: rev_induct)
  case Nil
  then show ?case by (simp add: extractMatchesFromHtml_def)
next
  case (snoc el html)
  then show ?case
    by (auto simp: extract_snoc visit_def list_ex_iff cid_build split: option.splits)
qed

lemma extract_distinct: "distinct (map cid (extractMatchesFromHtml html))"
proof (induction html rule: rev_induct)
  case Nil
  then show ?case by (simp add: extractMatchesFromHtml_def)
next
  case (snoc el html)
  then show ?case
    by (auto simp: extract_snoc visit_def list_ex_iff cid_build split: option.splits)
qed

lemma extract_first:
  assumes "m \<in> set (extractMatchesFromHtml html)"
  shows "\<exists>el. find (\<lambda>e. anchor_id e = Some (cid m)) html = Some el \<and> m = build el (cid m)"
  using assms
proof (induction html rule: rev_induct)
  case Nil
  then show ?case by (simp add: extractMatchesFromHtml_def)
next
  case (snoc el html)
  let ?found = "extractMatchesFromHtml html"
  show ?case
  proof (cases "m \<in> set ?found")
    case True
    with snoc.IH show ?thesis by (auto simp: find_snoc)
  next
    case False
    with snoc.prems obtain i where i: "anchor_id el = Some i"
        "\<not> list_ex (\<lambda>m. cid m = i) ?found" "m = build el i"
      by (auto simp: extract_snoc visit_def split: option.splits if_splits)
    from i(2) have "i \<notin> cid ` set ?found" by (auto simp: list_ex_iff)
    then have "\<forall>e \<in> set html. anchor_id e \<noteq> Some i" using extract_ids [of html] by auto
    then have "find (\<lambda>e. anchor_id e = Some i) html = None" by (simp add: find_None_iff)
    with i show ?thesis by (simp add: find_snoc cid_build)
  qed
qed

text \<open>
  C9. One call of the extractor returns at most one candidate for each id, and the candidate
  returned for an id is the one built from the first link of the page that carries the id.
\<close>

theorem extract_keeps_first_occurrence:
  "distinct (map cid (extractMatchesFromHtml html)) \<and>
   (\<forall>m \<in> set (extractMatchesFromHtml html).
      \<exists>el. find (\<lambda>e. anchor_id e = Some (cid m)) html = Some el \<and> m = build el (cid m))"
  using extract_distinct extract_first by blast

theorem extract_keeps_first_occurrence_witness:
  "extractMatchesFromHtml twice_page = [furia_candidate] \<and>
   distinct (map cid (extractMatchesFromHtml twice_page)) \<and>
   find (\<lambda>e. anchor_id e = Some (cid furia_candidate)) twice_page = Some furia_link \<and>
   (\<exists>el. find (\<lambda>e. anchor_id e = Some (cid furia_candidate)) twice_page = Some el \<and>
      furia_candidate = build el (cid furia_candidate))"
proof -
  have id2: "anchor_id (furia_link\<lparr>div_text := ''NAVI vs Vitality''\<rparr>) = Some ''12345''"
    by (simp add: anchor_id_def furia_link_def regex_defs)
  have cidf: "cid furia_candidate = ''12345''"
    by (simp add: furia_candidate_def)
  have ex: "extractMatchesFromHtml twice_page = [furia_candidate]"
    by (simp add: extractMatchesFromHtml_def twice_page_def visit_def anchor_id_furia id2
        build_furia cidf)
  have fi: "find (\<lambda>e. anchor_id e = Some (cid furia_candidate)) twice_page = Some furia_link"
    by (simp add: twice_page_def anchor_id_furia cidf)
  have "furia_candidate \<in> set (extractMatchesFromHtml twice_page)"
    by (simp add: ex)
  with extract_keeps_first_occurrence [of twice_page]
  have "distinct (map cid (extractMatchesFromHtml twice_page))"
    and "\<exists>el. find (\<lambda>e. anchor_id e = Some (cid furia_candidate)) twice_page = Some el \<and>
      furia_candidate = build el (cid furia_candidate)"
    by blast+
  with ex fi show ?thesis by blast
qed




lemma lit_Some: "lit P k s = Some x \<Longrightarrow> \<exists>r. k r = Some x"
  by (cases s) (auto split: if_splits)












section \<open>Normalizing and matching\<close>

text \<open>
  C5, as the code has it. The key of a name is the name trimmed and then lowercased. In
  \<open>index.js\<close> a candidate matches a watched team exactly when the specification's matcher
  holds, except that a candidate whose two fields are empty never matches, not even a
  watched name with an empty key. In the other file a match record matches exactly when it
  has both teams and the watched key occurs in the key of one of the two names.
\<close>

theorem matches_by_substring:
  "normalizeTeamName name = spec_normalize name \<and>
   (matches_team (normalizeTeamName watched) m \<longleftrightarrow>
      spec_matches watched m \<and>
      \<not> (spec_normalize watched = [] \<and> team1 m = [] \<and> team2 m = [])) \<and>
   (api_matches_team watched am \<longleftrightarrow>
      (\<exists>n1 n2. m_team1 am = Some n1 \<and> m_team2 am = Some n2 \<and>
         (sublist (spec_normalize watched) (spec_normalize n1) \<or>
          sublist (spec_normalize watched) (spec_normalize n2))))"
proof -
  have n: "normalizeTeamName x = spec_normalize x" for x
    by (simp add: normalizeTeamName_def spec_normalize_def)
  have e: "spec_normalize [] = []"
    by (simp add: spec_normalize_def toLowerCase_def trim_def)
  have "matches_team (normalizeTeamName watched) m \<longleftrightarrow>
      spec_matches watched m \<and>
      \<not> (spec_normalize watched = [] \<and> team1 m = [] \<and> team2 m = [])"
    by (cases "team1 m = []"; cases "team2 m = []")
      (auto simp: matches_team_def spec_matches_def str_includes_sublist n e)
  moreover have "api_matches_team watched am \<longleftrightarrow>
      (\<exists>n1 n2. m_team1 am = Some n1 \<and> m_team2 am = Some n2 \<and>
         (sublist (spec_normalize watched) (spec_normalize n1) \<or>
          sublist (spec_normalize watched) (spec_normalize n2)))"
    by (auto simp: api_matches_team_def str_includes_sublist n split: option.splits)
  ultimately show ?thesis using n by blast
qed

theorem matches_by_substring_witness:
  "normalizeTeamName '' FURIA Esports '' = ''furia esports'' \<and>
   matches_team (normalizeTeamName ''furia'') furia_candidate \<and>
   spec_matches ''furia'' furia_candidate \<and>
   api_matches_team ''impe'' furia_match"
proof -
  have a: "normalizeTeamName '' FURIA Esports '' = ''furia esports''"
    by code_simp
  have b: "spec_normalize ''furia'' = ''furia'' \<and> spec_normalize ''FURIA'' = ''furia'' \<and>
      spec_normalize ''impe'' = ''impe'' \<and> spec_normalize ''Imperial'' = ''imperial''"
    by code_simp
  have c: "spec_matches ''furia'' furia_candidate"
    by (simp add: spec_matches_def furia_candidate_def b)
  have d: "\<not> (spec_normalize ''furia'' = [] \<and> team1 furia_candidate = [] \<and>
      team2 furia_candidate = [])"
    by (simp add: b)
  have e: "\<exists>n1 n2. m_team1 furia_match = Some n1 \<and> m_team2 furia_match = Some n2 \<and>
      (sublist (spec_normalize ''impe'') (spec_normalize n1) \<or>
       sublist (spec_normalize ''impe'') (spec_normalize n2))"
    by (simp add: furia_match_def b)
  have "matches_team (normalizeTeamName ''furia'') furia_candidate"
    using matches_by_substring [of "''furia''" "''furia''" furia_candidate furia_match] c d
    by blast
  moreover have "api_matches_team ''impe'' furia_match"
    using matches_by_substring [of "''impe''" "''impe''" furia_candidate furia_match] e
    by blast
  ultimately show ?thesis using a c by blast
qed

theorem matches_by_substring_counterexample:
  "sublist (normalizeTeamName '' '') (normalizeTeamName (team1 (furia_candidate\<lparr>team1 := [], team2 := []\<rparr>))) \<and>
   \<not> matches_team (normalizeTeamName '' '') (furia_candidate\<lparr>team1 := [], team2 := []\<rparr>) \<and>
   sublist (normalizeTeamName ''furia'') (normalizeTeamName ''FURIA'') \<and>
   \<not> api_matches_team ''furia'' (furia_match\<lparr>m_team2 := None\<rparr>)"
proof -
  have "normalizeTeamName '' '' = [] \<and> normalizeTeamName [] = [] \<and>
      normalizeTeamName ''furia'' = ''furia'' \<and> normalizeTeamName ''FURIA'' = ''furia''"
    by code_simp
  then show ?thesis
    by (simp add: matches_team_def api_matches_team_def furia_candidate_def furia_match_def)
qed

section \<open>The store\<close>

lemma lookup_Own: "lookup obj k = Own v \<longleftrightarrow> obj k = Some v"
  by (auto simp: lookup_def split: option.splits)

lemma lookup_None: "obj k = None \<Longrightarrow> lookup obj k = (if inherited k then Inherited else Undefined)"
  by (simp add: lookup_def)

lemma lookup_Some: "obj k = Some v \<Longrightarrow> lookup obj k = Own v"
  by (simp add: lookup_def)

lemma seen_of_ensure_seen [simp]: "seen_of (ensure_seen k d) k' = seen_of d k'"
  by (auto simp: seen_of_def ensure_seen_def lookup_def split: option.splits)

lemma subscriptions_ensure_seen [simp]: "subscriptions (ensure_seen k d) = subscriptions d"
  by (simp add: ensure_seen_def lookup_def split: option.splits)

lemma ensure_seen_stored:
  "seenMatches (ensure_seen k d) k = None \<longleftrightarrow> seenMatches d k = None \<and> inherited k"
  by (auto simp: ensure_seen_def lookup_def split: option.splits)

lemma ensure_seen_inherited:
  "inherited j \<Longrightarrow> seenMatches (ensure_seen k d) j = seenMatches d j"
  by (auto simp: ensure_seen_def lookup_def split: option.splits)

lemma seen_of_commit:
  "seen_of (mem (commit k i w)) k' = (if k' = k then seen_of (mem w) k @ [i] else seen_of (mem w) k')"
  by (simp add: commit_def saveDB_def seen_of_def)

lemma stored_commit:
  "seenMatches (mem (commit k i w)) k' = None \<longleftrightarrow> k' \<noteq> k \<and> seenMatches (mem w) k' = None"
  by (simp add: commit_def saveDB_def)

lemma subscriptions_commit [simp]: "subscriptions (mem (commit k i w)) = subscriptions (mem w)"
  by (simp add: commit_def saveDB_def)

lemma sent_commit [simp]: "sent (commit k i w) = sent w"
  by (simp add: commit_def saveDB_def)

lemma disk_commit: "disk (commit k i w) = Stored (mem (commit k i w))"
  by (simp add: commit_def saveDB_def)

lemma commit_sent: "commit k i (w\<lparr>sent := n\<rparr>) = (commit k i w)\<lparr>sent := n\<rparr>"
  by (simp add: commit_def saveDB_def)

lemma consistent_commit: "consistent (commit k i w)"
  by (simp add: consistent_def disk_seen_def disk_commit)

lemma consistent_sent [simp]: "consistent (w\<lparr>sent := n\<rparr>) = consistent w"
  by (simp add: consistent_def)

lemma consistent_ensure:
  "consistent (w\<lparr>mem := ensure_seen k (mem w)\<rparr>) = consistent w"
  by (simp add: consistent_def)

lemma consistent_saveDB: "consistent (saveDB w)"
  by (simp add: consistent_def disk_seen_def saveDB_def)

lemma seen_of_load_db: "seen_of (load_db e f) k = disk_seen f k"
  by (cases f) (simp_all add: load_db_def disk_seen_def seen_of_def)

lemma restart_seen: "consistent w \<Longrightarrow> seen_of (mem (restart e w)) k = seen_of (mem w) k"
  by (simp add: restart_def seen_of_load_db consistent_def)

lemma restart_consistent: "consistent w \<Longrightarrow> consistent (restart e w)"
  by (simp add: restart_def seen_of_load_db consistent_def)

lemma consistent_restart: "consistent (restart e w)"
  by (simp add: consistent_def restart_def seen_of_load_db)

lemma not_new_commit: "\<not> isNew (mem (commit k i w)) k i"
  by (simp add: isNew_def seen_of_commit)

section \<open>Traces\<close>

lemma posts_append [simp]: "posts (xs @ ys) = posts xs @ posts ys"
  by (induction xs rule: posts.induct) auto

lemma effects_append [simp]: "effects (xs @ ys) = effects xs @ effects ys"
  by (induction xs rule: effects.induct) auto

lemma posts_effects [simp]: "posts (effects xs) = posts xs"
  by (induction xs rule: effects.induct) auto

lemma store_after_append [simp]: "store_after w (xs @ ys) = store_after (store_after w xs) ys"
  by (induction w xs rule: store_after.induct) auto

lemma store_after_sent: "store_after (w\<lparr>sent := n\<rparr>) es = (store_after w es)\<lparr>sent := n\<rparr>"
  by (induction w es rule: store_after.induct) (auto simp: commit_sent)

lemma committed_at_posts_append [simp]:
  "committed_at_posts idf w (xs @ ys) \<longleftrightarrow>
     committed_at_posts idf w xs \<and> committed_at_posts idf (store_after w xs) ys"
  by (induction idf w xs rule: committed_at_posts.induct) auto

lemma committed_at_posts_sent [simp]:
  "committed_at_posts idf (w\<lparr>sent := n\<rparr>) es = committed_at_posts idf w es"
  by (induction idf w es arbitrary: n rule: committed_at_posts.induct) (auto simp: commit_sent)

section \<open>index.js: one team's cycle\<close>

lemma subs_iter_eq:
  "subs_iter d team =
     (if map_of (subscriptions d) team = None \<and> inherited team then None
      else Some (subs_for d team))"
  by (auto simp: subs_iter_def subs_for_def lookup_def split: option.splits)

lemma subs_iter_Some: "subs_iter d team = Some subs \<Longrightarrow> subs = subs_for d team"
  by (auto simp: subs_iter_eq split: if_splits)

lemma post_all_snd: "snd (post_all net team m subs n) = n + length subs"
  by (induction subs arbitrary: n) (auto simp: case_prod_beta)

lemma post_all_effects:
  "effects (fst (post_all net team m subs n)) = map (\<lambda>webhook. Post webhook team m) subs"
  by (induction subs arbitrary: n) (auto simp: case_prod_beta)

lemma post_all_posts:
  "posts (fst (post_all net team m subs n)) = map (\<lambda>webhook. (webhook, team, m)) subs"
  by (induction subs arbitrary: n) (auto simp: case_prod_beta)

lemma post_all_commits_first:
  "commits_first idf done (fst (post_all net team m subs n) @ es) \<longleftrightarrow>
     (subs = [] \<or> (normalizeTeamName team, idf m) \<in> set done) \<and> commits_first idf done es"
  by (induction subs arbitrary: n) (auto simp: case_prod_beta)

lemma post_all_store [simp]: "store_after w (fst (post_all net team m subs n)) = w"
  by (induction subs arbitrary: n) (auto simp: case_prod_beta)

lemma post_all_committed:
  "committed_at_posts idf w (fst (post_all net team m subs n)) \<longleftrightarrow>
     subs = [] \<or>
     (idf m \<in> set (seen_of (mem w) (normalizeTeamName team)) \<and>
      idf m \<in> set (disk_seen (disk w) (normalizeTeamName team)))"
  by (induction subs arbitrary: n) (auto simp: case_prod_beta)

lemma post_all_no_commit: "Commit k i \<notin> set (fst (post_all net team m subs n))"
  by (induction subs arbitrary: n) (auto simp: case_prod_beta)

lemma notify_loop_Cons:
  "notify_loop net team k (m # ms) w =
     (if seenMatches (mem w) k = None then \<lparr>trace = [], after = w, thrown = Some TypeError\<rparr>
      else if \<not> isNew (mem w) k (cid m) then notify_loop net team k ms w
      else if subs_iter (mem w) team = None
        then \<lparr>trace = [Commit k (cid m)], after = commit k (cid m) w, thrown = Some TypeError\<rparr>
      else
        \<lparr>trace = Commit k (cid m) #
           fst (post_all net team m (subs_for (mem w) team) (sent w)) @
           trace (notify_loop net team k ms
                    ((commit k (cid m) w)\<lparr>sent := sent w + length (subs_for (mem w) team)\<rparr>)),
         after = after (notify_loop net team k ms
                    ((commit k (cid m) w)\<lparr>sent := sent w + length (subs_for (mem w) team)\<rparr>)),
         thrown = thrown (notify_loop net team k ms
                    ((commit k (cid m) w)\<lparr>sent := sent w + length (subs_for (mem w) team)\<rparr>))\<rparr>)"
  by (auto simp: Let_def case_prod_beta post_all_snd lookup_def subs_iter_eq subs_for_def
      split: option.splits)

declare notify_loop.simps(2) [simp del]

lemma notify_loop_commits_first:
  "commits_first cid done (trace (notify_loop net team (normalizeTeamName team) ms w))"
proof (induction ms arbitrary: w "done")
  case Nil
  show ?case by simp
next
  case (Cons m ms)
  show ?case
    by (simp add: notify_loop_Cons post_all_commits_first Cons.IH)
qed

lemma notify_loop_net:
  "after (notify_loop net team k ms w) = after (notify_loop net' team k ms w) \<and>
   thrown (notify_loop net team k ms w) = thrown (notify_loop net' team k ms w) \<and>
   effects (trace (notify_loop net team k ms w)) = effects (trace (notify_loop net' team k ms w))"
proof (induction ms arbitrary: w)
  case Nil
  show ?case by simp
next
  case (Cons m ms)
  show ?case
    by (simp add: notify_loop_Cons post_all_effects Cons.IH)
qed

lemma notify_loop_seen:
  "prefix (seen_of (mem w) k') (seen_of (mem (after (notify_loop net team k ms w))) k')"
proof (induction ms arbitrary: w)
  case Nil
  show ?case by simp
next
  case (Cons m ms)
  let ?w1 = "(commit k (cid m) w)\<lparr>sent := sent w + length (subs_for (mem w) team)\<rparr>"
  have p: "prefix (seen_of (mem w) k') (seen_of (mem (commit k (cid m) w)) k')"
    by (simp add: seen_of_commit)
  then have "prefix (seen_of (mem w) k') (seen_of (mem ?w1) k')"
    by simp
  then have "prefix (seen_of (mem w) k') (seen_of (mem (after (notify_loop net team k ms ?w1))) k')"
    using Cons.IH [of ?w1] prefix_order.trans by blast
  with p show ?case
    by (simp add: notify_loop_Cons Cons.IH)
qed

lemma notify_loop_consistent:
  "consistent w \<Longrightarrow> consistent (after (notify_loop net team k ms w))"
proof (induction ms arbitrary: w)
  case Nil
  then show ?case by simp
next
  case (Cons m ms)
  then show ?case
    by (simp add: notify_loop_Cons consistent_commit)
qed

lemma notify_loop_subscriptions:
  "subscriptions (mem (after (notify_loop net team k ms w))) = subscriptions (mem w)"
proof (induction ms arbitrary: w)
  case Nil
  show ?case by simp
next
  case (Cons m ms)
  show ?case
    by (simp add: notify_loop_Cons Cons.IH)
qed

lemma notify_loop_committed_at_posts:
  "committed_at_posts cid w (trace (notify_loop net team (normalizeTeamName team) ms w)) \<and>
   mem (after (notify_loop net team (normalizeTeamName team) ms w)) =
     mem (store_after w (trace (notify_loop net team (normalizeTeamName team) ms w))) \<and>
   disk (after (notify_loop net team (normalizeTeamName team) ms w)) =
     disk (store_after w (trace (notify_loop net team (normalizeTeamName team) ms w)))"
proof (induction ms arbitrary: w)
  case Nil
  show ?case by simp
next
  case (Cons m ms)
  let ?k = "normalizeTeamName team"
  let ?n = "sent w + length (subs_for (mem w) team)"
  have h: "cid m \<in> set (seen_of (mem (commit ?k (cid m) w)) ?k) \<and>
      cid m \<in> set (disk_seen (disk (commit ?k (cid m) w)) ?k)"
    by (simp add: disk_commit disk_seen_def seen_of_commit)
  show ?case
    using Cons.IH [of w] Cons.IH [of "(commit ?k (cid m) w)\<lparr>sent := ?n\<rparr>"] h
    by (simp add: notify_loop_Cons post_all_committed store_after_sent)
qed

lemma notify_trace:
  "trace (notifyNewMatchesForTeam net up team w) =
     snd (getMatchesForTeam up team) @
     trace (notify_loop net team (normalizeTeamName team) (fst (getMatchesForTeam up team))
              (w\<lparr>mem := ensure_seen (normalizeTeamName team) (mem w)\<rparr>))"
  by (simp add: notifyNewMatchesForTeam_def Let_def case_prod_beta)

lemma notify_after:
  "after (notifyNewMatchesForTeam net up team w) =
     after (notify_loop net team (normalizeTeamName team) (fst (getMatchesForTeam up team))
              (w\<lparr>mem := ensure_seen (normalizeTeamName team) (mem w)\<rparr>))"
  by (simp add: notifyNewMatchesForTeam_def Let_def case_prod_beta)

lemma notify_thrown:
  "thrown (notifyNewMatchesForTeam net up team w) =
     thrown (notify_loop net team (normalizeTeamName team) (fst (getMatchesForTeam up team))
              (w\<lparr>mem := ensure_seen (normalizeTeamName team) (mem w)\<rparr>))"
  by (simp add: notifyNewMatchesForTeam_def Let_def case_prod_beta)

lemma getMatches_logs: "effects (snd (getMatchesForTeam up team)) = []"
  by (cases up) (simp_all add: getMatchesForTeam_def)

lemma getMatches_commits_first:
  "commits_first idf done (snd (getMatchesForTeam up team) @ es) = commits_first idf done es"
  by (cases up) (simp_all add: getMatchesForTeam_def)

lemma getMatches_store [simp]: "store_after w (snd (getMatchesForTeam up team)) = w"
  by (cases up) (simp_all add: getMatchesForTeam_def)

lemma getMatches_committed [simp]:
  "committed_at_posts idf w (snd (getMatchesForTeam up team))"
  by (cases up) (simp_all add: getMatchesForTeam_def)

lemma getMatches_no_commit: "Commit k i \<notin> set (snd (getMatchesForTeam up team))"
  by (cases up) (simp_all add: getMatchesForTeam_def)

lemma getMatches_posts: "posts (snd (getMatchesForTeam up team)) = []"
  by (cases up) (simp_all add: getMatchesForTeam_def)

lemma notify_commits_first:
  "commits_first cid done (trace (notifyNewMatchesForTeam net up team w))"
  by (simp add: notify_trace getMatches_commits_first notify_loop_commits_first)

lemma notify_committed_at_posts:
  "committed_at_posts cid (w\<lparr>mem := ensure_seen (normalizeTeamName team) (mem w)\<rparr>)
     (trace (notifyNewMatchesForTeam net up team w)) \<and>
   mem (after (notifyNewMatchesForTeam net up team w)) =
     mem (store_after (w\<lparr>mem := ensure_seen (normalizeTeamName team) (mem w)\<rparr>)
            (trace (notifyNewMatchesForTeam net up team w))) \<and>
   disk (after (notifyNewMatchesForTeam net up team w)) =
     disk (store_after (w\<lparr>mem := ensure_seen (normalizeTeamName team) (mem w)\<rparr>)
            (trace (notifyNewMatchesForTeam net up team w)))"
  using notify_loop_committed_at_posts
    [of "w\<lparr>mem := ensure_seen (normalizeTeamName team) (mem w)\<rparr>" net team
      "fst (getMatchesForTeam up team)"]
  by (simp add: notify_trace notify_after)

lemma notify_net:
  "after (notifyNewMatchesForTeam net up team w) = after (notifyNewMatchesForTeam net' up team w) \<and>
   thrown (notifyNewMatchesForTeam net up team w) = thrown (notifyNewMatchesForTeam net' up team w) \<and>
   effects (trace (notifyNewMatchesForTeam net up team w)) =
     effects (trace (notifyNewMatchesForTeam net' up team w))"
  using notify_loop_net [of net]
  by (simp add: notify_trace notify_after notify_thrown)

lemma notify_seen:
  "prefix (seen_of (mem w) k') (seen_of (mem (after (notifyNewMatchesForTeam net up team w))) k')"
  using notify_loop_seen
    [of "w\<lparr>mem := ensure_seen (normalizeTeamName team) (mem w)\<rparr>" k' net team]
  by (simp add: notify_after)

lemma notify_consistent:
  "consistent w \<Longrightarrow> consistent (after (notifyNewMatchesForTeam net up team w))"
  by (simp add: notify_after notify_loop_consistent consistent_ensure)

lemma notify_subscriptions:
  "subscriptions (mem (after (notifyNewMatchesForTeam net up team w))) = subscriptions (mem w)"
  by (simp add: notify_after notify_loop_subscriptions)

section \<open>index.js: polls, requests and runs\<close>

lemma cron_each_Cons:
  "cron_each net up (t # ts) w =
     \<lparr>trace = trace (notifyNewMatchesForTeam net (up t) t w) @
        (if thrown (notifyNewMatchesForTeam net (up t) t w) = None then [] else [Log CycleFailed]) @
        trace (cron_each net up ts (after (notifyNewMatchesForTeam net (up t) t w))),
      after = after (cron_each net up ts (after (notifyNewMatchesForTeam net (up t) t w))),
      thrown = None\<rparr>"
  by (simp add: Let_def split: option.splits)

lemma poll_each_Cons:
  "poll_each net up (t # ts) w =
     (if thrown (notifyNewMatchesForTeam net (up t) t w) \<noteq> None
      then notifyNewMatchesForTeam net (up t) t w
      else
        \<lparr>trace = trace (notifyNewMatchesForTeam net (up t) t w) @
           trace (poll_each net up ts (after (notifyNewMatchesForTeam net (up t) t w))),
         after = after (poll_each net up ts (after (notifyNewMatchesForTeam net (up t) t w))),
         thrown = thrown (poll_each net up ts (after (notifyNewMatchesForTeam net (up t) t w)))\<rparr>)"
  by (simp add: Let_def split: option.splits)

declare cron_each.simps(2) [simp del]
declare poll_each.simps(2) [simp del]

lemma cron_each_thrown [simp]: "thrown (cron_each net up ts w) = None"
  by (cases ts) (simp_all add: cron_each_Cons)

lemma cron_each_net:
  "after (cron_each net up ts w) = after (cron_each net' up ts w) \<and>
   effects (trace (cron_each net up ts w)) = effects (trace (cron_each net' up ts w))"
proof (induction ts arbitrary: w)
  case Nil
  show ?case by simp
next
  case (Cons t ts)
  show ?case
    using notify_net [of net "up t" t w net'] Cons.IH
    by (simp add: cron_each_Cons)
qed

lemma poll_each_net:
  "after (poll_each net up ts w) = after (poll_each net' up ts w) \<and>
   effects (trace (poll_each net up ts w)) = effects (trace (poll_each net' up ts w))"
proof (induction ts arbitrary: w)
  case Nil
  show ?case by simp
next
  case (Cons t ts)
  show ?case
    using notify_net [of net "up t" t w net'] Cons.IH
    by (simp add: poll_each_Cons)
qed

lemma cron_each_seen:
  "prefix (seen_of (mem w) k) (seen_of (mem (after (cron_each net up ts w))) k)"
proof (induction ts arbitrary: w)
  case Nil
  show ?case by simp
next
  case (Cons t ts)
  show ?case
    using notify_seen [of w k net "up t" t]
      Cons.IH [of "after (notifyNewMatchesForTeam net (up t) t w)"]
    by (simp add: cron_each_Cons)
qed

lemma poll_each_seen:
  "prefix (seen_of (mem w) k) (seen_of (mem (after (poll_each net up ts w))) k)"
proof (induction ts arbitrary: w)
  case Nil
  show ?case by simp
next
  case (Cons t ts)
  show ?case
    using notify_seen [of w k net "up t" t]
      Cons.IH [of "after (notifyNewMatchesForTeam net (up t) t w)"]
    by (auto simp: poll_each_Cons dest: prefix_order.trans)
qed

lemma cron_each_consistent:
  "consistent w \<Longrightarrow> consistent (after (cron_each net up ts w))"
proof (induction ts arbitrary: w)
  case Nil
  then show ?case by simp
next
  case (Cons t ts)
  then show ?case
    by (simp add: cron_each_Cons notify_consistent)
qed

lemma poll_each_consistent:
  "consistent w \<Longrightarrow> consistent (after (poll_each net up ts w))"
proof (induction ts arbitrary: w)
  case Nil
  then show ?case by simp
next
  case (Cons t ts)
  then show ?case
    by (simp add: poll_each_Cons notify_consistent)
qed

lemma subscribe_seen: "seen_of (mem (snd (subscribe team webhook w))) k = seen_of (mem w) k"
  by (simp add: subscribe_def Let_def saveDB_def seen_of_def split: looked.splits)

lemma subscribe_consistent: "consistent w \<Longrightarrow> consistent (snd (subscribe team webhook w))"
  by (simp add: subscribe_def Let_def consistent_saveDB split: looked.splits)

lemma unsubscribe_seen: "seen_of (mem (snd (unsubscribe team webhook w))) k = seen_of (mem w) k"
  by (simp add: unsubscribe_def Let_def saveDB_def seen_of_def split: looked.splits)

lemma unsubscribe_consistent: "consistent w \<Longrightarrow> consistent (snd (unsubscribe team webhook w))"
  by (simp add: unsubscribe_def Let_def consistent_saveDB split: looked.splits)

lemma exec_seen:
  "consistent w \<Longrightarrow> prefix (seen_of (mem w) k) (seen_of (mem (after (exec net r w))) k)"
  by (cases r)
    (simp_all add: subscribe_seen unsubscribe_seen cron_tick_def poll_now_def Let_def
      cron_each_seen poll_each_seen restart_seen)

lemma exec_consistent: "consistent w \<Longrightarrow> consistent (after (exec net r w))"
  by (cases r)
    (simp_all add: subscribe_consistent unsubscribe_consistent cron_tick_def poll_now_def
      Let_def cron_each_consistent poll_each_consistent restart_consistent)

lemma run_Cons:
  "run net (r # rs) w =
     \<lparr>trace = trace (exec net r w) @ trace (run net rs (after (exec net r w))),
      after = after (run net rs (after (exec net r w))), thrown = None\<rparr>"
  by (simp add: Let_def)

declare run.simps(2) [simp del]

lemma run_seen:
  "consistent w \<Longrightarrow> prefix (seen_of (mem w) k) (seen_of (mem (after (run net rs w))) k)"
proof (induction rs arbitrary: w)
  case Nil
  show ?case by simp
next
  case (Cons r rs)
  have "prefix (seen_of (mem w) k) (seen_of (mem (after (exec net r w))) k)"
    using Cons.prems by (rule exec_seen)
  moreover have "prefix (seen_of (mem (after (exec net r w))) k)
      (seen_of (mem (after (run net rs (after (exec net r w))))) k)"
    using Cons.prems by (intro Cons.IH exec_consistent)
  ultimately show ?case
    by (simp add: run_Cons)
qed

lemma run_consistent: "consistent w \<Longrightarrow> consistent (after (run net rs w))"
proof (induction rs arbitrary: w)
  case Nil
  then show ?case by simp
next
  case (Cons r rs)
  then show ?case
    by (simp add: run_Cons exec_consistent)
qed

lemma exec_net:
  "after (exec net r w) = after (exec net' r w) \<and>
   effects (trace (exec net r w)) = effects (trace (exec net' r w))"
  using poll_each_net [of net _ _ w net'] cron_each_net [of net _ _ w net']
  by (cases r) (simp_all add: cron_tick_def poll_now_def Let_def)

lemma run_net:
  "after (run net rs w) = after (run net' rs w) \<and>
   effects (trace (run net rs w)) = effects (trace (run net' rs w))"
proof (induction rs arbitrary: w)
  case Nil
  show ?case by simp
next
  case (Cons r rs)
  show ?case
    using exec_net [of net r w net'] Cons.IH
    by (simp add: run_Cons)
qed

lemma notify_loop_committed:
  "Commit k i \<in> set (trace (notify_loop net team k ms w)) \<Longrightarrow>
   consistent (after (notify_loop net team k ms w)) \<and>
   i \<in> set (seen_of (mem (after (notify_loop net team k ms w))) k)"
proof (induction ms arbitrary: w)
  case Nil
  then show ?case by simp
next
  case (Cons m ms)
  let ?w1 = "(commit k (cid m) w)\<lparr>sent := sent w + length (subs_for (mem w) team)\<rparr>"
  show ?case
  proof (cases "seenMatches (mem w) k = None \<or> \<not> isNew (mem w) k (cid m)")
    case True
    with Cons show ?thesis by (auto simp: notify_loop_Cons)
  next
    case False
    show ?thesis
    proof (cases "subs_iter (mem w) team = None")
      case True
      with False Cons.prems show ?thesis
        by (auto simp: notify_loop_Cons consistent_commit seen_of_commit)
    next
      case n: False
      have c1: "consistent ?w1" by (simp add: consistent_commit)
      then have c: "consistent (after (notify_loop net team k ms ?w1))"
        by (rule notify_loop_consistent)
      from Cons.prems False n
      have "cid m = i \<or> Commit k i \<in> set (trace (notify_loop net team k ms ?w1))"
        by (auto simp: notify_loop_Cons post_all_no_commit)
      then have "i \<in> set (seen_of (mem (after (notify_loop net team k ms ?w1))) k)"
      proof
        assume "cid m = i"
        then have "i \<in> set (seen_of (mem ?w1) k)" by (simp add: seen_of_commit)
        then show ?thesis
          using notify_loop_seen [of ?w1 k net team k ms] set_mono_prefix by blast
      next
        assume "Commit k i \<in> set (trace (notify_loop net team k ms ?w1))"
        then show ?thesis using Cons.IH by blast
      qed
      with c False n show ?thesis by (auto simp: notify_loop_Cons)
    qed
  qed
qed

lemma notify_loop_seen_no_post:
  "i \<in> set (seen_of (mem w) k) \<Longrightarrow>
   (webhook, t, m) \<in> set (posts (trace (notify_loop net team k ms w))) \<Longrightarrow> cid m \<noteq> i"
proof (induction ms arbitrary: w)
  case Nil
  then show ?case by simp
next
  case (Cons m' ms)
  let ?w1 = "(commit k (cid m') w)\<lparr>sent := sent w + length (subs_for (mem w) team)\<rparr>"
  show ?case
  proof (cases "isNew (mem w) k (cid m')")
    case False
    with Cons show ?thesis by (simp add: notify_loop_Cons split: if_splits)
  next
    case True
    then have ne: "cid m' \<noteq> i" using Cons.prems(1) by (auto simp: isNew_def)
    have "i \<in> set (seen_of (mem ?w1) k)" using Cons.prems(1) by (simp add: seen_of_commit)
    then have "(webhook, t, m) \<in> set (posts (trace (notify_loop net team k ms ?w1))) \<Longrightarrow> cid m \<noteq> i"
      by (rule Cons.IH)
    with Cons.prems(2) True ne show ?thesis
      by (auto simp: notify_loop_Cons post_all_posts split: if_splits)
  qed
qed

lemma subs_for_subscribe_other:
  "t1 \<noteq> t2 \<Longrightarrow> subs_for (mem (snd (subscribe t1 webhook w))) t2 = subs_for (mem w) t2"
  by (simp add: subscribe_def Let_def saveDB_def subs_for_def update_conv' split: looked.splits)

section \<open>discord_esports_bot_api.js: cycles, requests and runs\<close>

lemma send_all_no_event:
  "m_event m = None \<Longrightarrow>
   send_all net m subs w =
     \<lparr>trace = [], after = w, thrown = (if subs = [] then None else Some TypeError), late = []\<rparr>"
  by (cases subs) simp_all

lemma send_all_thrown:
  "thrown (send_all net m subs w) = (if m_event m = None \<and> subs \<noteq> [] then Some TypeError else None)"
  by (induction subs arbitrary: w) (auto simp: Let_def split: option.splits)

lemma send_all_after:
  "after (send_all net m subs w) =
     w\<lparr>sent := sent w + (if m_event m = None then 0 else length subs)\<rparr>"
  by (induction subs arbitrary: w) (auto simp: Let_def split: option.splits)

lemma send_all_trace:
  "trace (send_all net m subs w) =
     (if m_event m = None then []
      else concat (map (\<lambda>s. [Log (Sending (s_webhook s)), Post (s_webhook s) (s_team s) m]) subs))"
  by (induction subs arbitrary: w) (auto simp: Let_def split: option.splits)

lemma send_all_late:
  "late (send_all net m subs w) =
     (if m_event m = None then []
      else map (\<lambda>i. SendFailed (s_webhook (subs ! i)))
             (filter (\<lambda>i. \<not> net (sent w + i)) [0..<length subs]))"
proof (induction subs arbitrary: w)
  case Nil
  show ?case by simp
next
  case (Cons s subs)
  have u: "[0..<Suc (length subs)] = 0 # map Suc [0..<length subs]"
    by (simp add: upt_conv_Cons map_Suc_upt del: upt_Suc)
  show ?case
    by (cases "m_event m") (simp_all add: Let_def Cons.IH u filter_map comp_def del: upt_Suc)
qed

lemma sending_effects:
  "effects (concat (map (\<lambda>s. [Log (Sending (s_webhook s)), Post (s_webhook s) (s_team s) m]) subs)) =
     map (\<lambda>s. Post (s_webhook s) (s_team s) m) subs"
  by (induction subs) simp_all

lemma sending_posts:
  "posts (concat (map (\<lambda>s. [Log (Sending (s_webhook s)), Post (s_webhook s) (s_team s) m]) subs)) =
     map (\<lambda>s. (s_webhook s, s_team s, m)) subs"
  by (induction subs) simp_all

lemma sending_commits_first:
  "commits_first idf done
     (concat (map (\<lambda>s. [Log (Sending (s_webhook s)), Post (s_webhook s) (s_team s) m]) subs) @ es) \<longleftrightarrow>
     (\<forall>s \<in> set subs. (normalizeTeamName (s_team s), idf m) \<in> set done) \<and>
     commits_first idf done es"
  by (induction subs) auto

lemma sending_store:
  "store_after w
     (concat (map (\<lambda>s. [Log (Sending (s_webhook s)), Post (s_webhook s) (s_team s) m]) subs)) = w"
  by (induction subs) simp_all

lemma sending_committed:
  "committed_at_posts idf w
     (concat (map (\<lambda>s. [Log (Sending (s_webhook s)), Post (s_webhook s) (s_team s) m]) subs)) \<longleftrightarrow>
     (\<forall>s \<in> set subs.
        idf m \<in> set (seen_of (mem w) (normalizeTeamName (s_team s))) \<and>
        idf m \<in> set (disk_seen (disk w) (normalizeTeamName (s_team s))))"
  by (induction subs) auto

lemma sending_no_commit:
  "Commit k i \<notin>
     set (concat (map (\<lambda>s. [Log (Sending (s_webhook s)), Post (s_webhook s) (s_team s) m]) subs))"
  by (induction subs) auto

lemma send_all_effects:
  "effects (trace (send_all net m subs w)) =
     (if m_event m = None then [] else map (\<lambda>s. Post (s_webhook s) (s_team s) m) subs)"
  by (simp add: send_all_trace sending_effects)

lemma send_all_posts:
  "posts (trace (send_all net m subs w)) =
     (if m_event m = None then [] else map (\<lambda>s. (s_webhook s, s_team s, m)) subs)"
  by (simp add: send_all_trace sending_posts)

lemma send_all_commits_first:
  "commits_first idf done (trace (send_all net m subs w) @ es) \<longleftrightarrow>
     (m_event m = None \<or> (\<forall>s \<in> set subs. (normalizeTeamName (s_team s), idf m) \<in> set done)) \<and>
     commits_first idf done es"
  by (auto simp: send_all_trace sending_commits_first)

lemma send_all_store [simp]: "store_after w' (trace (send_all net m subs w)) = w'"
  by (simp add: send_all_trace sending_store)

lemma send_all_committed:
  "committed_at_posts idf w' (trace (send_all net m subs w)) \<longleftrightarrow>
     m_event m = None \<or>
     (\<forall>s \<in> set subs.
        idf m \<in> set (seen_of (mem w') (normalizeTeamName (s_team s))) \<and>
        idf m \<in> set (disk_seen (disk w') (normalizeTeamName (s_team s))))"
  by (auto simp: send_all_trace sending_committed)

lemma send_all_no_commit: "Commit k i \<notin> set (trace (send_all net m subs w))"
  by (simp add: send_all_trace sending_no_commit)

lemma send_all_net:
  "trace (send_all net m subs w) = trace (send_all net' m subs w) \<and>
   after (send_all net m subs w) = after (send_all net' m subs w) \<and>
   thrown (send_all net m subs w) = thrown (send_all net' m subs w)"
  by (simp add: send_all_trace send_all_after send_all_thrown)

lemma findSubscriptions_commit [simp]:
  "findSubscriptionsForTeam (mem (commit k i w)) team = findSubscriptionsForTeam (mem w) team"
  by (simp add: findSubscriptionsForTeam_def)

lemma pollTeam_loop_Cons:
  "pollTeam_loop net team k (m # ms) w =
     (if seenMatches (mem w) k = None
      then \<lparr>trace = [], after = w, thrown = Some TypeError, late = []\<rparr>
      else if \<not> isNew (mem w) k (m_id m) then pollTeam_loop net team k ms w
      else if m_event m = None \<and> findSubscriptionsForTeam (mem w) team \<noteq> []
        then \<lparr>trace = [Commit k (m_id m)], after = commit k (m_id m) w,
              thrown = Some TypeError, late = []\<rparr>
      else
        \<lparr>trace = Commit k (m_id m) #
           trace (send_all net m (findSubscriptionsForTeam (mem w) team) (commit k (m_id m) w)) @
           trace (pollTeam_loop net team k ms
                    (after (send_all net m (findSubscriptionsForTeam (mem w) team)
                              (commit k (m_id m) w)))),
         after = after (pollTeam_loop net team k ms
                    (after (send_all net m (findSubscriptionsForTeam (mem w) team)
                              (commit k (m_id m) w)))),
         thrown = thrown (pollTeam_loop net team k ms
                    (after (send_all net m (findSubscriptionsForTeam (mem w) team)
                              (commit k (m_id m) w)))),
         late = late (send_all net m (findSubscriptionsForTeam (mem w) team) (commit k (m_id m) w)) @
           late (pollTeam_loop net team k ms
                    (after (send_all net m (findSubscriptionsForTeam (mem w) team)
                              (commit k (m_id m) w))))\<rparr>)"
  by (auto simp: Let_def lookup_def send_all_thrown send_all_no_event split: option.splits)

declare pollTeam_loop.simps(2) [simp del]

lemma pollTeam_loop_commits_first:
  "commits_first m_id done (trace (pollTeam_loop net team (normalizeTeamName team) ms w))"
proof (induction ms arbitrary: w "done")
  case Nil
  show ?case by simp
next
  case (Cons m ms)
  show ?case
    by (simp add: pollTeam_loop_Cons send_all_commits_first Cons.IH findSubscriptionsForTeam_def)
qed

lemma pollTeam_loop_net:
  "trace (pollTeam_loop net team k ms w) = trace (pollTeam_loop net' team k ms w) \<and>
   after (pollTeam_loop net team k ms w) = after (pollTeam_loop net' team k ms w) \<and>
   thrown (pollTeam_loop net team k ms w) = thrown (pollTeam_loop net' team k ms w)"
proof (induction ms arbitrary: w)
  case Nil
  show ?case by simp
next
  case (Cons m ms)
  have e: "trace (send_all net m subs w') = trace (send_all net' m subs w')"
    "after (send_all net m subs w') = after (send_all net' m subs w')" for subs w'
    by (simp_all add: send_all_net [of net m subs w' net'])
  show ?case
    by (simp add: pollTeam_loop_Cons e Cons.IH)
qed

lemma pollTeam_loop_seen:
  "prefix (seen_of (mem w) k') (seen_of (mem (after (pollTeam_loop net team k ms w))) k')"
proof (induction ms arbitrary: w)
  case Nil
  show ?case by simp
next
  case (Cons m ms)
  let ?w1 = "after (send_all net m (findSubscriptionsForTeam (mem w) team) (commit k (m_id m) w))"
  have p: "prefix (seen_of (mem w) k') (seen_of (mem (commit k (m_id m) w)) k')"
    by (simp add: seen_of_commit)
  then have "prefix (seen_of (mem w) k') (seen_of (mem ?w1) k')"
    by (simp add: send_all_after)
  then have "prefix (seen_of (mem w) k')
      (seen_of (mem (after (pollTeam_loop net team k ms ?w1))) k')"
    using Cons.IH [of ?w1] prefix_order.trans by blast
  with p show ?case
    by (simp add: pollTeam_loop_Cons Cons.IH)
qed

lemma pollTeam_loop_consistent:
  "consistent w \<Longrightarrow> consistent (after (pollTeam_loop net team k ms w))"
proof (induction ms arbitrary: w)
  case Nil
  then show ?case by simp
next
  case (Cons m ms)
  then show ?case
    by (simp add: pollTeam_loop_Cons consistent_commit send_all_after)
qed

lemma pollTeam_loop_committed_at_posts:
  "committed_at_posts m_id w (trace (pollTeam_loop net team (normalizeTeamName team) ms w)) \<and>
   mem (after (pollTeam_loop net team (normalizeTeamName team) ms w)) =
     mem (store_after w (trace (pollTeam_loop net team (normalizeTeamName team) ms w))) \<and>
   disk (after (pollTeam_loop net team (normalizeTeamName team) ms w)) =
     disk (store_after w (trace (pollTeam_loop net team (normalizeTeamName team) ms w)))"
proof (induction ms arbitrary: w)
  case Nil
  show ?case by simp
next
  case (Cons m ms)
  let ?k = "normalizeTeamName team"
  let ?S = "findSubscriptionsForTeam (mem w) team"
  let ?w1 = "after (send_all net m ?S (commit ?k (m_id m) w))"
  have h: "m_id m \<in> set (seen_of (mem (commit ?k (m_id m) w)) ?k) \<and>
      m_id m \<in> set (disk_seen (disk (commit ?k (m_id m) w)) ?k)"
    by (simp add: disk_commit disk_seen_def seen_of_commit)
  have s: "\<forall>s \<in> set ?S. normalizeTeamName (s_team s) = ?k"
    by (simp add: findSubscriptionsForTeam_def)
  obtain n where w1: "?w1 = (commit ?k (m_id m) w)\<lparr>sent := n\<rparr>"
    by (simp add: send_all_after)
  have i: "committed_at_posts m_id (commit ?k (m_id m) w)
        (trace (pollTeam_loop net team ?k ms ?w1)) \<and>
      mem (after (pollTeam_loop net team ?k ms ?w1)) =
        mem (store_after (commit ?k (m_id m) w) (trace (pollTeam_loop net team ?k ms ?w1))) \<and>
      disk (after (pollTeam_loop net team ?k ms ?w1)) =
        disk (store_after (commit ?k (m_id m) w) (trace (pollTeam_loop net team ?k ms ?w1)))"
    using Cons.IH [of "(commit ?k (m_id m) w)\<lparr>sent := n\<rparr>"]
    unfolding w1 by (simp add: store_after_sent)
  show ?case
    using Cons.IH [of w] i h s
    by (simp add: pollTeam_loop_Cons send_all_committed)
qed

lemma pollTeam_trace:
  "trace (pollTeam net up team w) =
     Log (PollingTeam team) # snd (fetchUpcomingMatches up team) @
     trace (pollTeam_loop net team (normalizeTeamName team) (fst (fetchUpcomingMatches up team))
              (w\<lparr>mem := ensure_seen (normalizeTeamName team) (mem w)\<rparr>))"
  by (simp add: pollTeam_def Let_def case_prod_beta)

lemma pollTeam_after:
  "after (pollTeam net up team w) =
     after (pollTeam_loop net team (normalizeTeamName team) (fst (fetchUpcomingMatches up team))
              (w\<lparr>mem := ensure_seen (normalizeTeamName team) (mem w)\<rparr>))"
  by (simp add: pollTeam_def Let_def case_prod_beta)

lemma pollTeam_thrown:
  "thrown (pollTeam net up team w) =
     thrown (pollTeam_loop net team (normalizeTeamName team) (fst (fetchUpcomingMatches up team))
              (w\<lparr>mem := ensure_seen (normalizeTeamName team) (mem w)\<rparr>))"
  by (simp add: pollTeam_def Let_def case_prod_beta)

lemma pollTeam_late:
  "late (pollTeam net up team w) =
     late (pollTeam_loop net team (normalizeTeamName team) (fst (fetchUpcomingMatches up team))
              (w\<lparr>mem := ensure_seen (normalizeTeamName team) (mem w)\<rparr>))"
  by (simp add: pollTeam_def Let_def case_prod_beta)

lemma fetchUpcoming_logs: "effects (snd (fetchUpcomingMatches up team)) = []"
  by (cases up) (simp_all add: fetchUpcomingMatches_def)

lemma fetchUpcoming_commits_first:
  "commits_first idf done (snd (fetchUpcomingMatches up team) @ es) = commits_first idf done es"
  by (cases up) (simp_all add: fetchUpcomingMatches_def)

lemma fetchUpcoming_store [simp]: "store_after w (snd (fetchUpcomingMatches up team)) = w"
  by (cases up) (simp_all add: fetchUpcomingMatches_def)

lemma fetchUpcoming_committed [simp]:
  "committed_at_posts idf w (snd (fetchUpcomingMatches up team))"
  by (cases up) (simp_all add: fetchUpcomingMatches_def)

lemma pollTeam_commits_first:
  "commits_first m_id done (trace (pollTeam net up team w))"
  by (simp add: pollTeam_trace fetchUpcoming_commits_first pollTeam_loop_commits_first)

lemma pollTeam_committed_at_posts:
  "committed_at_posts m_id (w\<lparr>mem := ensure_seen (normalizeTeamName team) (mem w)\<rparr>)
     (trace (pollTeam net up team w)) \<and>
   mem (after (pollTeam net up team w)) =
     mem (store_after (w\<lparr>mem := ensure_seen (normalizeTeamName team) (mem w)\<rparr>)
            (trace (pollTeam net up team w))) \<and>
   disk (after (pollTeam net up team w)) =
     disk (store_after (w\<lparr>mem := ensure_seen (normalizeTeamName team) (mem w)\<rparr>)
            (trace (pollTeam net up team w)))"
  using pollTeam_loop_committed_at_posts
    [of "w\<lparr>mem := ensure_seen (normalizeTeamName team) (mem w)\<rparr>" net team
      "fst (fetchUpcomingMatches up team)"]
  by (simp add: pollTeam_trace pollTeam_after)

lemma pollTeam_net:
  "trace (pollTeam net up team w) = trace (pollTeam net' up team w) \<and>
   after (pollTeam net up team w) = after (pollTeam net' up team w) \<and>
   thrown (pollTeam net up team w) = thrown (pollTeam net' up team w)"
  using pollTeam_loop_net [of net] by (simp add: pollTeam_trace pollTeam_after pollTeam_thrown)

lemma pollTeam_seen:
  "prefix (seen_of (mem w) k') (seen_of (mem (after (pollTeam net up team w))) k')"
  using pollTeam_loop_seen
    [of "w\<lparr>mem := ensure_seen (normalizeTeamName team) (mem w)\<rparr>" k' net team]
  by (simp add: pollTeam_after)

lemma pollTeam_consistent:
  "consistent w \<Longrightarrow> consistent (after (pollTeam net up team w))"
  by (simp add: pollTeam_after pollTeam_loop_consistent consistent_ensure)

lemma job_each_Cons:
  "job_each net up (t # ts) w =
     \<lparr>trace = trace (pollTeam net (up t) t w) @
        (if thrown (pollTeam net (up t) t w) = None then [] else [Log CycleFailed]) @
        trace (job_each net up ts (after (pollTeam net (up t) t w))),
      after = after (job_each net up ts (after (pollTeam net (up t) t w))),
      thrown = None,
      late = late (pollTeam net (up t) t w) @
        late (job_each net up ts (after (pollTeam net (up t) t w)))\<rparr>"
  by (simp add: Let_def split: option.splits)

lemma api_poll_each_Cons:
  "api_poll_each net up (t # ts) w =
     (if thrown (pollTeam net (up t) t w) \<noteq> None then pollTeam net (up t) t w
      else
        \<lparr>trace = trace (pollTeam net (up t) t w) @
           trace (api_poll_each net up ts (after (pollTeam net (up t) t w))),
         after = after (api_poll_each net up ts (after (pollTeam net (up t) t w))),
         thrown = thrown (api_poll_each net up ts (after (pollTeam net (up t) t w))),
         late = late (pollTeam net (up t) t w) @
           late (api_poll_each net up ts (after (pollTeam net (up t) t w)))\<rparr>)"
  by (simp add: Let_def split: option.splits)

declare job_each.simps(2) [simp del]
declare api_poll_each.simps(2) [simp del]

lemma job_each_net:
  "trace (job_each net up ts w) = trace (job_each net' up ts w) \<and>
   after (job_each net up ts w) = after (job_each net' up ts w)"
proof (induction ts arbitrary: w)
  case Nil
  show ?case by simp
next
  case (Cons t ts)
  show ?case
    using pollTeam_net [of net "up t" t w net'] Cons.IH
    by (simp add: job_each_Cons)
qed

lemma api_poll_each_net:
  "trace (api_poll_each net up ts w) = trace (api_poll_each net' up ts w) \<and>
   after (api_poll_each net up ts w) = after (api_poll_each net' up ts w)"
proof (induction ts arbitrary: w)
  case Nil
  show ?case by simp
next
  case (Cons t ts)
  show ?case
    using pollTeam_net [of net "up t" t w net'] Cons.IH
    by (simp add: api_poll_each_Cons)
qed

lemma job_each_seen:
  "prefix (seen_of (mem w) k) (seen_of (mem (after (job_each net up ts w))) k)"
proof (induction ts arbitrary: w)
  case Nil
  show ?case by simp
next
  case (Cons t ts)
  show ?case
    using pollTeam_seen [of w k net "up t" t]
      Cons.IH [of "after (pollTeam net (up t) t w)"]
    by (auto simp: job_each_Cons dest: prefix_order.trans)
qed

lemma api_poll_each_seen:
  "prefix (seen_of (mem w) k) (seen_of (mem (after (api_poll_each net up ts w))) k)"
proof (induction ts arbitrary: w)
  case Nil
  show ?case by simp
next
  case (Cons t ts)
  show ?case
    using pollTeam_seen [of w k net "up t" t]
      Cons.IH [of "after (pollTeam net (up t) t w)"]
    by (auto simp: api_poll_each_Cons dest: prefix_order.trans)
qed

lemma job_each_consistent:
  "consistent w \<Longrightarrow> consistent (after (job_each net up ts w))"
proof (induction ts arbitrary: w)
  case Nil
  then show ?case by simp
next
  case (Cons t ts)
  then show ?case
    by (simp add: job_each_Cons pollTeam_consistent)
qed

lemma api_poll_each_consistent:
  "consistent w \<Longrightarrow> consistent (after (api_poll_each net up ts w))"
proof (induction ts arbitrary: w)
  case Nil
  then show ?case by simp
next
  case (Cons t ts)
  then show ?case
    by (simp add: api_poll_each_Cons pollTeam_consistent)
qed

lemma api_subscribe_seen:
  "seen_of (mem (snd (api_subscribe team webhook now w))) k = seen_of (mem w) k"
  by (simp add: api_subscribe_def Let_def saveDB_def seen_of_def)

lemma api_subscribe_consistent:
  "consistent w \<Longrightarrow> consistent (snd (api_subscribe team webhook now w))"
  by (simp add: api_subscribe_def Let_def consistent_saveDB)

lemma api_unsubscribe_seen:
  "seen_of (mem (snd (api_unsubscribe team webhook w))) k = seen_of (mem w) k"
  by (simp add: api_unsubscribe_def Let_def saveDB_def seen_of_def)

lemma api_unsubscribe_consistent:
  "consistent w \<Longrightarrow> consistent (snd (api_unsubscribe team webhook w))"
  by (simp add: api_unsubscribe_def Let_def consistent_saveDB)

lemma api_exec_seen:
  "consistent w \<Longrightarrow> prefix (seen_of (mem w) k) (seen_of (mem (after (api_exec net r w))) k)"
  by (cases r)
    (simp_all add: api_subscribe_seen api_unsubscribe_seen api_job_def api_poll_now_def
      job_each_seen api_poll_each_seen restart_seen)

lemma api_exec_consistent: "consistent w \<Longrightarrow> consistent (after (api_exec net r w))"
  by (cases r)
    (simp_all add: api_subscribe_consistent api_unsubscribe_consistent api_job_def
      api_poll_now_def job_each_consistent api_poll_each_consistent restart_consistent)

lemma api_run_Cons:
  "api_run net (r # rs) w =
     \<lparr>trace = trace (api_exec net r w) @ trace (api_run net rs (after (api_exec net r w))),
      after = after (api_run net rs (after (api_exec net r w))), thrown = None,
      late = late (api_exec net r w) @ late (api_run net rs (after (api_exec net r w)))\<rparr>"
  by (simp add: Let_def)

declare api_run.simps(2) [simp del]

lemma api_run_seen:
  "consistent w \<Longrightarrow> prefix (seen_of (mem w) k) (seen_of (mem (after (api_run net rs w))) k)"
proof (induction rs arbitrary: w)
  case Nil
  show ?case by simp
next
  case (Cons r rs)
  have "prefix (seen_of (mem w) k) (seen_of (mem (after (api_exec net r w))) k)"
    using Cons.prems by (rule api_exec_seen)
  moreover have "prefix (seen_of (mem (after (api_exec net r w))) k)
      (seen_of (mem (after (api_run net rs (after (api_exec net r w))))) k)"
    using Cons.prems by (intro Cons.IH api_exec_consistent)
  ultimately show ?case
    by (simp add: api_run_Cons)
qed

lemma api_run_consistent: "consistent w \<Longrightarrow> consistent (after (api_run net rs w))"
proof (induction rs arbitrary: w)
  case Nil
  then show ?case by simp
next
  case (Cons r rs)
  then show ?case
    by (simp add: api_run_Cons api_exec_consistent)
qed

lemma api_exec_net:
  "trace (api_exec net r w) = trace (api_exec net' r w) \<and>
   after (api_exec net r w) = after (api_exec net' r w)"
  using api_poll_each_net [of net _ _ w net'] job_each_net [of net _ _ w net']
  by (cases r) (simp_all add: api_job_def api_poll_now_def)

lemma api_run_net:
  "trace (api_run net rs w) = trace (api_run net' rs w) \<and>
   after (api_run net rs w) = after (api_run net' rs w)"
proof (induction rs arbitrary: w)
  case Nil
  show ?case by simp
next
  case (Cons r rs)
  show ?case
    using api_exec_net [of net r w net'] Cons.IH
    by (simp add: api_run_Cons)
qed

section \<open>The worked example\<close>

lemma seen_of_empty: "seen_of \<lparr>subscriptions = subs, seenMatches = Map.empty\<rparr> k = []"
  by (simp add: seen_of_def)

lemma key_FURIA: "normalizeTeamName ''FURIA'' = ''furia''"
  by code_simp

lemma key_furia: "normalizeTeamName ''furia'' = ''furia''"
  by code_simp

lemma key_Imperial: "normalizeTeamName ''Imperial'' = ''imperial''"
  by code_simp

lemma key_NAVI: "normalizeTeamName ''NAVI'' = ''navi''"
  by code_simp

lemma key_Constructor: "normalizeTeamName ''Constructor'' = ''constructor''"
  by code_simp

lemma cid_furia: "cid furia_candidate = ''12345''"
  by (simp add: furia_candidate_def)

lemma cid_navi: "cid navi_candidate = ''67890''"
  by (simp add: navi_candidate_def)

lemma anchor_id_navi: "anchor_id navi_link = Some ''67890''"
  by (simp add: anchor_id_def navi_link_def regex_defs)

lemma build_navi: "build navi_link ''67890'' = navi_candidate"
  by (simp add: build_def navi_link_def navi_candidate_def href_text_def regex_defs Let_def)

lemma extract_two: "extractMatchesFromHtml [furia_link, navi_link] = [furia_candidate, navi_candidate]"
  by (simp add: extractMatchesFromHtml_def visit_def anchor_id_furia build_furia anchor_id_navi
      build_navi cid_furia)

lemma not_inherited_FURIA: "\<not> inherited ''FURIA''"
  by (simp add: inherited_def)

lemma not_inherited_furia: "\<not> inherited ''furia''"
  by (simp add: inherited_def)

lemma inherited_constructor: "inherited ''constructor''"
  by (simp add: inherited_def)

lemma not_inherited_Constructor: "\<not> inherited ''Constructor''"
  by (simp add: inherited_def)

lemma furia_world_eq:
  "furia_world =
     \<lparr>mem = \<lparr>subscriptions = [(''FURIA'', [''R1''])], seenMatches = Map.empty\<rparr>,
      disk = Stored \<lparr>subscriptions = [(''FURIA'', [''R1''])], seenMatches = Map.empty\<rparr>,
      sent = 0\<rparr>"
  by (simp add: furia_world_def subscribe_def fresh_def load_db_def saveDB_def Let_def lookup_def
      not_inherited_FURIA)

lemma both_world_eq:
  "both_world =
     \<lparr>mem = \<lparr>subscriptions = [(''FURIA'', [''R1'']), (''furia'', [''R2''])],
             seenMatches = Map.empty\<rparr>,
      disk = Stored \<lparr>subscriptions = [(''FURIA'', [''R1'']), (''furia'', [''R2''])],
                      seenMatches = Map.empty\<rparr>,
      sent = 0\<rparr>"
  by (simp add: both_world_def furia_world_eq subscribe_def saveDB_def Let_def lookup_def
      not_inherited_furia)

lemma pair_world_eq:
  "pair_world =
     \<lparr>mem = \<lparr>subscriptions = [(''FURIA'', [''R1'', ''R2''])], seenMatches = Map.empty\<rparr>,
      disk = Stored \<lparr>subscriptions = [(''FURIA'', [''R1'', ''R2''])], seenMatches = Map.empty\<rparr>,
      sent = 0\<rparr>"
  by (simp add: pair_world_def furia_world_eq subscribe_def saveDB_def Let_def lookup_def)

lemma shadow_world_eq:
  "shadow_world =
     \<lparr>mem = \<lparr>subscriptions = [(''Constructor'', [''R1''])], seenMatches = Map.empty\<rparr>,
      disk = Stored \<lparr>subscriptions = [(''Constructor'', [''R1''])], seenMatches = Map.empty\<rparr>,
      sent = 0\<rparr>"
  by (simp add: shadow_world_def subscribe_def fresh_def load_db_def saveDB_def Let_def lookup_def
      not_inherited_Constructor)

lemma api_world_eq:
  "api_world =
     \<lparr>mem = \<lparr>subscriptions =
               [\<lparr>s_team = ''FURIA'', s_webhook = ''R1'',
                 createdAt = ''2025-01-01T10:00:00.000Z''\<rparr>],
             seenMatches = Map.empty\<rparr>,
      disk = Stored \<lparr>subscriptions =
               [\<lparr>s_team = ''FURIA'', s_webhook = ''R1'',
                 createdAt = ''2025-01-01T10:00:00.000Z''\<rparr>],
             seenMatches = Map.empty\<rparr>,
      sent = 0\<rparr>"
  by (simp add: api_world_def api_subscribe_def fresh_def load_db_def saveDB_def Let_def
      trim_def isWhiteSpace_def)

lemma api_world_twice_eq:
  "api_world_twice =
     \<lparr>mem = \<lparr>subscriptions =
               [\<lparr>s_team = ''FURIA'', s_webhook = ''R1'',
                 createdAt = ''2025-01-01T10:00:00.000Z''\<rparr>,
                \<lparr>s_team = ''FURIA'', s_webhook = ''R1'',
                 createdAt = ''2025-01-01T10:05:00.000Z''\<rparr>],
             seenMatches = Map.empty\<rparr>,
      disk = Stored \<lparr>subscriptions =
               [\<lparr>s_team = ''FURIA'', s_webhook = ''R1'',
                 createdAt = ''2025-01-01T10:00:00.000Z''\<rparr>,
                \<lparr>s_team = ''FURIA'', s_webhook = ''R1'',
                 createdAt = ''2025-01-01T10:05:00.000Z''\<rparr>],
             seenMatches = Map.empty\<rparr>,
      sent = 0\<rparr>"
  by (simp add: api_world_twice_def api_world_eq api_subscribe_def saveDB_def Let_def
      trim_def isWhiteSpace_def)

lemma api_pair_world_eq:
  "api_pair_world =
     \<lparr>mem = \<lparr>subscriptions =
               [\<lparr>s_team = ''FURIA'', s_webhook = ''R1'',
                 createdAt = ''2025-01-01T10:00:00.000Z''\<rparr>,
                \<lparr>s_team = ''FURIA'', s_webhook = ''R2'',
                 createdAt = ''2025-01-01T10:05:00.000Z''\<rparr>],
             seenMatches = Map.empty\<rparr>,
      disk = Stored \<lparr>subscriptions =
               [\<lparr>s_team = ''FURIA'', s_webhook = ''R1'',
                 createdAt = ''2025-01-01T10:00:00.000Z''\<rparr>,
                \<lparr>s_team = ''FURIA'', s_webhook = ''R2'',
                 createdAt = ''2025-01-01T10:05:00.000Z''\<rparr>],
             seenMatches = Map.empty\<rparr>,
      sent = 0\<rparr>"
  by (simp add: api_pair_world_def api_world_eq api_subscribe_def saveDB_def Let_def
      trim_def isWhiteSpace_def)

lemma furia_matches_FURIA:
  "getMatchesForTeam (Html [furia_link]) ''FURIA'' = ([furia_candidate], [])"
  by (simp add: getMatchesForTeam_def extract_furia matches_team_def key_FURIA key_Imperial
      furia_candidate_def)

lemma furia_matches_furia:
  "getMatchesForTeam (Html [furia_link]) ''furia'' = ([furia_candidate], [])"
  by (simp add: getMatchesForTeam_def extract_furia matches_team_def key_furia key_FURIA
      key_Imperial furia_candidate_def)

lemma two_matches_FURIA:
  "getMatchesForTeam (Html [furia_link, navi_link]) ''FURIA'' = ([furia_candidate, navi_candidate], [])"
  by (simp add: getMatchesForTeam_def extract_two matches_team_def key_FURIA key_Imperial key_NAVI
      furia_candidate_def navi_candidate_def)

lemma api_matches_FURIA:
  "fetchUpcomingMatches (Matches [furia_match]) ''FURIA'' = ([furia_match], [])"
  by (simp add: fetchUpcomingMatches_def api_matches_team_def furia_match_def key_FURIA
      key_Imperial)

lemma api_two_FURIA:
  "fetchUpcomingMatches (Matches [furia_match, navi_match]) ''FURIA'' = ([furia_match, navi_match], [])"
  by (simp add: fetchUpcomingMatches_def api_matches_team_def furia_match_def navi_match_def
      key_FURIA key_Imperial key_NAVI)

lemma api_bare_FURIA:
  "fetchUpcomingMatches (Matches [furia_match\<lparr>m_event := None\<rparr>, navi_match]) ''FURIA'' =
     ([furia_match\<lparr>m_event := None\<rparr>, navi_match], [])"
  by (simp add: fetchUpcomingMatches_def api_matches_team_def furia_match_def navi_match_def
      key_FURIA key_Imperial key_NAVI)

lemmas store_defs =
  ensure_seen_def lookup_def isNew_def seen_of_def subs_iter_def subs_for_def commit_def
  saveDB_def not_inherited_FURIA not_inherited_furia findSubscriptionsForTeam_def

lemma cycle_furia:
  "trace (notifyNewMatchesForTeam delivered (furia_page ''FURIA'') ''FURIA'' furia_world) =
     [Commit ''furia'' ''12345'', Post ''R1'' ''FURIA'' furia_candidate,
      Log (Notified ''R1'' ''FURIA'')]"
  by (simp add: notify_trace furia_page_def furia_matches_FURIA key_FURIA notify_loop_Cons
      cid_furia furia_world_eq store_defs delivered_def)

lemma cycle_furia_refused:
  "trace (notifyNewMatchesForTeam refused (furia_page ''FURIA'') ''FURIA'' furia_world) =
     [Commit ''furia'' ''12345'', Post ''R1'' ''FURIA'' furia_candidate,
      Log (SendFailed ''R1'')]"
  by (simp add: notify_trace furia_page_def furia_matches_FURIA key_FURIA notify_loop_Cons
      cid_furia furia_world_eq store_defs refused_def)

lemma api_cycle_refused:
  "trace (pollTeam refused (furia_list ''FURIA'') ''FURIA'' api_world) =
     [Log (PollingTeam ''FURIA''), Commit ''furia'' ''12345'', Log (Sending ''R1''),
      Post ''R1'' ''FURIA'' furia_match] \<and>
   late (pollTeam refused (furia_list ''FURIA'') ''FURIA'' api_world) = [SendFailed ''R1'']"
  by (simp add: pollTeam_trace pollTeam_late furia_list_def api_matches_FURIA key_FURIA
      pollTeam_loop_Cons api_world_eq store_defs refused_def send_all_after)
    (simp add: furia_match_def)

section \<open>The order of commit and delivery\<close>

text \<open>
  A match that comes without its event is committed as well, before line 102 raises the
  exception: it gets no delivery, in this cycle or a later one, and the remaining matches of
  the cycle are left for the next cycle.
\<close>

lemma match_without_event:
  "trace (api_run delivered [AJob bare_list, AJob bare_list] api_world) =
     [Log (PollingTeam ''FURIA''), Commit ''furia'' ''12345'', Log CycleFailed,
      Log (PollingTeam ''FURIA''), Commit ''furia'' ''67890'', Log (Sending ''R1''),
      Post ''R1'' ''FURIA'' navi_match]"
proof -
  let ?subs = "[\<lparr>s_team = ''FURIA'', s_webhook = ''R1'', createdAt = ''2025-01-01T10:00:00.000Z''\<rparr>]"
  let ?d1 = "\<lparr>subscriptions = ?subs, seenMatches = [''furia'' \<mapsto> [''12345'']]\<rparr>"
  let ?w1 = "\<lparr>mem = ?d1, disk = Stored ?d1, sent = 0\<rparr>"
  have p1: "pollTeam delivered (bare_list ''FURIA'') ''FURIA'' api_world =
      \<lparr>trace = [Log (PollingTeam ''FURIA''), Commit ''furia'' ''12345''], after = ?w1,
       thrown = Some TypeError, late = []\<rparr>"
    by (simp add: pollTeam_def bare_list_def api_bare_FURIA key_FURIA)
      (simp add: pollTeam_loop_Cons furia_match_def api_world_eq store_defs Let_def)
  have p2: "trace (pollTeam delivered (bare_list ''FURIA'') ''FURIA'' ?w1) =
      [Log (PollingTeam ''FURIA''), Commit ''furia'' ''67890'', Log (Sending ''R1''),
       Post ''R1'' ''FURIA'' navi_match] \<and>
      thrown (pollTeam delivered (bare_list ''FURIA'') ''FURIA'' ?w1) = None"
    by (simp add: pollTeam_def bare_list_def api_bare_FURIA key_FURIA)
      (simp add: pollTeam_loop_Cons furia_match_def navi_match_def store_defs Let_def)
  have u: "uniq [''FURIA''] = [''FURIA'']"
    by (simp add: uniq_def)
  have s: "subscriptions (mem api_world) = ?subs"
    by (simp add: api_world_eq)
  have j1: "api_job delivered bare_list api_world =
      \<lparr>trace = [Log (PollingTeam ''FURIA''), Commit ''furia'' ''12345'', Log CycleFailed],
       after = ?w1, thrown = None, late = []\<rparr>"
    by (simp add: api_job_def s u job_each_Cons p1)
  have j2: "trace (api_job delivered bare_list ?w1) =
      [Log (PollingTeam ''FURIA''), Commit ''furia'' ''67890'', Log (Sending ''R1''),
       Post ''R1'' ''FURIA'' navi_match]"
    by (simp add: api_job_def u job_each_Cons p2)
  show ?thesis
    by (simp add: api_run_Cons j1 j2)
qed

text \<open>
  A team whose key is the name of a property that every object inherits has no list of
  seen ids: the check at line 97 of \<open>index.js\<close> raises an exception at the first match of
  the team, and nothing is committed or delivered.
\<close>

lemma inherited_key_commits_nothing:
  "notify_loop net ''Constructor'' ''constructor'' (m # ms)
     (shadow_world\<lparr>mem := ensure_seen ''constructor'' (mem shadow_world)\<rparr>) =
     \<lparr>trace = [], after = shadow_world, thrown = Some TypeError\<rparr>"
  by (simp add: notify_loop_Cons shadow_world_eq ensure_seen_def lookup_def inherited_constructor)

text \<open>
  C1, as the code has it. In both files a new match is committed first: its id is pushed on
  the team's list and the file is written, and only then a delivery is attempted for every
  current subscription of the team, whatever the outcomes; the remaining matches follow.
  In the trace of one team's cycle every delivery attempt comes after the commit of its
  match id under its team's key, and at every delivery attempt the list in the variable and
  the list in the file hold the id; a commit puts the id on both lists, and the cycle leaves
  the store with what its commits wrote.
  The order of one match is stated for a team key that has its list, in \<open>index.js\<close> for a
  team whose subscriptions can be iterated, in the other file for a match that carries its
  event.
\<close>

theorem commit_precedes_delivery:
  "commits_first cid [] (trace (notifyNewMatchesForTeam net up team w)) \<and>
   committed_at_posts cid (w\<lparr>mem := ensure_seen (normalizeTeamName team) (mem w)\<rparr>)
     (trace (notifyNewMatchesForTeam net up team w)) \<and>
   mem (after (notifyNewMatchesForTeam net up team w)) =
     mem (store_after (w\<lparr>mem := ensure_seen (normalizeTeamName team) (mem w)\<rparr>)
            (trace (notifyNewMatchesForTeam net up team w))) \<and>
   disk (after (notifyNewMatchesForTeam net up team w)) =
     disk (store_after (w\<lparr>mem := ensure_seen (normalizeTeamName team) (mem w)\<rparr>)
            (trace (notifyNewMatchesForTeam net up team w))) \<and>
   commits_first m_id [] (trace (pollTeam net aup team aw)) \<and>
   committed_at_posts m_id (aw\<lparr>mem := ensure_seen (normalizeTeamName team) (mem aw)\<rparr>)
     (trace (pollTeam net aup team aw)) \<and>
   mem (after (pollTeam net aup team aw)) =
     mem (store_after (aw\<lparr>mem := ensure_seen (normalizeTeamName team) (mem aw)\<rparr>)
            (trace (pollTeam net aup team aw))) \<and>
   disk (after (pollTeam net aup team aw)) =
     disk (store_after (aw\<lparr>mem := ensure_seen (normalizeTeamName team) (mem aw)\<rparr>)
            (trace (pollTeam net aup team aw))) \<and>
   (seenMatches (mem w) k \<noteq> None \<and> isNew (mem w) k (cid m) \<and> subs_iter (mem w) team \<noteq> None \<longrightarrow>
      effects (trace (notify_loop net team k (m # ms) w)) =
        Commit k (cid m) # map (\<lambda>webhook. Post webhook team m) (subs_for (mem w) team) @
        effects (trace (notify_loop net team k ms
          ((commit k (cid m) w)\<lparr>sent := sent w + length (subs_for (mem w) team)\<rparr>)))) \<and>
   (seenMatches (mem aw) k \<noteq> None \<and> isNew (mem aw) k (m_id am) \<and> m_event am \<noteq> None \<longrightarrow>
      effects (trace (pollTeam_loop net team k (am # ams) aw)) =
        Commit k (m_id am) #
        map (\<lambda>s. Post (s_webhook s) (s_team s) am) (findSubscriptionsForTeam (mem aw) team) @
        effects (trace (pollTeam_loop net team k ams
          ((commit k (m_id am) aw)
             \<lparr>sent := sent aw + length (findSubscriptionsForTeam (mem aw) team)\<rparr>)))) \<and>
   i \<in> set (seen_of (mem (commit k i w)) k) \<and> i \<in> set (disk_seen (disk (commit k i w)) k) \<and>
   i \<in> set (seen_of (mem (commit k i aw)) k) \<and> i \<in> set (disk_seen (disk (commit k i aw)) k)"
proof -
  have a: "seenMatches (mem w) k \<noteq> None \<and> isNew (mem w) k (cid m) \<and> subs_iter (mem w) team \<noteq> None \<longrightarrow>
      effects (trace (notify_loop net team k (m # ms) w)) =
        Commit k (cid m) # map (\<lambda>webhook. Post webhook team m) (subs_for (mem w) team) @
        effects (trace (notify_loop net team k ms
          ((commit k (cid m) w)\<lparr>sent := sent w + length (subs_for (mem w) team)\<rparr>)))"
    by (auto simp: notify_loop_Cons post_all_effects)
  have b: "seenMatches (mem aw) k \<noteq> None \<and> isNew (mem aw) k (m_id am) \<and> m_event am \<noteq> None \<longrightarrow>
      effects (trace (pollTeam_loop net team k (am # ams) aw)) =
        Commit k (m_id am) #
        map (\<lambda>s. Post (s_webhook s) (s_team s) am) (findSubscriptionsForTeam (mem aw) team) @
        effects (trace (pollTeam_loop net team k ams
          ((commit k (m_id am) aw)
             \<lparr>sent := sent aw + length (findSubscriptionsForTeam (mem aw) team)\<rparr>)))"
    by (auto simp: pollTeam_loop_Cons send_all_effects send_all_after)
  have c: "i \<in> set (seen_of (mem (commit k i v)) k) \<and> i \<in> set (disk_seen (disk (commit k i v)) k)"
    for v :: "'s world"
    by (simp add: disk_commit disk_seen_def seen_of_commit)
  show ?thesis
    using notify_committed_at_posts [where w = w and team = team and net = net and up = up]
      pollTeam_committed_at_posts [where w = aw and team = team and net = net and up = aup]
      notify_commits_first [where ?done = "[]" and net = net and up = up and team = team and w = w]
      pollTeam_commits_first [where ?done = "[]" and net = net and up = aup and team = team and w = aw]
      a b c [of w] c [of aw]
    by (simp only: simp_thms)
qed

lemma ready_world_eq:
  "ready_world =
     \<lparr>mem = \<lparr>subscriptions = [(''FURIA'', [''R1'', ''R2''])], seenMatches = [''furia'' \<mapsto> []]\<rparr>,
      disk = Stored \<lparr>subscriptions = [(''FURIA'', [''R1'', ''R2''])], seenMatches = Map.empty\<rparr>,
      sent = 0\<rparr>"
  by (simp add: ready_world_def pair_world_eq ensure_seen_def lookup_def not_inherited_furia)

lemma api_ready_world_eq:
  "api_ready_world =
     \<lparr>mem = \<lparr>subscriptions =
               [\<lparr>s_team = ''FURIA'', s_webhook = ''R1'',
                 createdAt = ''2025-01-01T10:00:00.000Z''\<rparr>,
                \<lparr>s_team = ''FURIA'', s_webhook = ''R2'',
                 createdAt = ''2025-01-01T10:05:00.000Z''\<rparr>],
             seenMatches = [''furia'' \<mapsto> []]\<rparr>,
      disk = Stored \<lparr>subscriptions =
               [\<lparr>s_team = ''FURIA'', s_webhook = ''R1'',
                 createdAt = ''2025-01-01T10:00:00.000Z''\<rparr>,
                \<lparr>s_team = ''FURIA'', s_webhook = ''R2'',
                 createdAt = ''2025-01-01T10:05:00.000Z''\<rparr>],
             seenMatches = Map.empty\<rparr>,
      sent = 0\<rparr>"
  by (simp add: api_ready_world_def api_pair_world_eq ensure_seen_def lookup_def
      not_inherited_furia)

theorem commit_precedes_delivery_witness:
  "seenMatches (mem ready_world) ''furia'' = Some [] \<and>
   isNew (mem ready_world) ''furia'' (cid furia_candidate) \<and>
   subs_iter (mem ready_world) ''FURIA'' = Some [''R1'', ''R2''] \<and>
   effects (trace (notify_loop first_fails ''FURIA'' ''furia'' [furia_candidate, navi_candidate]
      ready_world)) =
     [Commit ''furia'' ''12345'', Post ''R1'' ''FURIA'' furia_candidate,
      Post ''R2'' ''FURIA'' furia_candidate,
      Commit ''furia'' ''67890'', Post ''R1'' ''FURIA'' navi_candidate,
      Post ''R2'' ''FURIA'' navi_candidate] \<and>
   seenMatches (mem api_ready_world) ''furia'' = Some [] \<and>
   isNew (mem api_ready_world) ''furia'' (m_id furia_match) \<and>
   m_event furia_match = Some ''Major'' \<and>
   effects (trace (pollTeam_loop first_fails ''FURIA'' ''furia'' [furia_match, navi_match]
      api_ready_world)) =
     [Commit ''furia'' ''12345'', Post ''R1'' ''FURIA'' furia_match,
      Post ''R2'' ''FURIA'' furia_match,
      Commit ''furia'' ''67890'', Post ''R1'' ''FURIA'' navi_match,
      Post ''R2'' ''FURIA'' navi_match] \<and>
   commits_first cid []
     (trace (notifyNewMatchesForTeam first_fails (two_page ''FURIA'') ''FURIA'' ready_world)) \<and>
   committed_at_posts m_id
     (api_ready_world\<lparr>mem := ensure_seen (normalizeTeamName ''FURIA'') (mem api_ready_world)\<rparr>)
     (trace (pollTeam first_fails (two_list ''FURIA'') ''FURIA'' api_ready_world))"
proof -
  have h1: "seenMatches (mem ready_world) ''furia'' = Some []"
    by (simp add: ready_world_eq)
  have h2: "isNew (mem ready_world) ''furia'' (cid furia_candidate)"
    by (simp add: ready_world_eq isNew_def seen_of_def)
  have h3: "subs_iter (mem ready_world) ''FURIA'' = Some [''R1'', ''R2'']"
    by (simp add: ready_world_eq subs_iter_def lookup_def)
  have s: "subs_for (mem ready_world) ''FURIA'' = [''R1'', ''R2'']"
    by (simp add: ready_world_eq subs_for_def)
  have a1: "seenMatches (mem api_ready_world) ''furia'' = Some []"
    by (simp add: api_ready_world_eq)
  have a2: "isNew (mem api_ready_world) ''furia'' (m_id furia_match)"
    by (simp add: api_ready_world_eq isNew_def seen_of_def)
  have a3: "m_event furia_match = Some ''Major''"
    by (simp add: furia_match_def)
  have f: "findSubscriptionsForTeam (mem api_ready_world) ''FURIA'' =
      [\<lparr>s_team = ''FURIA'', s_webhook = ''R1'', createdAt = ''2025-01-01T10:00:00.000Z''\<rparr>,
       \<lparr>s_team = ''FURIA'', s_webhook = ''R2'', createdAt = ''2025-01-01T10:05:00.000Z''\<rparr>]"
    by (simp add: api_ready_world_eq findSubscriptionsForTeam_def)
  have r1: "effects (trace (notify_loop first_fails ''FURIA'' ''furia'' [navi_candidate]
      ((commit ''furia'' (cid furia_candidate) ready_world)
         \<lparr>sent := sent ready_world + length (subs_for (mem ready_world) ''FURIA'')\<rparr>))) =
      [Commit ''furia'' ''67890'', Post ''R1'' ''FURIA'' navi_candidate,
       Post ''R2'' ''FURIA'' navi_candidate]"
    by (simp add: notify_loop_Cons cid_furia cid_navi ready_world_eq store_defs)
  have r2: "effects (trace (pollTeam_loop first_fails ''FURIA'' ''furia'' [navi_match]
      ((commit ''furia'' (m_id furia_match) api_ready_world)
         \<lparr>sent := sent api_ready_world +
            length (findSubscriptionsForTeam (mem api_ready_world) ''FURIA'')\<rparr>))) =
      [Commit ''furia'' ''67890'', Post ''R1'' ''FURIA'' navi_match,
       Post ''R2'' ''FURIA'' navi_match]"
    by (simp add: pollTeam_loop_Cons api_ready_world_eq store_defs furia_match_def navi_match_def
        Let_def)
  note t = commit_precedes_delivery [where net = first_fails and up = "two_page ''FURIA''"
      and team = "''FURIA''" and w = ready_world and aup = "two_list ''FURIA''"
      and aw = api_ready_world and k = "''furia''" and m = furia_candidate
      and ms = "[navi_candidate]" and am = furia_match and ams = "[navi_match]"]
  from t h1 h2 h3
  have "effects (trace (notify_loop first_fails ''FURIA'' ''furia''
      [furia_candidate, navi_candidate] ready_world)) =
      Commit ''furia'' (cid furia_candidate) #
      map (\<lambda>webhook. Post webhook ''FURIA'' furia_candidate) (subs_for (mem ready_world) ''FURIA'') @
      effects (trace (notify_loop first_fails ''FURIA'' ''furia'' [navi_candidate]
        ((commit ''furia'' (cid furia_candidate) ready_world)
           \<lparr>sent := sent ready_world + length (subs_for (mem ready_world) ''FURIA'')\<rparr>)))"
    by simp
  then have e1: "effects (trace (notify_loop first_fails ''FURIA'' ''furia''
      [furia_candidate, navi_candidate] ready_world)) =
     [Commit ''furia'' ''12345'', Post ''R1'' ''FURIA'' furia_candidate,
      Post ''R2'' ''FURIA'' furia_candidate,
      Commit ''furia'' ''67890'', Post ''R1'' ''FURIA'' navi_candidate,
      Post ''R2'' ''FURIA'' navi_candidate]"
    by (simp only: r1) (simp add: s cid_furia)
  from t a1 a2 a3
  have "effects (trace (pollTeam_loop first_fails ''FURIA'' ''furia''
      [furia_match, navi_match] api_ready_world)) =
      Commit ''furia'' (m_id furia_match) #
      map (\<lambda>s. Post (s_webhook s) (s_team s) furia_match)
        (findSubscriptionsForTeam (mem api_ready_world) ''FURIA'') @
      effects (trace (pollTeam_loop first_fails ''FURIA'' ''furia'' [navi_match]
        ((commit ''furia'' (m_id furia_match) api_ready_world)
           \<lparr>sent := sent api_ready_world +
              length (findSubscriptionsForTeam (mem api_ready_world) ''FURIA'')\<rparr>)))"
    by simp
  then have e2: "effects (trace (pollTeam_loop first_fails ''FURIA'' ''furia''
      [furia_match, navi_match] api_ready_world)) =
     [Commit ''furia'' ''12345'', Post ''R1'' ''FURIA'' furia_match,
      Post ''R2'' ''FURIA'' furia_match,
      Commit ''furia'' ''67890'', Post ''R1'' ''FURIA'' navi_match,
      Post ''R2'' ''FURIA'' navi_match]"
    by (simp only: r2) (simp add: f, simp add: furia_match_def)
  from t have c1: "commits_first cid []
     (trace (notifyNewMatchesForTeam first_fails (two_page ''FURIA'') ''FURIA'' ready_world))"
    by (rule conjunct1)
  from t have c2: "committed_at_posts m_id
     (api_ready_world\<lparr>mem := ensure_seen (normalizeTeamName ''FURIA'') (mem api_ready_world)\<rparr>)
     (trace (pollTeam first_fails (two_list ''FURIA'') ''FURIA'' api_ready_world))"
    by simp
  from h1 h2 h3 e1 a1 a2 a3 e2 c1 c2 show ?thesis
    by (intro conjI)
qed

theorem commit_precedes_delivery_counterexample:
  "trace (notifyNewMatchesForTeam delivered (furia_page ''FURIA'') ''FURIA'' furia_world) =
     [Commit ''furia'' ''12345'', Post ''R1'' ''FURIA'' furia_candidate,
      Log (Notified ''R1'' ''FURIA'')] \<and>
   trace (pollTeam refused (furia_list ''FURIA'') ''FURIA'' api_world) =
     [Log (PollingTeam ''FURIA''), Commit ''furia'' ''12345'', Log (Sending ''R1''),
      Post ''R1'' ''FURIA'' furia_match] \<and>
   late (pollTeam refused (furia_list ''FURIA'') ''FURIA'' api_world) = [SendFailed ''R1'']"
  using cycle_furia api_cycle_refused by simp

section \<open>Delivery failures\<close>

text \<open>
  C7. A failed delivery is logged and nothing else. In \<open>index.js\<close> the line is written right
  after the attempt and the attempts for the remaining subscriptions follow. In the other
  file the attempts for all subscriptions of a match that carries its event are started one
  after the other, and each failed attempt leaves its line among the lines logged later.
  Whatever the outcomes of the deliveries, a cycle raises the same exception or none, and a
  run of requests and polls makes the same commits and the same delivery attempts in the
  same order and ends in the same state of the variable and of the file.
\<close>

theorem delivery_failure_swallowed:
  "fst (post_all net team m (webhook # subs) n) =
     Post webhook team m # Log (if net n then Notified webhook team else SendFailed webhook) #
     fst (post_all net team m subs (Suc n)) \<and>
   (m_event am \<noteq> None \<longrightarrow>
      trace (send_all net am (s # ss) aw) =
        Log (Sending (s_webhook s)) # Post (s_webhook s) (s_team s) am #
        trace (send_all net am ss (aw\<lparr>sent := Suc (sent aw)\<rparr>)) \<and>
      late (send_all net am (s # ss) aw) =
        (if net (sent aw) then [] else [SendFailed (s_webhook s)]) @
        late (send_all net am ss (aw\<lparr>sent := Suc (sent aw)\<rparr>)) \<and>
      thrown (send_all net am (s # ss) aw) = None) \<and>
   trace (send_all net am ss aw) = trace (send_all net' am ss aw) \<and>
   after (send_all net am ss aw) = after (send_all net' am ss aw) \<and>
   thrown (send_all net am ss aw) = thrown (send_all net' am ss aw) \<and>
   thrown (notifyNewMatchesForTeam net up team w) = thrown (notifyNewMatchesForTeam net' up team w) \<and>
   thrown (pollTeam net aup team aw) = thrown (pollTeam net' aup team aw) \<and>
   after (run net rs w) = after (run net' rs w) \<and>
   effects (trace (run net rs w)) = effects (trace (run net' rs w)) \<and>
   after (api_run net ars aw) = after (api_run net' ars aw) \<and>
   trace (api_run net ars aw) = trace (api_run net' ars aw)"
proof -
  have a: "m_event am \<noteq> None \<longrightarrow>
      trace (send_all net am (s # ss) aw) =
        Log (Sending (s_webhook s)) # Post (s_webhook s) (s_team s) am #
        trace (send_all net am ss (aw\<lparr>sent := Suc (sent aw)\<rparr>)) \<and>
      late (send_all net am (s # ss) aw) =
        (if net (sent aw) then [] else [SendFailed (s_webhook s)]) @
        late (send_all net am ss (aw\<lparr>sent := Suc (sent aw)\<rparr>)) \<and>
      thrown (send_all net am (s # ss) aw) = None"
    by (auto simp: Let_def send_all_thrown)
  have b: "fst (post_all net team m (webhook # subs) n) =
     Post webhook team m # Log (if net n then Notified webhook team else SendFailed webhook) #
     fst (post_all net team m subs (Suc n))"
    by (simp add: case_prod_beta)
  show ?thesis
    using a b run_net [of net rs w net'] api_run_net [of net ars aw net']
      send_all_net [of net am ss aw net'] notify_net [of net up team w net']
      pollTeam_net [of net aup team aw net']
    by (simp only: simp_thms)
qed

theorem delivery_failure_swallowed_witness:
  "trace (run first_fails [CronTick two_page] pair_world) =
     [Log (PollingFor [''FURIA'']),
      Commit ''furia'' ''12345'',
      Post ''R1'' ''FURIA'' furia_candidate, Log (SendFailed ''R1''),
      Post ''R2'' ''FURIA'' furia_candidate, Log (Notified ''R2'' ''FURIA''),
      Commit ''furia'' ''67890'',
      Post ''R1'' ''FURIA'' navi_candidate, Log (Notified ''R1'' ''FURIA''),
      Post ''R2'' ''FURIA'' navi_candidate, Log (Notified ''R2'' ''FURIA'')] \<and>
   effects (trace (run delivered [CronTick two_page] pair_world)) =
     [Commit ''furia'' ''12345'',
      Post ''R1'' ''FURIA'' furia_candidate, Post ''R2'' ''FURIA'' furia_candidate,
      Commit ''furia'' ''67890'',
      Post ''R1'' ''FURIA'' navi_candidate, Post ''R2'' ''FURIA'' navi_candidate] \<and>
   after (run delivered [CronTick two_page] pair_world) =
     after (run first_fails [CronTick two_page] pair_world) \<and>
   seen_of (mem (after (run first_fails [CronTick two_page] pair_world))) ''furia'' =
     [''12345'', ''67890''] \<and>
   m_event furia_match = Some ''Major'' \<and>
   trace (send_all first_fails furia_match (subscriptions (mem api_pair_world)) api_pair_world) =
     [Log (Sending ''R1''), Post ''R1'' ''FURIA'' furia_match,
      Log (Sending ''R2''), Post ''R2'' ''FURIA'' furia_match] \<and>
   late (send_all first_fails furia_match (subscriptions (mem api_pair_world)) api_pair_world) =
     [SendFailed ''R1''] \<and>
   trace (api_run first_fails [AJob two_list] api_pair_world) =
     [Log (PollingTeam ''FURIA''),
      Commit ''furia'' ''12345'',
      Log (Sending ''R1''), Post ''R1'' ''FURIA'' furia_match,
      Log (Sending ''R2''), Post ''R2'' ''FURIA'' furia_match,
      Commit ''furia'' ''67890'',
      Log (Sending ''R1''), Post ''R1'' ''FURIA'' navi_match,
      Log (Sending ''R2''), Post ''R2'' ''FURIA'' navi_match] \<and>
   late (api_run first_fails [AJob two_list] api_pair_world) = [SendFailed ''R1''] \<and>
   trace (api_run delivered [AJob two_list] api_pair_world) =
     trace (api_run first_fails [AJob two_list] api_pair_world) \<and>
   after (api_run delivered [AJob two_list] api_pair_world) =
     after (api_run first_fails [AJob two_list] api_pair_world) \<and>
   seen_of (mem (after (api_run first_fails [AJob two_list] api_pair_world))) ''furia'' =
     [''12345'', ''67890'']"
proof -
  let ?s1 = "\<lparr>s_team = ''FURIA'', s_webhook = ''R1'', createdAt = ''2025-01-01T10:00:00.000Z''\<rparr>"
  let ?s2 = "\<lparr>s_team = ''FURIA'', s_webhook = ''R2'', createdAt = ''2025-01-01T10:05:00.000Z''\<rparr>"
  have k: "object_keys (subscriptions (mem pair_world)) = [''FURIA'']"
    by (simp add: pair_world_eq object_keys_def isArrayIndex_def isDigit_def)
  have c: "notifyNewMatchesForTeam first_fails (two_page ''FURIA'') ''FURIA'' pair_world =
      \<lparr>trace =
         [Commit ''furia'' ''12345'',
          Post ''R1'' ''FURIA'' furia_candidate, Log (SendFailed ''R1''),
          Post ''R2'' ''FURIA'' furia_candidate, Log (Notified ''R2'' ''FURIA''),
          Commit ''furia'' ''67890'',
          Post ''R1'' ''FURIA'' navi_candidate, Log (Notified ''R1'' ''FURIA''),
          Post ''R2'' ''FURIA'' navi_candidate, Log (Notified ''R2'' ''FURIA'')],
       after =
         \<lparr>mem = \<lparr>subscriptions = [(''FURIA'', [''R1'', ''R2''])],
                 seenMatches = [''furia'' \<mapsto> [''12345'', ''67890'']]\<rparr>,
          disk = Stored \<lparr>subscriptions = [(''FURIA'', [''R1'', ''R2''])],
                 seenMatches = [''furia'' \<mapsto> [''12345'', ''67890'']]\<rparr>,
          sent = 4\<rparr>,
       thrown = None\<rparr>"
    by (simp add: notifyNewMatchesForTeam_def two_page_def two_matches_FURIA key_FURIA
        notify_loop_Cons cid_furia cid_navi pair_world_eq store_defs first_fails_def Let_def)
  have r: "trace (run first_fails [CronTick two_page] pair_world) =
     [Log (PollingFor [''FURIA'']),
      Commit ''furia'' ''12345'',
      Post ''R1'' ''FURIA'' furia_candidate, Log (SendFailed ''R1''),
      Post ''R2'' ''FURIA'' furia_candidate, Log (Notified ''R2'' ''FURIA''),
      Commit ''furia'' ''67890'',
      Post ''R1'' ''FURIA'' navi_candidate, Log (Notified ''R1'' ''FURIA''),
      Post ''R2'' ''FURIA'' navi_candidate, Log (Notified ''R2'' ''FURIA'')]"
    by (simp add: run_Cons cron_tick_def k cron_each_Cons c)
  have rs: "seen_of (mem (after (run first_fails [CronTick two_page] pair_world))) ''furia'' =
     [''12345'', ''67890'']"
    by (simp add: run_Cons cron_tick_def k cron_each_Cons c seen_of_def)
  have ev: "m_event furia_match = Some ''Major''"
    by (simp add: furia_match_def)
  have subs: "subscriptions (mem api_pair_world) = [?s1, ?s2]"
    by (simp add: api_pair_world_eq)
  have u: "uniq (map s_team (subscriptions (mem api_pair_world))) = [''FURIA'']"
    by (simp add: subs uniq_def)
  have p: "pollTeam first_fails (two_list ''FURIA'') ''FURIA'' api_pair_world =
      \<lparr>trace =
         [Log (PollingTeam ''FURIA''),
          Commit ''furia'' ''12345'',
          Log (Sending ''R1''), Post ''R1'' ''FURIA'' furia_match,
          Log (Sending ''R2''), Post ''R2'' ''FURIA'' furia_match,
          Commit ''furia'' ''67890'',
          Log (Sending ''R1''), Post ''R1'' ''FURIA'' navi_match,
          Log (Sending ''R2''), Post ''R2'' ''FURIA'' navi_match],
       after =
         \<lparr>mem = \<lparr>subscriptions = [?s1, ?s2],
                 seenMatches = [''furia'' \<mapsto> [''12345'', ''67890'']]\<rparr>,
          disk = Stored \<lparr>subscriptions = [?s1, ?s2],
                 seenMatches = [''furia'' \<mapsto> [''12345'', ''67890'']]\<rparr>,
          sent = 4\<rparr>,
       thrown = None, late = [SendFailed ''R1'']\<rparr>"
    by (simp add: pollTeam_def two_list_def api_two_FURIA key_FURIA)
      (simp add: pollTeam_loop_Cons api_pair_world_eq store_defs first_fails_def furia_match_def
        navi_match_def Let_def)
  have ar: "api_run first_fails [AJob two_list] api_pair_world =
      \<lparr>trace = trace (pollTeam first_fails (two_list ''FURIA'') ''FURIA'' api_pair_world),
       after = after (pollTeam first_fails (two_list ''FURIA'') ''FURIA'' api_pair_world),
       thrown = None,
       late = late (pollTeam first_fails (two_list ''FURIA'') ''FURIA'' api_pair_world)\<rparr>"
    by (simp add: api_run_Cons api_job_def u job_each_Cons p)
  note t = delivery_failure_swallowed [where net = delivered and net' = first_fails
      and team = "''FURIA''" and m = furia_candidate and webhook = "''R1''" and subs = "[''R2'']"
      and n = 0 and am = furia_match and s = ?s1 and ss = "[?s2]" and aw = api_pair_world
      and up = "two_page ''FURIA''" and w = pair_world and aup = "two_list ''FURIA''"
      and rs = "[CronTick two_page]" and ars = "[AJob two_list]"]
  note t' = delivery_failure_swallowed [where net = first_fails and net' = delivered
      and team = "''FURIA''" and m = furia_candidate and webhook = "''R1''" and subs = "[''R2'']"
      and n = 0 and am = furia_match and s = ?s1 and ss = "[?s2]" and aw = api_pair_world
      and up = "two_page ''FURIA''" and w = pair_world and aup = "two_list ''FURIA''"
      and rs = "[CronTick two_page]" and ars = "[AJob two_list]"]
  from t have "effects (trace (run delivered [CronTick two_page] pair_world)) =
      effects (trace (run first_fails [CronTick two_page] pair_world))"
    by simp
  then have e: "effects (trace (run delivered [CronTick two_page] pair_world)) =
     [Commit ''furia'' ''12345'',
      Post ''R1'' ''FURIA'' furia_candidate, Post ''R2'' ''FURIA'' furia_candidate,
      Commit ''furia'' ''67890'',
      Post ''R1'' ''FURIA'' navi_candidate, Post ''R2'' ''FURIA'' navi_candidate]"
    by (simp only: r) simp
  from t have a: "after (run delivered [CronTick two_page] pair_world) =
     after (run first_fails [CronTick two_page] pair_world)"
    by simp
  from t' ev
  have st: "trace (send_all first_fails furia_match [?s1, ?s2] api_pair_world) =
        Log (Sending (s_webhook ?s1)) # Post (s_webhook ?s1) (s_team ?s1) furia_match #
        trace (send_all first_fails furia_match [?s2] (api_pair_world\<lparr>sent := Suc (sent api_pair_world)\<rparr>))"
    and sl: "late (send_all first_fails furia_match [?s1, ?s2] api_pair_world) =
        (if first_fails (sent api_pair_world) then [] else [SendFailed (s_webhook ?s1)]) @
        late (send_all first_fails furia_match [?s2] (api_pair_world\<lparr>sent := Suc (sent api_pair_world)\<rparr>))"
    by simp_all
  have s1: "trace (send_all first_fails furia_match (subscriptions (mem api_pair_world))
        api_pair_world) =
     [Log (Sending ''R1''), Post ''R1'' ''FURIA'' furia_match,
      Log (Sending ''R2''), Post ''R2'' ''FURIA'' furia_match]"
    unfolding subs st by (simp add: ev)
  have s2: "late (send_all first_fails furia_match (subscriptions (mem api_pair_world))
        api_pair_world) = [SendFailed ''R1'']"
    unfolding subs sl by (simp add: ev api_pair_world_eq first_fails_def)
  have at: "trace (api_run first_fails [AJob two_list] api_pair_world) =
     [Log (PollingTeam ''FURIA''),
      Commit ''furia'' ''12345'',
      Log (Sending ''R1''), Post ''R1'' ''FURIA'' furia_match,
      Log (Sending ''R2''), Post ''R2'' ''FURIA'' furia_match,
      Commit ''furia'' ''67890'',
      Log (Sending ''R1''), Post ''R1'' ''FURIA'' navi_match,
      Log (Sending ''R2''), Post ''R2'' ''FURIA'' navi_match]"
    by (simp add: ar p)
  have al: "late (api_run first_fails [AJob two_list] api_pair_world) = [SendFailed ''R1'']"
    by (simp add: ar p)
  have as: "seen_of (mem (after (api_run first_fails [AJob two_list] api_pair_world))) ''furia'' =
     [''12345'', ''67890'']"
    by (simp add: ar p seen_of_def)
  from t have b1: "trace (api_run delivered [AJob two_list] api_pair_world) =
     trace (api_run first_fails [AJob two_list] api_pair_world)"
    by simp
  from t have b2: "after (api_run delivered [AJob two_list] api_pair_world) =
     after (api_run first_fails [AJob two_list] api_pair_world)"
    by simp
  from r e a rs ev s1 s2 at al b1 b2 as show ?thesis
    by (intro conjI)
qed

section \<open>The seen lists only grow\<close>

text \<open>
  C3. In both files the file holds the ids of the variable after every start-up and after
  every write, and from such a state on the list of ids kept for a team key only grows at
  its end, over any sequence of subscription requests, polls and restarts. After a commit
  of an id under a key the check for that id under that key answers that it is not new,
  whatever requests, polls and restarts follow.
\<close>

theorem seen_append_only:
  "consistent (restart e w0) \<and> consistent (saveDB w0) \<and>
   (consistent w \<longrightarrow>
      prefix (seen_of (mem w) k) (seen_of (mem (after (run net rs w))) k) \<and>
      consistent (after (run net rs w))) \<and>
   \<not> isNew (mem (after (run net rs (commit k i w)))) k i \<and>
   (consistent aw \<longrightarrow>
      prefix (seen_of (mem aw) k) (seen_of (mem (after (api_run net ars aw))) k) \<and>
      consistent (after (api_run net ars aw))) \<and>
   \<not> isNew (mem (after (api_run net ars (commit k i aw)))) k i"
proof -
  have "i \<in> set (seen_of (mem (after (run net rs (commit k i w)))) k)"
    using run_seen [OF consistent_commit, of k i w k net rs] set_mono_prefix
    by (fastforce simp: seen_of_commit)
  moreover have "i \<in> set (seen_of (mem (after (api_run net ars (commit k i aw)))) k)"
    using api_run_seen [OF consistent_commit, of k i aw k net ars] set_mono_prefix
    by (fastforce simp: seen_of_commit)
  ultimately show ?thesis
    by (simp add: isNew_def run_seen api_run_seen run_consistent api_run_consistent
        consistent_restart consistent_saveDB)
qed

theorem seen_append_only_witness:
  "consistent furia_world \<and>
   seen_of (mem (after (run delivered [CronTick furia_page] furia_world))) ''furia'' = [''12345''] \<and>
   prefix (seen_of (mem (after (run delivered [CronTick furia_page] furia_world))) ''furia'')
     (seen_of (mem (after (run delivered
        [Restart, CronTick furia_page, PollNow furia_page, Unsubscribe ''FURIA'' ''R1'']
        (after (run delivered [CronTick furia_page] furia_world))))) ''furia'') \<and>
   \<not> isNew (mem (after (run delivered [Restart, CronTick furia_page]
        (commit ''furia'' ''12345'' furia_world)))) ''furia'' ''12345'' \<and>
   consistent api_world \<and>
   \<not> isNew (mem (after (api_run delivered [ARestart, AJob furia_list, APollNow furia_list]
        (commit ''furia'' ''12345'' api_world)))) ''furia'' ''12345''"
proof -
  have c: "consistent furia_world"
    by (simp add: furia_world_eq consistent_def disk_seen_def seen_of_def)
  have ac: "consistent api_world"
    by (simp add: api_world_eq consistent_def disk_seen_def seen_of_def)
  have k: "object_keys (subscriptions (mem furia_world)) = [''FURIA'']"
    by (simp add: furia_world_eq object_keys_def isArrayIndex_def isDigit_def)
  have n: "seen_of (mem (after (notifyNewMatchesForTeam delivered (furia_page ''FURIA'') ''FURIA''
      furia_world))) ''furia'' = [''12345'']"
    by (simp add: notify_after furia_page_def furia_matches_FURIA key_FURIA notify_loop_Cons
        cid_furia furia_world_eq store_defs)
  have s: "seen_of (mem (after (run delivered [CronTick furia_page] furia_world))) ''furia'' =
      [''12345'']"
    by (simp add: run_Cons cron_tick_def k cron_each_Cons Let_def n)
  note t = seen_append_only
  from t [of "[]" furia_world furia_world "''furia''" delivered "[CronTick furia_page]"
      "''12345''" api_world "[]"] c
  have c': "consistent (after (run delivered [CronTick furia_page] furia_world))"
    by blast
  from t [of "[]" furia_world "after (run delivered [CronTick furia_page] furia_world)" "''furia''"
      delivered "[Restart, CronTick furia_page, PollNow furia_page, Unsubscribe ''FURIA'' ''R1'']"
      "''12345''" api_world "[]"] c'
  have "prefix (seen_of (mem (after (run delivered [CronTick furia_page] furia_world))) ''furia'')
     (seen_of (mem (after (run delivered
        [Restart, CronTick furia_page, PollNow furia_page, Unsubscribe ''FURIA'' ''R1'']
        (after (run delivered [CronTick furia_page] furia_world))))) ''furia'')"
    by blast
  moreover from t [of "[]" furia_world furia_world "''furia''" delivered
      "[Restart, CronTick furia_page]" "''12345''" api_world
      "[ARestart, AJob furia_list, APollNow furia_list]"]
  have "\<not> isNew (mem (after (run delivered [Restart, CronTick furia_page]
        (commit ''furia'' ''12345'' furia_world)))) ''furia'' ''12345''"
    and "\<not> isNew (mem (after (api_run delivered [ARestart, AJob furia_list, APollNow furia_list]
        (commit ''furia'' ''12345'' api_world)))) ''furia'' ''12345''"
    by blast+
  ultimately show ?thesis using c ac s by blast
qed

section \<open>Two spellings of one team\<close>

lemma notify_committed:
  assumes "Commit (normalizeTeamName team) i \<in> set (trace (notifyNewMatchesForTeam net up team w))"
  shows "consistent (after (notifyNewMatchesForTeam net up team w)) \<and>
    i \<in> set (seen_of (mem (after (notifyNewMatchesForTeam net up team w))) (normalizeTeamName team))"
proof -
  from assms have "Commit (normalizeTeamName team) i \<in>
      set (trace (notify_loop net team (normalizeTeamName team) (fst (getMatchesForTeam up team))
        (w\<lparr>mem := ensure_seen (normalizeTeamName team) (mem w)\<rparr>)))"
    by (simp add: notify_trace getMatches_no_commit)
  then show ?thesis
    unfolding notify_after by (rule notify_loop_committed)
qed

lemma notify_seen_no_post:
  assumes "i \<in> set (seen_of (mem w) (normalizeTeamName team))"
    and "(webhook, t, m) \<in> set (posts (trace (notifyNewMatchesForTeam net up team w)))"
  shows "cid m \<noteq> i"
proof -
  let ?w0 = "w\<lparr>mem := ensure_seen (normalizeTeamName team) (mem w)\<rparr>"
  have "i \<in> set (seen_of (mem ?w0) (normalizeTeamName team))"
    using assms(1) by simp
  moreover have "(webhook, t, m) \<in> set (posts (trace (notify_loop net team (normalizeTeamName team)
      (fst (getMatchesForTeam up team)) ?w0)))"
    using assms(2) by (simp add: notify_trace getMatches_posts)
  ultimately show ?thesis by (rule notify_loop_seen_no_post)
qed

text \<open>
  C10. In \<open>index.js\<close> the seen list is kept under the normalized team name and the
  subscriptions under the team string as it was sent. When two team strings have the same
  normalized name and a cycle for the first commits a match id, every later cycle for the
  second, whatever requests, polls and restarts lie between, attempts no delivery for that
  id; and a subscription to one of two different team strings leaves the list of the other
  as it was.
\<close>

theorem shared_seen_key:
  "(normalizeTeamName t1 = normalizeTeamName t2 \<and>
    Commit (normalizeTeamName t1) i \<in> set (trace (notifyNewMatchesForTeam net up1 t1 w)) \<and>
    (webhook, t, m) \<in> set (posts (trace (notifyNewMatchesForTeam net' up2 t2
       (after (run net'' rs (after (notifyNewMatchesForTeam net up1 t1 w)))))))
    \<longrightarrow> cid m \<noteq> i) \<and>
   (t1 \<noteq> t2 \<longrightarrow> subs_for (mem (snd (subscribe t1 webhook w))) t2 = subs_for (mem w) t2)"
proof -
  have "cid m \<noteq> i"
    if k: "normalizeTeamName t1 = normalizeTeamName t2"
      and c: "Commit (normalizeTeamName t1) i \<in> set (trace (notifyNewMatchesForTeam net up1 t1 w))"
      and p: "(webhook, t, m) \<in> set (posts (trace (notifyNewMatchesForTeam net' up2 t2
         (after (run net'' rs (after (notifyNewMatchesForTeam net up1 t1 w)))))))"
  proof -
    let ?w1 = "after (notifyNewMatchesForTeam net up1 t1 w)"
    from c have "consistent ?w1" and "i \<in> set (seen_of (mem ?w1) (normalizeTeamName t1))"
      using notify_committed by blast+
    then have "i \<in> set (seen_of (mem (after (run net'' rs ?w1))) (normalizeTeamName t2))"
      using run_seen [of ?w1 "normalizeTeamName t1" net'' rs] set_mono_prefix k by fastforce
    then show ?thesis using p by (rule notify_seen_no_post)
  qed
  then show ?thesis using subs_for_subscribe_other by blast
qed

theorem shared_seen_key_witness:
  "normalizeTeamName ''FURIA'' = normalizeTeamName ''furia'' \<and>
   trace (notifyNewMatchesForTeam delivered (furia_page ''FURIA'') ''FURIA'' both_world) =
     [Commit ''furia'' ''12345'', Post ''R1'' ''FURIA'' furia_candidate,
      Log (Notified ''R1'' ''FURIA'')] \<and>
   subs_for (mem both_world) ''furia'' = [''R2''] \<and>
   (''R2'', ''furia'', furia_candidate) \<notin>
     set (posts (trace (notifyNewMatchesForTeam delivered (furia_page ''furia'') ''furia''
       (after (run delivered [Restart]
          (after (notifyNewMatchesForTeam delivered (furia_page ''FURIA'') ''FURIA'' both_world))))))) \<and>
   subs_for (mem (snd (subscribe ''FURIA'' ''R3'' both_world))) ''furia'' = [''R2'']"
proof -
  have k: "normalizeTeamName ''FURIA'' = normalizeTeamName ''furia''"
    by (simp add: key_FURIA key_furia)
  have c: "trace (notifyNewMatchesForTeam delivered (furia_page ''FURIA'') ''FURIA'' both_world) =
     [Commit ''furia'' ''12345'', Post ''R1'' ''FURIA'' furia_candidate,
      Log (Notified ''R1'' ''FURIA'')]"
    by (simp add: notify_trace furia_page_def furia_matches_FURIA key_FURIA notify_loop_Cons
      cid_furia both_world_eq store_defs delivered_def)
  have s: "subs_for (mem both_world) ''furia'' = [''R2'']"
    by (simp add: both_world_eq subs_for_def)
  note t = shared_seen_key [of "''FURIA''" "''furia''" "''12345''" delivered
      "furia_page ''FURIA''" both_world "''R2''" "''furia''" furia_candidate delivered
      "furia_page ''furia''" delivered "[Restart]"]
  have "Commit (normalizeTeamName ''FURIA'') ''12345'' \<in>
      set (trace (notifyNewMatchesForTeam delivered (furia_page ''FURIA'') ''FURIA'' both_world))"
    by (simp add: c key_FURIA)
  with t k have "(''R2'', ''furia'', furia_candidate) \<notin>
     set (posts (trace (notifyNewMatchesForTeam delivered (furia_page ''furia'') ''furia''
       (after (run delivered [Restart]
          (after (notifyNewMatchesForTeam delivered (furia_page ''FURIA'') ''FURIA'' both_world)))))))"
    using cid_furia by blast
  moreover from shared_seen_key [of "''FURIA''" "''furia''" _ _ _ both_world "''R3''"] s
  have "subs_for (mem (snd (subscribe ''FURIA'' ''R3'' both_world))) ''furia'' = [''R2'']"
    by simp
  ultimately show ?thesis using k c s by blast
qed

section \<open>A failed request to the match source\<close>

lemma same_store_refl [simp]: "same_store d d"
  by (simp add: same_store_def)

lemma same_world_refl [simp]: "same_world w w"
  by (cases "disk w") (simp_all add: same_world_def)

lemma same_world_commit: "same_world w w' \<Longrightarrow> same_world (commit k i w) (commit k i w')"
  by (simp add: same_world_def same_store_def seen_of_commit disk_commit)
    (simp add: commit_def saveDB_def)

lemma same_world_sent: "same_world w w' \<Longrightarrow> same_world (w\<lparr>sent := n\<rparr>) (w'\<lparr>sent := n\<rparr>)"
  by (auto simp: same_world_def split: jsonfile.splits)

lemma same_world_ensure_left:
  "same_world w w' \<Longrightarrow> same_world (w\<lparr>mem := ensure_seen k (mem w)\<rparr>) w'"
  by (auto simp: same_world_def same_store_def ensure_seen_inherited split: jsonfile.splits)

lemma same_world_ensure_right:
  "same_world w w' \<Longrightarrow> same_world w (w'\<lparr>mem := ensure_seen k (mem w')\<rparr>)"
  by (auto simp: same_world_def same_store_def ensure_seen_inherited split: jsonfile.splits)

lemma same_world_ensure_stored:
  assumes "same_world w w'"
  shows "(seenMatches (ensure_seen k (mem w)) k = None) = (seenMatches (ensure_seen k (mem w')) k = None)"
proof (cases "inherited k")
  case True
  with assms have "seenMatches (mem w) k = seenMatches (mem w') k"
    by (simp add: same_world_def same_store_def)
  then show ?thesis by (simp add: ensure_seen_stored)
next
  case False
  then show ?thesis by (simp add: ensure_seen_stored)
qed

lemma notify_loop_same:
  "same_world w w' \<Longrightarrow>
   (seenMatches (mem w) k = None) = (seenMatches (mem w') k = None) \<Longrightarrow>
   trace (notify_loop net team k ms w) = trace (notify_loop net team k ms w') \<and>
   thrown (notify_loop net team k ms w) = thrown (notify_loop net team k ms w') \<and>
   same_world (after (notify_loop net team k ms w)) (after (notify_loop net team k ms w'))"
proof (induction ms arbitrary: w w')
  case Nil
  then show ?case by simp
next
  case (Cons m ms)
  from Cons.prems have n: "isNew (mem w) k (cid m) = isNew (mem w') k (cid m)"
    and s: "subs_for (mem w) team = subs_for (mem w') team" and e: "sent w = sent w'"
    and i: "subs_iter (mem w) team = subs_iter (mem w') team"
    by (simp_all add: same_world_def same_store_def isNew_def subs_for_def subs_iter_def)
  let ?n = "sent w' + length (subs_for (mem w') team)"
  have c: "same_world (commit k (cid m) w) (commit k (cid m) w')"
    using Cons.prems(1) by (rule same_world_commit)
  then have "same_world ((commit k (cid m) w)\<lparr>sent := ?n\<rparr>) ((commit k (cid m) w')\<lparr>sent := ?n\<rparr>)"
    by (rule same_world_sent)
  moreover have "(seenMatches (mem ((commit k (cid m) w)\<lparr>sent := ?n\<rparr>)) k = None) =
      (seenMatches (mem ((commit k (cid m) w')\<lparr>sent := ?n\<rparr>)) k = None)"
    by (simp add: stored_commit)
  ultimately have
    "trace (notify_loop net team k ms ((commit k (cid m) w)\<lparr>sent := ?n\<rparr>)) =
       trace (notify_loop net team k ms ((commit k (cid m) w')\<lparr>sent := ?n\<rparr>)) \<and>
     thrown (notify_loop net team k ms ((commit k (cid m) w)\<lparr>sent := ?n\<rparr>)) =
       thrown (notify_loop net team k ms ((commit k (cid m) w')\<lparr>sent := ?n\<rparr>)) \<and>
     same_world (after (notify_loop net team k ms ((commit k (cid m) w)\<lparr>sent := ?n\<rparr>)))
       (after (notify_loop net team k ms ((commit k (cid m) w')\<lparr>sent := ?n\<rparr>)))"
    by (rule Cons.IH)
  with Cons.IH [OF Cons.prems] c Cons.prems show ?case
    by (simp add: notify_loop_Cons n s e i)
qed

lemma notify_same:
  assumes "same_world w w'"
  shows "trace (notifyNewMatchesForTeam net up team w) = trace (notifyNewMatchesForTeam net up team w') \<and>
    thrown (notifyNewMatchesForTeam net up team w) = thrown (notifyNewMatchesForTeam net up team w') \<and>
    same_world (after (notifyNewMatchesForTeam net up team w))
      (after (notifyNewMatchesForTeam net up team w'))"
proof -
  have "same_world (w\<lparr>mem := ensure_seen (normalizeTeamName team) (mem w)\<rparr>)
      (w'\<lparr>mem := ensure_seen (normalizeTeamName team) (mem w')\<rparr>)"
    using assms by (intro same_world_ensure_left same_world_ensure_right)
  moreover have "(seenMatches (mem (w\<lparr>mem := ensure_seen (normalizeTeamName team) (mem w)\<rparr>))
        (normalizeTeamName team) = None) =
      (seenMatches (mem (w'\<lparr>mem := ensure_seen (normalizeTeamName team) (mem w')\<rparr>))
        (normalizeTeamName team) = None)"
    using same_world_ensure_stored [OF assms] by simp
  ultimately show ?thesis
    using notify_loop_same by (simp add: notify_trace notify_after notify_thrown)
qed

lemma notify_failed:
  "notifyNewMatchesForTeam net FetchError team w =
     \<lparr>trace = [Log FetchFailed], after = w\<lparr>mem := ensure_seen (normalizeTeamName team) (mem w)\<rparr>,
      thrown = None\<rparr>"
  by (simp add: notifyNewMatchesForTeam_def getMatchesForTeam_def)

lemma other_lines_append [simp]: "other_lines (xs @ ys) = other_lines xs @ other_lines ys"
  by (simp add: other_lines_def)

lemma cron_each_skip_failed:
  assumes "up t = FetchError"
  shows "same_world w w' \<Longrightarrow>
    other_lines (trace (cron_each net up ts w)) =
      other_lines (trace (cron_each net up (removeAll t ts) w')) \<and>
    same_world (after (cron_each net up ts w)) (after (cron_each net up (removeAll t ts) w'))"
proof (induction ts arbitrary: w w')
  case Nil
  then show ?case by simp
next
  case (Cons t' ts)
  show ?case
  proof (cases "t' = t")
    case True
    have "same_world (w\<lparr>mem := ensure_seen (normalizeTeamName t) (mem w)\<rparr>) w'"
      using Cons.prems by (rule same_world_ensure_left)
    from Cons.IH [OF this] True assms show ?thesis
      by (simp add: cron_each_Cons notify_failed other_lines_def)
  next
    case False
    from notify_same [OF Cons.prems, of net "up t'" t']
    have e: "trace (notifyNewMatchesForTeam net (up t') t' w) =
        trace (notifyNewMatchesForTeam net (up t') t' w')"
      and x: "thrown (notifyNewMatchesForTeam net (up t') t' w) =
        thrown (notifyNewMatchesForTeam net (up t') t' w')"
      and s: "same_world (after (notifyNewMatchesForTeam net (up t') t' w))
        (after (notifyNewMatchesForTeam net (up t') t' w'))"
      by blast+
    from Cons.IH [OF s] False e x show ?thesis
      by (simp add: cron_each_Cons)
  qed
qed

lemma poll_each_skip_failed:
  assumes "up t = FetchError"
  shows "same_world w w' \<Longrightarrow>
    other_lines (trace (poll_each net up ts w)) =
      other_lines (trace (poll_each net up (removeAll t ts) w')) \<and>
    thrown (poll_each net up ts w) = thrown (poll_each net up (removeAll t ts) w') \<and>
    same_world (after (poll_each net up ts w)) (after (poll_each net up (removeAll t ts) w'))"
proof (induction ts arbitrary: w w')
  case Nil
  then show ?case by simp
next
  case (Cons t' ts)
  show ?case
  proof (cases "t' = t")
    case True
    have "same_world (w\<lparr>mem := ensure_seen (normalizeTeamName t) (mem w)\<rparr>) w'"
      using Cons.prems by (rule same_world_ensure_left)
    from Cons.IH [OF this] True assms show ?thesis
      by (simp add: poll_each_Cons notify_failed other_lines_def)
  next
    case False
    from notify_same [OF Cons.prems, of net "up t'" t']
    have e: "trace (notifyNewMatchesForTeam net (up t') t' w) =
        trace (notifyNewMatchesForTeam net (up t') t' w')"
      and x: "thrown (notifyNewMatchesForTeam net (up t') t' w) =
        thrown (notifyNewMatchesForTeam net (up t') t' w')"
      and s: "same_world (after (notifyNewMatchesForTeam net (up t') t' w))
        (after (notifyNewMatchesForTeam net (up t') t' w'))"
      by blast+
    from Cons.IH [OF s] False e x s show ?thesis
      by (simp add: poll_each_Cons)
  qed
qed

text \<open>
  C8. When the page cannot be fetched, the cycle of that team logs the failure and nothing
  else: no delivery is attempted, no id is committed, the file is not written, no exception
  is raised, and every key keeps its ids (the team's key may now be stored with no id, which
  reads as a key not stored). The cycles of the other teams of the same poll, scheduled or
  requested, go as they would without that team: the same trace up to the line logged for
  the failure, and the same state. A page that is fetched and yields no candidate ends the
  cycle with no event at all.
\<close>

theorem fetch_failure_isolated:
  "notifyNewMatchesForTeam net FetchError team w =
     \<lparr>trace = [Log FetchFailed], after = w\<lparr>mem := ensure_seen (normalizeTeamName team) (mem w)\<rparr>,
      thrown = None\<rparr> \<and>
   seen_of (mem (after (notifyNewMatchesForTeam net FetchError team w))) k = seen_of (mem w) k \<and>
   disk (after (notifyNewMatchesForTeam net FetchError team w)) = disk w \<and>
   (up t = FetchError \<longrightarrow>
      other_lines (trace (cron_each net up ts w)) =
        other_lines (trace (cron_each net up (removeAll t ts) w)) \<and>
      same_world (after (cron_each net up ts w)) (after (cron_each net up (removeAll t ts) w)) \<and>
      other_lines (trace (poll_each net up ts w)) =
        other_lines (trace (poll_each net up (removeAll t ts) w)) \<and>
      thrown (poll_each net up ts w) = thrown (poll_each net up (removeAll t ts) w) \<and>
      same_world (after (poll_each net up ts w)) (after (poll_each net up (removeAll t ts) w))) \<and>
   (extractMatchesFromHtml html = [] \<longrightarrow>
      notifyNewMatchesForTeam net (Html html) team w =
        \<lparr>trace = [], after = w\<lparr>mem := ensure_seen (normalizeTeamName team) (mem w)\<rparr>,
         thrown = None\<rparr>)"
proof -
  have a: "up t = FetchError \<longrightarrow>
      other_lines (trace (cron_each net up ts w)) =
        other_lines (trace (cron_each net up (removeAll t ts) w)) \<and>
      same_world (after (cron_each net up ts w)) (after (cron_each net up (removeAll t ts) w)) \<and>
      other_lines (trace (poll_each net up ts w)) =
        other_lines (trace (poll_each net up (removeAll t ts) w)) \<and>
      thrown (poll_each net up ts w) = thrown (poll_each net up (removeAll t ts) w) \<and>
      same_world (after (poll_each net up ts w)) (after (poll_each net up (removeAll t ts) w))"
    using poll_each_skip_failed [of up t w w net ts] cron_each_skip_failed [of up t w w net ts]
      same_world_refl [of w]
    by blast
  have b: "extractMatchesFromHtml html = [] \<longrightarrow>
      notifyNewMatchesForTeam net (Html html) team w =
        \<lparr>trace = [], after = w\<lparr>mem := ensure_seen (normalizeTeamName team) (mem w)\<rparr>,
         thrown = None\<rparr>"
    by (simp add: notifyNewMatchesForTeam_def getMatchesForTeam_def)
  have c: "seen_of (mem (after (notifyNewMatchesForTeam net FetchError team w))) k = seen_of (mem w) k"
    "disk (after (notifyNewMatchesForTeam net FetchError team w)) = disk w"
    by (simp_all add: notify_failed)
  from notify_failed [of net team w] c a b show ?thesis
    by (intro conjI)
qed

theorem fetch_failure_isolated_witness:
  "unreachable ''FURIA'' = FetchError \<and>
   trace (cron_each delivered unreachable [''FURIA'', ''furia''] both_world) =
     [Log FetchFailed, Commit ''furia'' ''12345'', Post ''R2'' ''furia'' furia_candidate,
      Log (Notified ''R2'' ''furia'')] \<and>
   other_lines (trace (cron_each delivered unreachable [''FURIA'', ''furia''] both_world)) =
     other_lines (trace (cron_each delivered unreachable [''furia''] both_world)) \<and>
   other_lines (trace (poll_each delivered unreachable [''FURIA'', ''furia''] both_world)) =
     other_lines (trace (poll_each delivered unreachable [''furia''] both_world)) \<and>
   same_world (after (cron_each delivered unreachable [''FURIA'', ''furia''] both_world))
     (after (cron_each delivered unreachable [''furia''] both_world)) \<and>
   extractMatchesFromHtml [] = [] \<and>
   notifyNewMatchesForTeam delivered (Html []) ''FURIA'' both_world =
     \<lparr>trace = [], after = both_world\<lparr>mem := ensure_seen ''furia'' (mem both_world)\<rparr>,
      thrown = None\<rparr>"
proof -
  have u: "unreachable ''FURIA'' = FetchError" and u': "unreachable ''furia'' = Html [furia_link]"
    by (simp_all add: unreachable_def)
  have e: "extractMatchesFromHtml [] = []"
    by (simp add: extractMatchesFromHtml_def)
  have n: "notifyNewMatchesForTeam delivered (Html [furia_link]) ''furia''
      (both_world\<lparr>mem := ensure_seen ''furia'' (mem both_world)\<rparr>) =
     \<lparr>trace = [Commit ''furia'' ''12345'', Post ''R2'' ''furia'' furia_candidate,
        Log (Notified ''R2'' ''furia'')],
      after = (commit ''furia'' ''12345'' (both_world\<lparr>mem := ensure_seen ''furia'' (mem both_world)\<rparr>))
        \<lparr>sent := 1\<rparr>,
      thrown = None\<rparr>"
    by (simp add: notifyNewMatchesForTeam_def furia_matches_furia key_furia)
      (simp add: notify_loop_Cons cid_furia both_world_eq store_defs delivered_def Let_def)
  have p: "trace (cron_each delivered unreachable [''FURIA'', ''furia''] both_world) =
     [Log FetchFailed, Commit ''furia'' ''12345'', Post ''R2'' ''furia'' furia_candidate,
      Log (Notified ''R2'' ''furia'')]"
    by (simp add: cron_each_Cons u u' notify_failed key_FURIA n)
  note t = fetch_failure_isolated [of delivered "''FURIA''" both_world _ unreachable "''FURIA''"
      "[''FURIA'', ''furia'']" "[]"]
  have r: "removeAll ''FURIA'' [''FURIA'', ''furia''] = [''furia'']"
    by simp
  from t u have "other_lines (trace (cron_each delivered unreachable [''FURIA'', ''furia''] both_world)) =
     other_lines (trace (cron_each delivered unreachable (removeAll ''FURIA'' [''FURIA'', ''furia''])
       both_world))"
    by simp
  then have o1: "other_lines (trace (cron_each delivered unreachable [''FURIA'', ''furia''] both_world)) =
     other_lines (trace (cron_each delivered unreachable [''furia''] both_world))"
    by (simp only: r)
  from t u have "other_lines (trace (poll_each delivered unreachable [''FURIA'', ''furia''] both_world)) =
     other_lines (trace (poll_each delivered unreachable (removeAll ''FURIA'' [''FURIA'', ''furia''])
       both_world))"
    by simp
  then have o2: "other_lines (trace (poll_each delivered unreachable [''FURIA'', ''furia''] both_world)) =
     other_lines (trace (poll_each delivered unreachable [''furia''] both_world))"
    by (simp only: r)
  from t u have "same_world (after (cron_each delivered unreachable [''FURIA'', ''furia''] both_world))
     (after (cron_each delivered unreachable (removeAll ''FURIA'' [''FURIA'', ''furia'']) both_world))"
    by simp
  then have o3: "same_world (after (cron_each delivered unreachable [''FURIA'', ''furia''] both_world))
     (after (cron_each delivered unreachable [''furia''] both_world))"
    by (simp only: r)
  from t e have "notifyNewMatchesForTeam delivered (Html []) ''FURIA'' both_world =
     \<lparr>trace = [], after = both_world\<lparr>mem := ensure_seen (normalizeTeamName ''FURIA'') (mem both_world)\<rparr>,
      thrown = None\<rparr>"
    by simp
  then have o4: "notifyNewMatchesForTeam delivered (Html []) ''FURIA'' both_world =
     \<lparr>trace = [], after = both_world\<lparr>mem := ensure_seen ''furia'' (mem both_world)\<rparr>,
      thrown = None\<rparr>"
    by (simp only: key_FURIA)
  from u p o1 o2 o3 e o4 show ?thesis
    by (intro conjI)
qed

section \<open>Subscribing twice\<close>

lemma subs_for_subscribe:
  "team \<noteq> [] \<Longrightarrow> webhook \<noteq> [] \<Longrightarrow>
   subs_for (mem (snd (subscribe team webhook w))) t =
     (if t = team \<and> \<not> (inherited team \<and> map_of (subscriptions (mem w)) team = None)
      then (if webhook \<in> set (subs_for (mem w) team) then subs_for (mem w) team
            else subs_for (mem w) team @ [webhook])
      else subs_for (mem w) t)"
  by (auto simp: subscribe_def Let_def saveDB_def subs_for_def update_conv' lookup_def
      split: option.splits)

lemma subscribe_keeps_distinct:
  assumes "\<And>t. distinct (subs_for (mem w) t)"
  shows "distinct (subs_for (mem (snd (subscribe team webhook w))) t)"
proof (cases "team = [] \<or> webhook = []")
  case True
  then show ?thesis using assms by (auto simp: subscribe_def)
next
  case False
  then show ?thesis using assms by (simp add: subs_for_subscribe)
qed

lemma subscribe_stores_once:
  assumes "team \<noteq> []" and "webhook \<noteq> []" and "\<not> inherited team"
    and "distinct (subs_for (mem w) team)"
  shows "webhook \<in> set (subs_for (mem (snd (subscribe team webhook w))) team) \<and>
    distinct (subs_for (mem (snd (subscribe team webhook w))) team)"
  using assms by (simp add: subs_for_subscribe)

lemma subscribe_idempotent:
  "subs_for (mem (snd (subscribe team webhook (snd (subscribe team webhook w))))) t =
   subs_for (mem (snd (subscribe team webhook w))) t"
proof (cases "team = [] \<or> webhook = []")
  case True
  then show ?thesis by (auto simp: subscribe_def)
next
  case False
  show ?thesis
  proof (cases "inherited team \<and> map_of (subscriptions (mem w)) team = None")
    case True
    then have "snd (subscribe team webhook w) = w"
      using False by (simp add: subscribe_def lookup_def)
    then show ?thesis by simp
  next
    case n: False
    then have "\<not> (inherited team \<and>
        map_of (subscriptions (mem (snd (subscribe team webhook w)))) team = None)"
      using False
      by (auto simp: subscribe_def Let_def saveDB_def update_conv' lookup_def
          split: option.splits)
    with False n show ?thesis by (simp add: subs_for_subscribe)
  qed
qed

text \<open>
  A subscription to a team whose name every object inherits as a property is answered with
  status 500 and stores nothing.
\<close>

lemma subscribe_inherited_name:
  "subscribe ''constructor'' ''R1'' (fresh []) = (Status500, fresh [])"
  by (simp add: subscribe_def fresh_def load_db_def lookup_def inherited_constructor)

text \<open>
  C6 at the input that breaks it. In \<open>discord_esports_bot_api.js\<close> the subscribe request
  pushes a record without looking for the pair: after the same request twice the array
  holds the pair of FURIA and R1 twice. (In \<open>index.js\<close> the webhook is pushed only when the
  team's list does not include it, see \<open>subscribe_stores_once\<close> and
  \<open>subscribe_idempotent\<close>.)
\<close>

theorem api_subscribe_duplicates:
  "map (\<lambda>s. (s_team s, s_webhook s)) (subscriptions (mem api_world_twice)) =
     [(''FURIA'', ''R1''), (''FURIA'', ''R1'')]"
  by (simp add: api_world_twice_eq)

section \<open>index.js attempts a delivery once\<close>

lemma deliveries_append [simp]: "deliveries (xs @ ys) = deliveries xs @ deliveries ys"
  by (simp add: deliveries_def)

lemma deliveries_Nil [simp]: "deliveries [] = []"
  by (simp add: deliveries_def)

lemma deliveries_Commit [simp]: "deliveries (Commit k i # es) = deliveries es"
  by (simp add: deliveries_def)

lemma deliveries_Log [simp]: "deliveries (Log l # es) = deliveries es"
  by (simp add: deliveries_def)

lemma deliveries_post_all:
  "deliveries (fst (post_all net team m subs n)) = map (\<lambda>webhook. (webhook, team, cid m)) subs"
  by (simp add: deliveries_def post_all_posts)

lemma deliveries_getMatches [simp]: "deliveries (snd (getMatchesForTeam up team)) = []"
  by (simp add: deliveries_def getMatches_posts)

lemma notify_loop_once:
  "distinct (subs_for (mem w) team) \<Longrightarrow>
   distinct (deliveries (trace (notify_loop net team k ms w))) \<and>
   (\<forall>webhook t i. (webhook, t, i) \<in> set (deliveries (trace (notify_loop net team k ms w))) \<longrightarrow>
      t = team \<and> i \<notin> set (seen_of (mem w) k) \<and>
      i \<in> set (seen_of (mem (after (notify_loop net team k ms w))) k))"
proof (induction ms arbitrary: w)
  case Nil
  then show ?case by simp
next
  case (Cons m ms)
  let ?w1 = "(commit k (cid m) w)\<lparr>sent := sent w + length (subs_for (mem w) team)\<rparr>"
  show ?case
  proof (cases "seenMatches (mem w) k \<noteq> None \<and> isNew (mem w) k (cid m) \<and>
      subs_iter (mem w) team \<noteq> None")
    case False
    with Cons show ?thesis by (auto simp: notify_loop_Cons)
  next
    case True
    have s: "subs_for (mem ?w1) team = subs_for (mem w) team"
      by (simp add: subs_for_def)
    with Cons.prems have "distinct (subs_for (mem ?w1) team)" by simp
    from Cons.IH [OF this]
    have d: "distinct (deliveries (trace (notify_loop net team k ms ?w1)))"
      and r: "\<And>webhook t i. (webhook, t, i) \<in> set (deliveries (trace (notify_loop net team k ms ?w1)))
        \<Longrightarrow> t = team \<and> i \<notin> set (seen_of (mem ?w1) k) \<and>
          i \<in> set (seen_of (mem (after (notify_loop net team k ms ?w1))) k)"
      by blast+
    have in1: "cid m \<in> set (seen_of (mem ?w1) k)"
      by (simp add: seen_of_commit)
    then have fin: "cid m \<in> set (seen_of (mem (after (notify_loop net team k ms ?w1))) k)"
      using notify_loop_seen [of ?w1 k net team k ms] set_mono_prefix by blast
    have sub: "set (seen_of (mem w) k) \<subseteq> set (seen_of (mem ?w1) k)"
      by (auto simp: seen_of_commit)
    have new: "cid m \<notin> set (seen_of (mem w) k)"
      using True by (simp add: isNew_def)
    have e: "deliveries (trace (notify_loop net team k (m # ms) w)) =
        map (\<lambda>webhook. (webhook, team, cid m)) (subs_for (mem w) team) @
        deliveries (trace (notify_loop net team k ms ?w1))"
      using True by (auto simp: notify_loop_Cons deliveries_post_all)
    have f: "after (notify_loop net team k (m # ms) w) = after (notify_loop net team k ms ?w1)"
      using True by (auto simp: notify_loop_Cons)
    have "distinct (map (\<lambda>webhook. (webhook, team, cid m)) (subs_for (mem w) team))"
      using Cons.prems by (simp add: distinct_map inj_on_def)
    moreover have "set (map (\<lambda>webhook. (webhook, team, cid m)) (subs_for (mem w) team)) \<inter>
        set (deliveries (trace (notify_loop net team k ms ?w1))) = {}"
      using r in1 by auto
    ultimately have "distinct (deliveries (trace (notify_loop net team k (m # ms) w)))"
      using d by (simp add: e)
    moreover have "\<forall>webhook t i. (webhook, t, i) \<in> set (deliveries (trace (notify_loop net team k (m # ms) w))) \<longrightarrow>
        t = team \<and> i \<notin> set (seen_of (mem w) k) \<and>
        i \<in> set (seen_of (mem (after (notify_loop net team k (m # ms) w))) k)"
      using r fin new sub by (auto simp: e f)
    ultimately show ?thesis by blast
  qed
qed

lemma notify_once:
  assumes "distinct (subs_for (mem w) team)"
  shows "distinct (deliveries (trace (notifyNewMatchesForTeam net up team w))) \<and>
    (\<forall>webhook t i. (webhook, t, i) \<in> set (deliveries (trace (notifyNewMatchesForTeam net up team w))) \<longrightarrow>
      t = team \<and> i \<notin> set (seen_of (mem w) (normalizeTeamName team)) \<and>
      i \<in> set (seen_of (mem (after (notifyNewMatchesForTeam net up team w))) (normalizeTeamName team)))"
proof -
  let ?w0 = "w\<lparr>mem := ensure_seen (normalizeTeamName team) (mem w)\<rparr>"
  have "distinct (subs_for (mem ?w0) team)"
    using assms by (simp add: subs_for_def)
  from notify_loop_once [OF this, where net = net and k = "normalizeTeamName team"
      and ms = "fst (getMatchesForTeam up team)"]
  show ?thesis by (simp add: notify_trace notify_after)
qed

lemma subs_for_notify [simp]:
  "subs_for (mem (after (notifyNewMatchesForTeam net up team w))) t = subs_for (mem w) t"
  by (simp add: subs_for_def notify_subscriptions)

lemma cron_each_once:
  "(\<And>t. distinct (subs_for (mem w) t)) \<Longrightarrow>
   distinct (deliveries (trace (cron_each net up ts w))) \<and>
   (\<forall>webhook t i. (webhook, t, i) \<in> set (deliveries (trace (cron_each net up ts w))) \<longrightarrow>
      i \<notin> set (seen_of (mem w) (normalizeTeamName t)) \<and>
      i \<in> set (seen_of (mem (after (cron_each net up ts w))) (normalizeTeamName t)))"
proof (induction ts arbitrary: w)
  case Nil
  show ?case by simp
next
  case (Cons t' ts)
  let ?w1 = "after (notifyNewMatchesForTeam net (up t') t' w)"
  let ?D1 = "deliveries (trace (notifyNewMatchesForTeam net (up t') t' w))"
  let ?D2 = "deliveries (trace (cron_each net up ts ?w1))"
  from notify_once [OF Cons.prems, where team = t' and net = net and up = "up t'"]
  have d1: "distinct ?D1"
    and r1: "\<And>webhook t i. (webhook, t, i) \<in> set ?D1 \<Longrightarrow>
        t = t' \<and> i \<notin> set (seen_of (mem w) (normalizeTeamName t')) \<and>
        i \<in> set (seen_of (mem ?w1) (normalizeTeamName t'))"
    by blast+
  have "\<And>t. distinct (subs_for (mem ?w1) t)"
    using Cons.prems by simp
  from Cons.IH [OF this]
  have d2: "distinct ?D2"
    and r2: "\<And>webhook t i. (webhook, t, i) \<in> set ?D2 \<Longrightarrow>
        i \<notin> set (seen_of (mem ?w1) (normalizeTeamName t)) \<and>
        i \<in> set (seen_of (mem (after (cron_each net up ts ?w1))) (normalizeTeamName t))"
    by blast+
  have up1: "set (seen_of (mem w) k) \<subseteq> set (seen_of (mem ?w1) k)" for k
    using notify_seen [of w k net "up t'" t'] set_mono_prefix by blast
  have up2: "set (seen_of (mem ?w1) k) \<subseteq> set (seen_of (mem (after (cron_each net up ts ?w1))) k)" for k
    using cron_each_seen [of ?w1 k net up ts] set_mono_prefix by blast
  have e: "deliveries (trace (cron_each net up (t' # ts) w)) = ?D1 @ ?D2"
    by (simp add: cron_each_Cons)
  have f: "after (cron_each net up (t' # ts) w) = after (cron_each net up ts ?w1)"
    by (simp add: cron_each_Cons)
  have "set ?D1 \<inter> set ?D2 = {}"
    using r1 r2 by fastforce
  with d1 d2 have "distinct (deliveries (trace (cron_each net up (t' # ts) w)))"
    unfolding e by simp
  moreover have "\<forall>webhook t i. (webhook, t, i) \<in> set (deliveries (trace (cron_each net up (t' # ts) w))) \<longrightarrow>
      i \<notin> set (seen_of (mem w) (normalizeTeamName t)) \<and>
      i \<in> set (seen_of (mem (after (cron_each net up (t' # ts) w))) (normalizeTeamName t))"
    unfolding e f using r1 r2 up1 up2 by (auto; blast)
  ultimately show ?case by blast
qed

lemma poll_each_once:
  "(\<And>t. distinct (subs_for (mem w) t)) \<Longrightarrow>
   distinct (deliveries (trace (poll_each net up ts w))) \<and>
   (\<forall>webhook t i. (webhook, t, i) \<in> set (deliveries (trace (poll_each net up ts w))) \<longrightarrow>
      i \<notin> set (seen_of (mem w) (normalizeTeamName t)) \<and>
      i \<in> set (seen_of (mem (after (poll_each net up ts w))) (normalizeTeamName t)))"
proof (induction ts arbitrary: w)
  case Nil
  show ?case by simp
next
  case (Cons t' ts)
  let ?w1 = "after (notifyNewMatchesForTeam net (up t') t' w)"
  let ?D1 = "deliveries (trace (notifyNewMatchesForTeam net (up t') t' w))"
  let ?D2 = "deliveries (trace (poll_each net up ts ?w1))"
  from notify_once [OF Cons.prems, where team = t' and net = net and up = "up t'"]
  have d1: "distinct ?D1"
    and r1: "\<And>webhook t i. (webhook, t, i) \<in> set ?D1 \<Longrightarrow>
        t = t' \<and> i \<notin> set (seen_of (mem w) (normalizeTeamName t')) \<and>
        i \<in> set (seen_of (mem ?w1) (normalizeTeamName t'))"
    by blast+
  show ?case
  proof (cases "thrown (notifyNewMatchesForTeam net (up t') t' w) = None")
    case False
    then have "poll_each net up (t' # ts) w = notifyNewMatchesForTeam net (up t') t' w"
      by (simp add: poll_each_Cons)
    with d1 r1 show ?thesis by auto
  next
    case True
    have "\<And>t. distinct (subs_for (mem ?w1) t)"
      using Cons.prems by simp
    from Cons.IH [OF this]
    have d2: "distinct ?D2"
      and r2: "\<And>webhook t i. (webhook, t, i) \<in> set ?D2 \<Longrightarrow>
          i \<notin> set (seen_of (mem ?w1) (normalizeTeamName t)) \<and>
          i \<in> set (seen_of (mem (after (poll_each net up ts ?w1))) (normalizeTeamName t))"
      by blast+
    have up1: "set (seen_of (mem w) k) \<subseteq> set (seen_of (mem ?w1) k)" for k
      using notify_seen [of w k net "up t'" t'] set_mono_prefix by blast
    have up2: "set (seen_of (mem ?w1) k) \<subseteq> set (seen_of (mem (after (poll_each net up ts ?w1))) k)" for k
      using poll_each_seen [of ?w1 k net up ts] set_mono_prefix by blast
    have e: "deliveries (trace (poll_each net up (t' # ts) w)) = ?D1 @ ?D2"
      using True by (simp add: poll_each_Cons)
    have f: "after (poll_each net up (t' # ts) w) = after (poll_each net up ts ?w1)"
      using True by (simp add: poll_each_Cons)
    have "set ?D1 \<inter> set ?D2 = {}"
      using r1 r2 by fastforce
    with d1 d2 have "distinct (deliveries (trace (poll_each net up (t' # ts) w)))"
      unfolding e by simp
    moreover have "\<forall>webhook t i. (webhook, t, i) \<in> set (deliveries (trace (poll_each net up (t' # ts) w))) \<longrightarrow>
        i \<notin> set (seen_of (mem w) (normalizeTeamName t)) \<and>
        i \<in> set (seen_of (mem (after (poll_each net up (t' # ts) w))) (normalizeTeamName t))"
      unfolding e f using r1 r2 up1 up2 by (auto; blast)
    ultimately show ?thesis by blast
  qed
qed

lemma notify_loop_file_subscriptions:
  "subscriptions (load_db [] (disk w)) = subscriptions (mem w) \<Longrightarrow>
   subscriptions (load_db [] (disk (after (notify_loop net team k ms w)))) =
     subscriptions (mem (after (notify_loop net team k ms w)))"
proof (induction ms arbitrary: w)
  case Nil
  then show ?case by simp
next
  case (Cons m ms)
  then show ?case
    by (simp add: notify_loop_Cons disk_commit load_db_def)
qed

lemma notify_well_kept:
  assumes "well_kept w"
  shows "well_kept (after (notifyNewMatchesForTeam net up team w))"
proof -
  have "subscriptions (load_db [] (disk (after (notifyNewMatchesForTeam net up team w)))) =
      subscriptions (mem (after (notifyNewMatchesForTeam net up team w)))"
    using assms unfolding notify_after well_kept_def
    by (intro notify_loop_file_subscriptions) simp
  then show ?thesis
    using assms by (simp add: well_kept_def notify_consistent)
qed

lemma cron_each_well_kept: "well_kept w \<Longrightarrow> well_kept (after (cron_each net up ts w))"
proof (induction ts arbitrary: w)
  case Nil
  then show ?case by simp
next
  case (Cons t ts)
  then show ?case
    by (simp add: cron_each_Cons notify_well_kept)
qed

lemma poll_each_well_kept: "well_kept w \<Longrightarrow> well_kept (after (poll_each net up ts w))"
proof (induction ts arbitrary: w)
  case Nil
  then show ?case by simp
next
  case (Cons t ts)
  then show ?case
    by (simp add: poll_each_Cons notify_well_kept)
qed

lemma subscribe_well_kept:
  assumes "well_kept w"
  shows "well_kept (snd (subscribe team webhook w))"
proof -
  have "\<forall>t. distinct (subs_for (mem (snd (subscribe team webhook w))) t)"
    using assms subscribe_keeps_distinct [of w team webhook] by (simp add: well_kept_def)
  moreover have "subscriptions (load_db [] (disk (snd (subscribe team webhook w)))) =
      subscriptions (mem (snd (subscribe team webhook w)))"
    using assms
    by (simp add: well_kept_def subscribe_def Let_def saveDB_def load_db_def split: looked.splits)
  ultimately show ?thesis
    using assms by (simp add: well_kept_def subscribe_consistent)
qed

lemma subs_for_unsubscribe:
  "team \<noteq> [] \<Longrightarrow> webhook \<noteq> [] \<Longrightarrow>
   subs_for (mem (snd (unsubscribe team webhook w))) t =
     (if t = team then filter (\<lambda>x. x \<noteq> webhook) (subs_for (mem w) team)
      else subs_for (mem w) t)"
  by (auto simp: unsubscribe_def Let_def saveDB_def subs_for_def update_conv' lookup_def
      split: option.splits)

lemma unsubscribe_well_kept:
  assumes "well_kept w"
  shows "well_kept (snd (unsubscribe team webhook w))"
proof (cases "team = [] \<or> webhook = []")
  case True
  then show ?thesis using assms by (auto simp: unsubscribe_def)
next
  case False
  then have "\<forall>t. distinct (subs_for (mem (snd (unsubscribe team webhook w))) t)"
    using assms by (simp add: well_kept_def subs_for_unsubscribe)
  moreover have "subscriptions (load_db [] (disk (snd (unsubscribe team webhook w)))) =
      subscriptions (mem (snd (unsubscribe team webhook w)))"
    using False assms
    by (simp add: well_kept_def unsubscribe_def Let_def saveDB_def load_db_def
        split: looked.splits)
  ultimately show ?thesis
    using assms by (simp add: well_kept_def unsubscribe_consistent)
qed

lemma restart_well_kept: "well_kept w \<Longrightarrow> well_kept (restart [] w)"
  by (simp add: well_kept_def restart_consistent) (simp add: restart_def subs_for_def)

lemma exec_well_kept: "well_kept w \<Longrightarrow> well_kept (after (exec net r w))"
  by (cases r)
    (simp_all add: subscribe_well_kept unsubscribe_well_kept cron_tick_def poll_now_def
      Let_def cron_each_well_kept poll_each_well_kept restart_well_kept)

lemma well_kept_fresh: "well_kept (fresh [])"
  by (simp add: well_kept_def consistent_def disk_seen_def fresh_def load_db_def seen_of_def
      subs_for_def)

lemma exec_once:
  assumes "well_kept w"
  shows "distinct (deliveries (trace (exec net r w))) \<and>
    (\<forall>webhook t i. (webhook, t, i) \<in> set (deliveries (trace (exec net r w))) \<longrightarrow>
      i \<notin> set (seen_of (mem w) (normalizeTeamName t)) \<and>
      i \<in> set (seen_of (mem (after (exec net r w))) (normalizeTeamName t)))"
proof -
  have d: "\<And>t. distinct (subs_for (mem w) t)"
    using assms by (simp add: well_kept_def)
  show ?thesis
    using poll_each_once [OF d, of net _ "object_keys (subscriptions (mem w))"]
      cron_each_once [OF d, of net _ "object_keys (subscriptions (mem w))"]
    by (cases r) (simp_all add: cron_tick_def poll_now_def Let_def)
qed

lemma run_once:
  "well_kept w \<Longrightarrow>
   distinct (deliveries (trace (run net rs w))) \<and>
   (\<forall>webhook t i. (webhook, t, i) \<in> set (deliveries (trace (run net rs w))) \<longrightarrow>
      i \<notin> set (seen_of (mem w) (normalizeTeamName t)) \<and>
      i \<in> set (seen_of (mem (after (run net rs w))) (normalizeTeamName t)))"
proof (induction rs arbitrary: w)
  case Nil
  show ?case by simp
next
  case (Cons r rs)
  let ?w1 = "after (exec net r w)"
  let ?D1 = "deliveries (trace (exec net r w))"
  let ?D2 = "deliveries (trace (run net rs ?w1))"
  have c: "consistent w" and k1: "well_kept ?w1"
    using Cons.prems exec_well_kept by (simp_all add: well_kept_def)
  then have c1: "consistent ?w1" by (simp add: well_kept_def)
  from exec_once [OF Cons.prems, of net r]
  have d1: "distinct ?D1"
    and r1: "\<And>webhook t i. (webhook, t, i) \<in> set ?D1 \<Longrightarrow>
        i \<notin> set (seen_of (mem w) (normalizeTeamName t)) \<and>
        i \<in> set (seen_of (mem ?w1) (normalizeTeamName t))"
    by blast+
  from Cons.IH [OF k1]
  have d2: "distinct ?D2"
    and r2: "\<And>webhook t i. (webhook, t, i) \<in> set ?D2 \<Longrightarrow>
        i \<notin> set (seen_of (mem ?w1) (normalizeTeamName t)) \<and>
        i \<in> set (seen_of (mem (after (run net rs ?w1))) (normalizeTeamName t))"
    by blast+
  have up1: "set (seen_of (mem w) k) \<subseteq> set (seen_of (mem ?w1) k)" for k
    using exec_seen [OF c, of k net r] set_mono_prefix by blast
  have up2: "set (seen_of (mem ?w1) k) \<subseteq> set (seen_of (mem (after (run net rs ?w1))) k)" for k
    using run_seen [OF c1, of k net rs] set_mono_prefix by blast
  have e: "deliveries (trace (run net (r # rs) w)) = ?D1 @ ?D2"
    by (simp add: run_Cons)
  have f: "after (run net (r # rs) w) = after (run net rs ?w1)"
    by (simp add: run_Cons)
  have "set ?D1 \<inter> set ?D2 = {}"
    using r1 r2 by fastforce
  with d1 d2 have "distinct (deliveries (trace (run net (r # rs) w)))"
    unfolding e by simp
  moreover have "\<forall>webhook t i. (webhook, t, i) \<in> set (deliveries (trace (run net (r # rs) w))) \<longrightarrow>
      i \<notin> set (seen_of (mem w) (normalizeTeamName t)) \<and>
      i \<in> set (seen_of (mem (after (run net (r # rs) w))) (normalizeTeamName t))"
    unfolding e f using r1 r2 up1 up2 by (auto; blast)
  ultimately show ?case by blast
qed

lemma index_notifies_once:
  "well_kept w \<Longrightarrow> distinct (deliveries (trace (run net rs w)))"
  using run_once by blast

text \<open>
  C2 at the input that breaks it. With the pair stored twice, one poll of
  \<open>discord_esports_bot_api.js\<close>, scheduled or requested, that finds one new match attempts
  two deliveries of that match to R1. (In \<open>index.js\<close> no recipient, team and match id occur
  twice among the delivery attempts of a run, see \<open>index_notifies_once\<close>.)
\<close>

theorem api_notifies_twice:
  "posts (trace (api_run delivered [AJob furia_list] api_world_twice)) =
     [(''R1'', ''FURIA'', furia_match), (''R1'', ''FURIA'', furia_match)] \<and>
   posts (trace (api_run delivered [APollNow furia_list] api_world_twice)) =
     [(''R1'', ''FURIA'', furia_match), (''R1'', ''FURIA'', furia_match)]"
proof -
  have u: "uniq (map s_team (subscriptions (mem api_world_twice))) = [''FURIA'']"
    by (simp add: api_world_twice_eq uniq_def)
  have p: "trace (pollTeam delivered (furia_list ''FURIA'') ''FURIA'' api_world_twice) =
         [Log (PollingTeam ''FURIA''), Commit ''furia'' ''12345'',
          Log (Sending ''R1''), Post ''R1'' ''FURIA'' furia_match,
          Log (Sending ''R1''), Post ''R1'' ''FURIA'' furia_match] \<and>
       thrown (pollTeam delivered (furia_list ''FURIA'') ''FURIA'' api_world_twice) = None"
    by (simp add: pollTeam_def furia_list_def api_matches_FURIA key_FURIA)
      (simp add: pollTeam_loop_Cons api_world_twice_eq store_defs delivered_def furia_match_def
        Let_def)
  have a: "trace (api_run delivered [AJob furia_list] api_world_twice) =
      trace (pollTeam delivered (furia_list ''FURIA'') ''FURIA'' api_world_twice)"
    by (simp add: api_run_Cons api_job_def u job_each_Cons p)
  have b: "trace (api_run delivered [APollNow furia_list] api_world_twice) =
      trace (pollTeam delivered (furia_list ''FURIA'') ''FURIA'' api_world_twice)"
    by (simp add: api_run_Cons api_poll_now_def u api_poll_each_Cons p)
  have c: "posts (trace (pollTeam delivered (furia_list ''FURIA'') ''FURIA'' api_world_twice)) =
      [(''R1'', ''FURIA'', furia_match), (''R1'', ''FURIA'', furia_match)]"
    by (simp add: p)
  show ?thesis by (simp only: a b c)
qed

end
